theory Spec2Isabelle
  imports Main "HOL-Library.Multiset" "HOL-Library.Word"
begin

unbundle bit_operations_syntax

section \<open>The configuration interpreter of lib/librumprun\_base/config.c\<close>

text \<open>
  The interpreter walks a parsed JSON tree and, as it goes, calls the platform (network
  configuration, mounts, device nodes, the resolver file), prints warnings and appends to
  the global queue \<open>rumprun_execs\<close>. A fatal error (\<open>err\<close>, \<open>errx\<close>) ends the
  process at once and leaves everything done so far in place. The model therefore threads
  one state through every function and keeps that state on failure too.

  Memory allocation is taken to succeed: \<open>malloc\<close>, \<open>calloc\<close> and \<open>strdup\<close> never
  return \<open>NULL\<close>, so their \<open>err\<close> branches do not appear.
\<close>

subsection \<open>The document tree (rumprun-base/json.h)\<close>

text \<open>
  The header is not part of the sources at hand; the node type is rebuilt from what
  config.c reads: the tag \<open>d\<close>, the member name \<open>n\<close> and the union \<open>u\<close> with its
  members \<open>u.s\<close> and \<open>u.v\<close> (a \<open>NULL\<close>-terminated array of children, here a list).
  The union is kept as two fields: a read of the member that the tag does not select
  yields whatever the node carries there. The tag \<open>jnumber\<close> is named by
  \<open>sysctl_parse\<close>, which reads such a node through \<open>u.s\<close>.
\<close>

datatype jtypes = jnull | jtrue | jfalse | jstring | jarray | jobject | jnumber

datatype jvalue = Jvalue (jd: jtypes) (jn: string) (u_s: string) (u_v: "jvalue list")

fun jtypestr :: "jtypes \<Rightarrow> string" where
  "jtypestr jnull = ''NULL''"
| "jtypestr jtrue = ''BOOLEAN''"
| "jtypestr jfalse = ''BOOLEAN''"
| "jtypestr jstring = ''STRING''"
| "jtypestr jarray = ''ARRAY''"
| "jtypestr jobject = ''OBJECT''"
| "jtypestr jnumber = ''UNKNOWN''"

text \<open>
  The pointer \<open>u.s\<close> where config.c keeps it without looking at the tag and tests it
  against \<open>NULL\<close> later: a node of tag null, true or false has nothing in its union and
  the pointer is \<open>NULL\<close>; any other node has a pointer there, and what is read through
  it is the \<open>u_s\<close> the node carries.
\<close>

definition u_s_pointer :: "jvalue \<Rightarrow> string option" where
  "u_s_pointer i =
     (if jd i = jnull \<or> jd i = jtrue \<or> jd i = jfalse then None else Some (u_s i))"

subsection \<open>The platform\<close>

text \<open>
  Every call that leaves config.c is a value of \<open>call\<close>, with the arguments the code
  passes. An answer is the returned value together with \<open>errno\<close>.
\<close>

datatype fstype = MOUNT_FFS | MOUNT_EXT2FS | MOUNT_CD9660 | MOUNT_KERNFS | MOUNT_TMPFS

datatype mntargs =
    Ufs_args string
  | Iso_args string
  | No_args
  | Tmpfs_args (ta_size_max: int) (ta_root_mode: nat)

datatype oflag = O_RDONLY | O_WRONLY | O_RDWR | O_CREAT

datatype call =
    Setenv string string
  | Rumprun_sysctlw string string
  | Netconfig_dhcp_ipv4_oneshot string
  | Netconfig_ipv4_ifaddr_cidr string string int
  | Netconfig_auto_ipv6 string
  | Netconfig_ipv6_ifaddr string string int
  | Netconfig_ifcreate string
  | Netconfig_ipv4_gw string
  | Netconfig_ipv6_gw string
  | Etfs_register string string
  | Mkdir string nat
  | Open_file string "oflag list" nat
  | Write_file int string
  | Read_file int int
  | Close_file int
  | Stat_file string
  | Chdir string
  | Mknod string int
  | Ioctl_VNDIOCSET int string
  | Mount fstype string bool mntargs

type_synonym answer = "int \<times> int"

type_synonym history = "(call \<times> answer) list"

type_synonym rre_mainfn = nat

definition NULL :: rre_mainfn where
  "NULL = 0"

record rumprun_bin =
  binname :: string
  main :: rre_mainfn

record rr_sysctl =
  sc_key :: string
  sc_value :: string

record rumprun_exec =
  rre_flags :: "32 word"
  rre_main :: rre_mainfn
  rre_argc :: nat
  rre_argv :: "string list"
  rre_workdir :: "string option"
  rre_sc :: "rr_sysctl list"
  rre_nsc :: nat

record stat =
  st_rdev :: int
  st_size :: int

text \<open>
  What config.c takes from outside: the registry \<open>rumprun_bins\<close> and the run-mode flags
  of rumprun-base/rumprun.h, the parser \<open>jparse\<close>, \<open>dehumanize_number\<close> of libutil,
  the disk macros of the system headers, and the behaviour of the platform: the answer to
  a call given all calls before it, the buffer that \<open>stat\<close> fills, the bytes that
  \<open>read\<close> delivers, and the content of a freshly allocated \<open>rumprun_exec\<close>.
\<close>

record platform =
  rumprun_bins :: "rumprun_bin list"
  RUMPRUN_EXEC_BACKGROUND :: "32 word"
  RUMPRUN_EXEC_PIPE :: "32 word"
  jparse :: "string \<Rightarrow> jvalue option"
  dehumanize_number :: "string \<Rightarrow> int option"
  RAW_PART :: nat
  major :: "int \<Rightarrow> int"
  MAKEDISKDEV :: "int \<Rightarrow> int \<Rightarrow> int \<Rightarrow> int"
  respond :: "history \<Rightarrow> call \<Rightarrow> answer"
  stat_buf :: "history \<Rightarrow> stat"
  file_data :: "history \<Rightarrow> string"
  malloc_junk :: rumprun_exec

definition EEXIST :: int where
  "EEXIST = 17"

definition ENOENT :: int where
  "ENOENT = 2"

subsection \<open>Errors, warnings and the state\<close>

datatype error =
    Expected string string string
  | Invalid_type string string
  | Unexpected_key string string string
  | Missing_bin
  | Unknown_bin string
  | Invalid_runmode string string
  | Call_failed call answer
  | Missing_addr string string
  | Invalid_addr string string
  | Bad_method string string string
  | Expected_boolean_create string
  | Missing_type_method string
  | Addr_type_unsupported string string
  | Missing_type_addr
  | Gw_type_unsupported string
  | Too_many_nameservers
  | Nameserver_too_long string
  | Too_many_search
  | Search_too_long
  | Invalid_vnd_name string
  | Missing_path_type string
  | Unsupported_blk_type string string
  | Bad_size string
  | Missing_source string
  | Mount_failed "string option" string string
  | Unknown_source string string
  | Rootfs_mount_failed
  | Cfg_too_big
  | Jparse_failed
  | No_execs
  | Last_rc_pipe
  | Null_deref

datatype warning =
    No_match string string
  | Unexpected_key_ignored string string string
  | No_addresses string
  | No_json_start

record sys =
  rumprun_execs :: "rumprun_exec list"
  trace :: history
  warnings :: "warning list"

type_synonym 'a M = "sys \<Rightarrow> (error \<times> sys) + ('a \<times> sys)"

definition returnM :: "'a \<Rightarrow> 'a M" where
  "returnM x = (\<lambda>s. Inr (x, s))"

definition errx :: "error \<Rightarrow> 'a M" where
  "errx e = (\<lambda>s. Inl (e, s))"

definition bindM :: "'a M \<Rightarrow> ('a \<Rightarrow> 'b M) \<Rightarrow> 'b M" where
  "bindM m f = (\<lambda>s. case m s of Inl x \<Rightarrow> Inl x | Inr (a, s') \<Rightarrow> f a s')"

definition getsM :: "(sys \<Rightarrow> 'a) \<Rightarrow> 'a M" where
  "getsM f = (\<lambda>s. Inr (f s, s))"

definition warnx :: "warning \<Rightarrow> unit M" where
  "warnx w = (\<lambda>s. Inr ((), s\<lparr>warnings := warnings s @ [w]\<rparr>))"

definition ext :: "platform \<Rightarrow> call \<Rightarrow> answer M" where
  "ext p c = (\<lambda>s. let a = respond p (trace s) c
                   in Inr (a, s\<lparr>trace := trace s @ [(c, a)]\<rparr>))"

definition TAILQ_INSERT_TAIL :: "rumprun_exec \<Rightarrow> unit M" where
  "TAILQ_INSERT_TAIL rre = (\<lambda>s. Inr ((), s\<lparr>rumprun_execs := rumprun_execs s @ [rre]\<rparr>))"

fun TAILQ_LAST :: "'a list \<Rightarrow> 'a option" where
  "TAILQ_LAST [] = None"
| "TAILQ_LAST (x # xs) = Some (last (x # xs))"

text \<open>A loop over the children of a node, and a loop that also updates locals.\<close>

primrec foreach :: "('a \<Rightarrow> unit M) \<Rightarrow> 'a list \<Rightarrow> unit M" where
  "foreach f [] = returnM ()"
| "foreach f (x # xs) = bindM (f x) (\<lambda>_. foreach f xs)"

primrec foldM :: "('a \<Rightarrow> 'b \<Rightarrow> 'b M) \<Rightarrow> 'a list \<Rightarrow> 'b \<Rightarrow> 'b M" where
  "foldM f [] acc = returnM acc"
| "foldM f (x # xs) acc = bindM (f x acc) (foldM f xs)"

text \<open>A call whose value \<open>-1\<close> is fatal.\<close>

definition checked :: "platform \<Rightarrow> call \<Rightarrow> answer M" where
  "checked p c = bindM (ext p c) (\<lambda>a. if fst a = -1 then errx (Call_failed c a) else returnM a)"

text \<open>A call of the rump kernel that returns an error number, anything but 0 being fatal.\<close>

definition rump_pub :: "platform \<Rightarrow> call \<Rightarrow> unit M" where
  "rump_pub p c = bindM (ext p c) (\<lambda>a. if fst a \<noteq> 0 then errx (Call_failed c a) else returnM ())"

subsection \<open>jexpect and handle\_object\<close>

definition jexpect :: "jtypes \<Rightarrow> jvalue \<Rightarrow> string \<Rightarrow> unit M" where
  "jexpect t v loc =
     (if jd v \<noteq> t then errx (Expected loc (jtypestr t) (jtypestr (jd v))) else returnM ())"

record jhandler =
  name :: string
  handler :: "jvalue \<Rightarrow> string \<Rightarrow> unit M"

text \<open>
  A handler table is the list of its entries before the terminating \<open>{ 0 }\<close>. Pass 1:
  the inner loop stops at the first entry with the name of the pair, and a pair for which
  it reaches the terminator is reported.
\<close>

definition pass1 :: "jvalue list \<Rightarrow> jhandler list \<Rightarrow> string \<Rightarrow> unit M" where
  "pass1 ps h loc =
     foreach (\<lambda>i. case find (\<lambda>hj. jn i = name hj) h of
                     None \<Rightarrow> warnx (No_match loc (jn i))
                   | Some _ \<Rightarrow> returnM ()) ps"

definition pass2 :: "jvalue list \<Rightarrow> jhandler list \<Rightarrow> string \<Rightarrow> unit M" where
  "pass2 ps h loc =
     foreach (\<lambda>hj. foreach (\<lambda>i. if jn i = name hj then handler hj i loc else returnM ()) ps) h"

definition handle_object :: "jvalue \<Rightarrow> jhandler list \<Rightarrow> string \<Rightarrow> unit M" where
  "handle_object v h loc =
     bindM (jexpect jobject v loc) (\<lambda>_.
     bindM (pass1 (u_v v) h loc) (\<lambda>_.
     pass2 (u_v v) h loc))"

subsection \<open>The fallback boot plan\<close>

text \<open>
  \<open>handle_rc_dummy\<close> sets four fields of the entry it allocates and leaves the others
  as \<open>malloc\<close> delivered them.
\<close>

definition handle_rc_dummy :: "platform \<Rightarrow> int M" where
  "handle_rc_dummy p =
     bindM (foreach (\<lambda>b. TAILQ_INSERT_TAIL
                           ((malloc_junk p)\<lparr>rre_flags := 0, rre_main := main b,
                              rre_argc := 1, rre_argv := [binname b]\<rparr>))
              (rumprun_bins p)) (\<lambda>_.
     returnM (int (length (rumprun_bins p))))"

subsection \<open>Kernel tunables\<close>

definition sysctl_check :: "jvalue \<Rightarrow> unit M" where
  "sysctl_check i =
     (if jd i \<noteq> jtrue \<and> jd i \<noteq> jfalse \<and> jd i \<noteq> jstring \<and> jd i \<noteq> jnumber
      then errx (Invalid_type (jn i) ''sysctl_parse'') else returnM ())"

definition sysctl_entry :: "string option \<Rightarrow> jvalue \<Rightarrow> rr_sysctl" where
  "sysctl_entry prefix i =
     \<lparr>sc_key = (case prefix of Some pre \<Rightarrow> pre @ ''.'' @ jn i | None \<Rightarrow> jn i),
      sc_value = (if jd i = jtrue then ''1'' else if jd i = jfalse then ''0'' else u_s i)\<rparr>"

text \<open>The result list stands for \<open>*osc\<close> and \<open>*onsc\<close>: the empty list for \<open>NULL\<close> and 0.\<close>

definition sysctl_parse :: "jvalue \<Rightarrow> string option \<Rightarrow> string \<Rightarrow> rr_sysctl list M" where
  "sysctl_parse v prefix loc =
     bindM (foreach sysctl_check (u_v v)) (\<lambda>_.
     returnM (map (sysctl_entry prefix) (u_v v)))"

definition handle_sysctl :: "platform \<Rightarrow> jvalue \<Rightarrow> string \<Rightarrow> unit M" where
  "handle_sysctl p v loc =
     bindM (jexpect jobject v ''handle_sysctl'') (\<lambda>_.
     bindM (sysctl_parse v None ''handle_sysctl'') (\<lambda>sc.
     foreach (\<lambda>e. rump_pub p (Rumprun_sysctlw (sc_key e) (sc_value e))) sc))"

definition handlers_netbsd :: "platform \<Rightarrow> jhandler list" where
  "handlers_netbsd p = [\<lparr>name = ''sysctl'', handler = handle_sysctl p\<rparr>]"

definition handle_netbsd :: "platform \<Rightarrow> jvalue \<Rightarrow> string \<Rightarrow> unit M" where
  "handle_netbsd p v loc = handle_object v (handlers_netbsd p) ''handle_netbsd''"

subsection \<open>The boot plan\<close>

text \<open>
  With an empty registry \<open>rumprun_bins[0]\<close> is the terminating \<open>NULL\<close>, and the read of
  its \<open>main\<close> for the name \<open>*\<close> is a null dereference.
\<close>

definition getmain :: "platform \<Rightarrow> string \<Rightarrow> rre_mainfn M" where
  "getmain p bn =
     (if bn = ''*''
      then (case rumprun_bins p of [] \<Rightarrow> errx Null_deref | b # _ \<Rightarrow> returnM (main b))
      else returnM (case find (\<lambda>b. binname b = bn) (rumprun_bins p) of
                      Some b \<Rightarrow> main b
                    | None \<Rightarrow> NULL))"

record bin_locals =
  v_bin :: "jvalue option"
  v_argv :: "jvalue option"
  v_runmode :: "jvalue option"
  v_workdir :: "jvalue option"
  v_sysctl :: "jvalue option"

definition handle_bin_netbsd :: "jvalue \<Rightarrow> bin_locals \<Rightarrow> bin_locals M" where
  "handle_bin_netbsd j l =
     (if jn j = ''sysctl''
      then bindM (jexpect jobject j ''handle_bin'') (\<lambda>_. returnM (l\<lparr>v_sysctl := Some j\<rparr>))
      else errx (Unexpected_key ''handle_bin'' (jn j) ''handle_bin''))"

definition handle_bin_key :: "jvalue \<Rightarrow> bin_locals \<Rightarrow> bin_locals M" where
  "handle_bin_key i l =
     (if jn i = ''bin''
      then bindM (jexpect jstring i ''handle_bin'') (\<lambda>_. returnM (l\<lparr>v_bin := Some i\<rparr>))
      else if jn i = ''argv''
      then bindM (jexpect jarray i ''handle_bin'') (\<lambda>_. returnM (l\<lparr>v_argv := Some i\<rparr>))
      else if jn i = ''runmode''
      then bindM (jexpect jstring i ''handle_bin'') (\<lambda>_. returnM (l\<lparr>v_runmode := Some i\<rparr>))
      else if jn i = ''workdir''
      then bindM (jexpect jstring i ''handle_bin'') (\<lambda>_. returnM (l\<lparr>v_workdir := Some i\<rparr>))
      else if jn i = ''netbsd''
      then bindM (jexpect jobject i ''handle_bin'') (\<lambda>_. foldM handle_bin_netbsd (u_v i) l)
      else errx (Unexpected_key ''handle_bin'' (jn i) ''handle_bin''))"

definition bin_argv :: "bin_locals \<Rightarrow> string list M" where
  "bin_argv l =
     (case v_argv l of
        None \<Rightarrow> returnM []
      | Some a \<Rightarrow> bindM (foreach (\<lambda>i. jexpect jstring i ''handle_bin'') (u_v a)) (\<lambda>_.
                  returnM (map u_s (u_v a))))"

definition bin_runmode :: "platform \<Rightarrow> bin_locals \<Rightarrow> string \<Rightarrow> 32 word M" where
  "bin_runmode p l bn =
     (case v_runmode l of
        None \<Rightarrow> returnM 0
      | Some r \<Rightarrow>
          if u_s r = '''' then returnM 0
          else if u_s r = ''&'' then returnM (RUMPRUN_EXEC_BACKGROUND p)
          else if u_s r = ''|'' then returnM (RUMPRUN_EXEC_PIPE p)
          else errx (Invalid_runmode (u_s r) bn))"

definition bin_sysctl :: "bin_locals \<Rightarrow> rr_sysctl list M" where
  "bin_sysctl l =
     (case v_sysctl l of
        None \<Rightarrow> returnM []
      | Some sc \<Rightarrow> sysctl_parse sc (Some ''proc.curproc'') ''handle_bin'')"

text \<open>
  The strings of a non-empty \<open>argv\<close> are copied one by one; otherwise the vector is the
  value of \<open>bin\<close> alone.
\<close>

definition handle_bin :: "platform \<Rightarrow> jvalue \<Rightarrow> string \<Rightarrow> unit M" where
  "handle_bin p v loc =
     bindM (jexpect jobject v ''handle_bin'') (\<lambda>_.
     bindM (foldM handle_bin_key (u_v v)
              \<lparr>v_bin = None, v_argv = None, v_runmode = None, v_workdir = None,
               v_sysctl = None\<rparr>) (\<lambda>l.
     case v_bin l of
       None \<Rightarrow> errx Missing_bin
     | Some b \<Rightarrow>
         bindM (getmain p (u_s b)) (\<lambda>binmain.
         if binmain = NULL then errx (Unknown_bin (u_s b))
         else
           bindM (bin_argv l) (\<lambda>args.
           bindM (bin_runmode p l (u_s b)) (\<lambda>rreflags.
           bindM (bin_sysctl l) (\<lambda>sc.
           let argv = (if args \<noteq> [] then args else [u_s b])
           in TAILQ_INSERT_TAIL
                \<lparr>rre_flags = rreflags, rre_main = binmain, rre_argc = length argv,
                 rre_argv = argv, rre_workdir = map_option u_s (v_workdir l),
                 rre_sc = sc, rre_nsc = length sc\<rparr>))))))"

definition handle_rc :: "platform \<Rightarrow> jvalue \<Rightarrow> string \<Rightarrow> unit M" where
  "handle_rc p v loc =
     bindM (jexpect jarray v ''handle_rc'') (\<lambda>_.
     foreach (\<lambda>i. handle_bin p i ''handle_rc'') (u_v v))"

definition handle_env :: "platform \<Rightarrow> jvalue \<Rightarrow> string \<Rightarrow> unit M" where
  "handle_env p v loc =
     bindM (jexpect jobject v ''handle_env'') (\<lambda>_.
     foreach (\<lambda>i. bindM (jexpect jstring i ''handle_env'') (\<lambda>_.
                  bindM (checked p (Setenv (jn i) (u_s i))) (\<lambda>_. returnM ())))
       (u_v v))"

subsection \<open>Strings and numbers of the C library\<close>

text \<open>
  \<open>atoi\<close> is \<open>(int) strtol(s, NULL, 10)\<close>: white space is skipped, one sign is read,
  then decimal digits for as long as there are any; what follows is ignored and no digit at
  all gives 0. \<open>strtol\<close> saturates at the bounds of a 64-bit \<open>long\<close> and the
  conversion to \<open>int\<close> keeps the low 32 bits.
\<close>

definition isspace :: "char \<Rightarrow> bool" where
  "isspace c = (let k = (of_char c :: nat) in k = 32 \<or> (9 \<le> k \<and> k \<le> 13))"

definition isdigit :: "char \<Rightarrow> bool" where
  "isdigit c = (let k = (of_char c :: nat) in 48 \<le> k \<and> k \<le> 57)"

definition digits_value :: "string \<Rightarrow> int" where
  "digits_value ds = foldl (\<lambda>a c. 10 * a + (of_char c - 48)) 0 ds"

definition strtol :: "string \<Rightarrow> int" where
  "strtol s =
     (let s1 = dropWhile isspace s;
          neg = (s1 \<noteq> [] \<and> hd s1 = CHR ''-'');
          s2 = (if s1 \<noteq> [] \<and> (hd s1 = CHR ''-'' \<or> hd s1 = CHR ''+'') then tl s1 else s1);
          v = digits_value (takeWhile isdigit s2);
          w = (if neg then - v else v)
      in max (- (2 ^ 63)) (min (2 ^ 63 - 1) w))"

definition int_of_long :: "int \<Rightarrow> int" where
  "int_of_long x = (let w = x mod 2 ^ 32 in if 2 ^ 31 \<le> w then w - 2 ^ 32 else w)"

definition atoi :: "string \<Rightarrow> int" where
  "atoi s = int_of_long (strtol s)"

text \<open>\<open>strstr\<close>, returning what follows the first occurrence of the needle.\<close>

fun after_strstr :: "string \<Rightarrow> string \<Rightarrow> string option" where
  "after_strstr [] needle = (if needle = [] then Some [] else None)"
| "after_strstr (c # cs) needle =
     (if take (length needle) (c # cs) = needle then Some (drop (length needle) (c # cs))
      else after_strstr cs needle)"

fun dec_nat :: "nat \<Rightarrow> string" where
  "dec_nat k = (if k < 10 then [char_of (48 + k)] else dec_nat (k div 10) @ [char_of (48 + k mod 10)])"

definition dec_int :: "int \<Rightarrow> string" where
  "dec_int i = (if i < 0 then CHR ''-'' # dec_nat (nat (- i)) else dec_nat (nat i))"

text \<open>
  \<open>sscanf(dev, "vnd%d", &unit)\<close>: the three letters must match, then \<open>%d\<close> skips white
  space, reads one sign and needs at least one digit.
\<close>

definition scan_vnd :: "string \<Rightarrow> int option" where
  "scan_vnd dev =
     (if take 3 dev \<noteq> ''vnd'' then None
      else let s1 = dropWhile isspace (drop 3 dev);
               s2 = (if s1 \<noteq> [] \<and> (hd s1 = CHR ''-'' \<or> hd s1 = CHR ''+'') then tl s1 else s1)
           in if s2 \<noteq> [] \<and> isdigit (hd s2) then Some (int_of_long (strtol (drop 3 dev)))
              else None)"

subsection \<open>Network\<close>

definition config_ipv4 :: "platform \<Rightarrow> string \<Rightarrow> string \<Rightarrow> string option \<Rightarrow> unit M" where
  "config_ipv4 p ifname method cidr =
     (if method = ''dhcp'' then rump_pub p (Netconfig_dhcp_ipv4_oneshot ifname)
      else if method = ''static'' then
        (case cidr of
           None \<Rightarrow> errx (Missing_addr ''config_ipv4'' ifname)
         | Some c \<Rightarrow>
             if CHR ''/'' \<notin> set c then errx (Invalid_addr ''config_ipv4'' ifname)
             else
               let addr = takeWhile (\<lambda>x. x \<noteq> CHR ''/'') c;
                   mask = tl (dropWhile (\<lambda>x. x \<noteq> CHR ''/'') c)
               in rump_pub p (Netconfig_ipv4_ifaddr_cidr ifname addr (atoi mask)))
      else errx (Bad_method ''config_ipv4'' ifname method))"

definition config_ipv6 :: "platform \<Rightarrow> string \<Rightarrow> string \<Rightarrow> string option \<Rightarrow> unit M" where
  "config_ipv6 p ifname method addrmask =
     (if method = ''auto'' then rump_pub p (Netconfig_auto_ipv6 ifname)
      else if method = ''static'' then
        (case addrmask of
           None \<Rightarrow> errx (Missing_addr ''config_ipv6'' ifname)
         | Some c \<Rightarrow>
             if CHR ''/'' \<notin> set c then errx (Invalid_addr ''config_ipv6'' ifname)
             else
               let addr = takeWhile (\<lambda>x. x \<noteq> CHR ''/'') c;
                   mask = tl (dropWhile (\<lambda>x. x \<noteq> CHR ''/'') c)
               in rump_pub p (Netconfig_ipv6_ifaddr ifname addr (atoi mask)))
      else errx (Bad_method ''config_ipv6'' ifname method))"

record iface_locals =
  if_addrs :: "jvalue option"
  if_create :: "jvalue option"

definition handle_interface_key :: "string \<Rightarrow> jvalue \<Rightarrow> iface_locals \<Rightarrow> iface_locals M" where
  "handle_interface_key ifname i l =
     (if jn i = ''create''
      then (if jd i \<noteq> jtrue \<and> jd i \<noteq> jfalse then errx (Expected_boolean_create ifname)
            else returnM (l\<lparr>if_create := Some i\<rparr>))
      else if jn i = ''addrs''
      then bindM (jexpect jarray i ''handle_interface'') (\<lambda>_. returnM (l\<lparr>if_addrs := Some i\<rparr>))
      else bindM (warnx (Unexpected_key_ignored ''handle_interface'' (jn i) ifname)) (\<lambda>_.
           returnM l))"

record addr_locals =
  a_type :: "string option"
  a_method :: "string option"
  a_addr :: "string option"

definition handle_addr_key :: "string \<Rightarrow> jvalue \<Rightarrow> addr_locals \<Rightarrow> addr_locals M" where
  "handle_addr_key ifname i l =
     (if jn i = ''type'' then returnM (l\<lparr>a_type := u_s_pointer i\<rparr>)
      else if jn i = ''method'' then returnM (l\<lparr>a_method := u_s_pointer i\<rparr>)
      else if jn i = ''addr'' then returnM (l\<lparr>a_addr := u_s_pointer i\<rparr>)
      else bindM (warnx (Unexpected_key_ignored ''handle_interface'' (jn i)
                          (ifname @ ''.addrs[]''))) (\<lambda>_.
           returnM l))"

definition handle_addr :: "platform \<Rightarrow> string \<Rightarrow> jvalue \<Rightarrow> unit M" where
  "handle_addr p ifname a =
     bindM (jexpect jobject a ''handle_interface'') (\<lambda>_.
     bindM (foldM (handle_addr_key ifname) (u_v a)
              \<lparr>a_type = None, a_method = None, a_addr = None\<rparr>) (\<lambda>l.
     case (a_type l, a_method l) of
       (Some ty, Some method) \<Rightarrow>
         if ty = ''inet'' then config_ipv4 p ifname method (a_addr l)
         else if ty = ''inet6'' then config_ipv6 p ifname method (a_addr l)
         else errx (Addr_type_unsupported ty ifname)
     | _ \<Rightarrow> errx (Missing_type_method ifname)))"

definition handle_interface :: "platform \<Rightarrow> jvalue \<Rightarrow> string \<Rightarrow> unit M" where
  "handle_interface p v loc =
     bindM (jexpect jobject v ''handle_interface'') (\<lambda>_.
     bindM (foldM (handle_interface_key (jn v)) (u_v v)
              \<lparr>if_addrs = None, if_create = None\<rparr>) (\<lambda>l.
     bindM (case if_create l of
              Some c \<Rightarrow> if jd c = jtrue then rump_pub p (Netconfig_ifcreate (jn v))
                        else returnM ()
            | None \<Rightarrow> returnM ()) (\<lambda>_.
     case if_addrs l of
       None \<Rightarrow> warnx (No_addresses (jn v))
     | Some addrs \<Rightarrow> foreach (handle_addr p (jn v)) (u_v addrs))))"

definition handle_interfaces :: "platform \<Rightarrow> jvalue \<Rightarrow> string \<Rightarrow> unit M" where
  "handle_interfaces p v loc =
     bindM (jexpect jobject v ''handle_interfaces'') (\<lambda>_.
     foreach (\<lambda>i. handle_interface p i ''handle_interfaces'') (u_v v))"

definition handle_gateway_key :: "jvalue \<Rightarrow> addr_locals \<Rightarrow> addr_locals M" where
  "handle_gateway_key i l =
     (if jn i = ''type'' then returnM (l\<lparr>a_type := u_s_pointer i\<rparr>)
      else if jn i = ''addr'' then returnM (l\<lparr>a_addr := u_s_pointer i\<rparr>)
      else bindM (warnx (Unexpected_key_ignored ''handle_gateways'' (jn i) ''gateways[]''))
             (\<lambda>_. returnM l))"

definition handle_gateway :: "platform \<Rightarrow> jvalue \<Rightarrow> unit M" where
  "handle_gateway p a =
     bindM (jexpect jobject a ''handle_gateways'') (\<lambda>_.
     bindM (foldM handle_gateway_key (u_v a)
              \<lparr>a_type = None, a_method = None, a_addr = None\<rparr>) (\<lambda>l.
     case (a_type l, a_addr l) of
       (Some ty, Some addr) \<Rightarrow>
         if ty = ''inet'' then rump_pub p (Netconfig_ipv4_gw addr)
         else if ty = ''inet6'' then rump_pub p (Netconfig_ipv6_gw addr)
         else errx (Gw_type_unsupported ty)
     | _ \<Rightarrow> errx Missing_type_addr))"

definition handle_gateways :: "platform \<Rightarrow> jvalue \<Rightarrow> string \<Rightarrow> unit M" where
  "handle_gateways p v loc =
     bindM (jexpect jarray v ''handle_gateways'') (\<lambda>_.
     foreach (handle_gateway p) (u_v v))"

subsection \<open>The resolver file\<close>

record dns_locals =
  nameservers :: "jvalue option"
  search :: "jvalue option"

definition handle_dns_key :: "jvalue \<Rightarrow> dns_locals \<Rightarrow> dns_locals M" where
  "handle_dns_key i l =
     (if jn i = ''nameservers''
      then bindM (jexpect jarray i ''handle_dns'') (\<lambda>_. returnM (l\<lparr>nameservers := Some i\<rparr>))
      else if jn i = ''search''
      then bindM (jexpect jarray i ''handle_dns'') (\<lambda>_. returnM (l\<lparr>search := Some i\<rparr>))
      else bindM (warnx (Unexpected_key_ignored ''handle_dns'' (jn i) [])) (\<lambda>_.
           returnM l))"

definition newline :: string where
  "newline = [CHR 0x0A]"

text \<open>
  One round of the first loop: \<open>n\<close> counts the entries seen; \<open>snprintf\<close> returns the
  length of the whole line, and a line of \<open>maxlen\<close> bytes or more is refused before it is
  written.
\<close>

definition dns_nameserver :: "platform \<Rightarrow> int \<Rightarrow> int \<Rightarrow> jvalue \<Rightarrow> int \<Rightarrow> int M" where
  "dns_nameserver p fd maxlen i k =
     bindM (jexpect jstring i ''handle_dns'') (\<lambda>_.
     if k + 1 > 3 then errx Too_many_nameservers
     else
       let line = ''nameserver '' @ u_s i @ newline
       in if int (length line) \<ge> maxlen then errx (Nameserver_too_long (u_s i))
          else bindM (checked p (Write_file fd line)) (\<lambda>_. returnM (k + 1)))"

text \<open>
  The second loop appends to the buffer at \<open>p\<close> and lowers \<open>maxlen\<close>; its locals are the
  count \<open>n\<close>, the text between \<open>buf\<close> and \<open>p\<close>, and \<open>maxlen\<close>. The entry before the
  terminating \<open>NULL\<close> gets the line feed.
\<close>

fun dns_search :: "jvalue list \<Rightarrow> int \<times> string \<times> int \<Rightarrow> (int \<times> string \<times> int) M" where
  "dns_search [] acc = returnM acc"
| "dns_search (i # rest) (k, buf, maxlen) =
     bindM (jexpect jstring i ''handle_dns'') (\<lambda>_.
     if k + 1 > 6 then errx Too_many_search
     else
       let piece = (if k + 1 = 1 then ''search'' else []) @ '' '' @ u_s i
                   @ (if rest = [] then newline else [])
       in if int (length piece) \<ge> maxlen then errx Search_too_long
          else dns_search rest (k + 1, buf @ piece, maxlen - int (length piece)))"

text \<open>
  What \<open>handle_dns\<close> does once it has found one of the two keys: the block for
  the name servers, the block for the search list, and the calls around them.
\<close>

definition write_nameservers :: "platform \<Rightarrow> int \<Rightarrow> int \<Rightarrow> dns_locals \<Rightarrow> unit M" where
  "write_nameservers p fd maxlen l =
     (case nameservers l of
        Some ns \<Rightarrow> bindM (foldM (dns_nameserver p fd maxlen) (u_v ns) 0) (\<lambda>_. returnM ())
      | None \<Rightarrow> returnM ())"

definition write_search :: "platform \<Rightarrow> int \<Rightarrow> int \<Rightarrow> dns_locals \<Rightarrow> unit M" where
  "write_search p fd maxlen l =
     (case search l of
        Some se \<Rightarrow>
          bindM (dns_search (u_v se) (0, [], maxlen)) (\<lambda>(k, buf, _).
          if k > 0 then bindM (checked p (Write_file fd buf)) (\<lambda>_. returnM ())
          else returnM ())
      | None \<Rightarrow> returnM ())"

definition write_resolv_conf :: "platform \<Rightarrow> dns_locals \<Rightarrow> unit M" where
  "write_resolv_conf p l =
     bindM (ext p (Mkdir ''/etc'' 493)) (\<lambda>a.
     if fst a = -1 \<and> snd a \<noteq> EEXIST then errx (Call_failed (Mkdir ''/etc'' 493) a)
     else
       bindM (checked p (Open_file ''/etc/resolv.conf'' [O_WRONLY, O_CREAT] 420)) (\<lambda>opened.
       let fd = fst opened; maxlen = int (length ''search '') + 1024 + 2 in
       bindM (write_nameservers p fd maxlen l) (\<lambda>_.
       bindM (write_search p fd maxlen l) (\<lambda>_.
       bindM (ext p (Close_file fd)) (\<lambda>_. returnM ())))))"

definition handle_dns :: "platform \<Rightarrow> jvalue \<Rightarrow> string \<Rightarrow> unit M" where
  "handle_dns p v loc =
     bindM (jexpect jobject v ''handle_dns'') (\<lambda>_.
     bindM (foldM handle_dns_key (u_v v) \<lparr>nameservers = None, search = None\<rparr>) (\<lambda>l.
     if nameservers l = None \<and> search l = None then returnM ()
     else write_resolv_conf p l))"

definition handlers_net :: "platform \<Rightarrow> jhandler list" where
  "handlers_net p =
     [\<lparr>name = ''interfaces'', handler = handle_interfaces p\<rparr>,
      \<lparr>name = ''gateways'', handler = handle_gateways p\<rparr>,
      \<lparr>name = ''dns'', handler = handle_dns p\<rparr>]"

definition handle_net :: "platform \<Rightarrow> jvalue \<Rightarrow> string \<Rightarrow> unit M" where
  "handle_net p v loc = handle_object v (handlers_net p) ''handle_net''"

subsection \<open>Block devices\<close>

definition makevnddev :: "bool \<Rightarrow> int \<Rightarrow> nat \<Rightarrow> string" where
  "makevnddev israw unit part =
     take 31 (''/dev/'' @ (if israw then ''r'' else []) @ ''vnd'' @ dec_int unit
              @ [char_of (97 + part)])"

definition getvndmajor :: "platform \<Rightarrow> bool \<Rightarrow> int M" where
  "getvndmajor p israw =
     bindM (checked p (Stat_file (makevnddev israw 0 (RAW_PART p)))) (\<lambda>_.
     bindM (getsM (\<lambda>s. stat_buf p (trace s))) (\<lambda>sb.
     returnM (major p (st_rdev sb))))"

definition configvnd :: "platform \<Rightarrow> string \<Rightarrow> string \<Rightarrow> unit M" where
  "configvnd p dev path =
     (case scan_vnd dev of
        None \<Rightarrow> errx (Invalid_vnd_name dev)
      | Some unit \<Rightarrow>
          let bbuf = makevnddev False unit (RAW_PART p);
              rbuf = makevnddev True unit (RAW_PART p)
          in
          bindM (ext p (Open_file rbuf [O_RDWR] 0)) (\<lambda>a.
          bindM (if fst a = -1 \<and> snd a = ENOENT
                 then bindM (getvndmajor p False) (\<lambda>bmaj.
                      bindM (getvndmajor p True) (\<lambda>rmaj.
                      bindM (checked p (Mknod bbuf
                               (MAKEDISKDEV p bmaj unit (int (RAW_PART p))))) (\<lambda>_.
                      bindM (checked p (Mknod rbuf
                               (MAKEDISKDEV p rmaj unit (int (RAW_PART p))))) (\<lambda>_.
                      ext p (Open_file rbuf [O_RDWR] 0)))))
                 else returnM a) (\<lambda>b.
          if fst b = -1 then errx (Call_failed (Open_file rbuf [O_RDWR] 0) b)
          else
            bindM (checked p (Ioctl_VNDIOCSET (fst b) path)) (\<lambda>_.
            bindM (ext p (Close_file (fst b))) (\<lambda>_. returnM ())))))"

definition configetfs :: "platform \<Rightarrow> string \<Rightarrow> string \<Rightarrow> bool \<Rightarrow> unit M" where
  "configetfs p dev hostpath hard =
     (let key = take 31 (''/dev/'' @ dev)
      in bindM (ext p (Etfs_register key hostpath)) (\<lambda>a.
         if fst a \<noteq> 0 \<and> hard then errx (Call_failed (Etfs_register key hostpath) a)
         else returnM ()))"

record blk_locals =
  b_type :: "string option"
  b_path :: "string option"

definition handle_blk_key :: "string \<Rightarrow> jvalue \<Rightarrow> blk_locals \<Rightarrow> blk_locals M" where
  "handle_blk_key dev i l =
     (if jn i = ''type''
      then bindM (jexpect jstring i ''handle_blk'') (\<lambda>_. returnM (l\<lparr>b_type := Some (u_s i)\<rparr>))
      else if jn i = ''path''
      then bindM (jexpect jstring i ''handle_blk'') (\<lambda>_. returnM (l\<lparr>b_path := Some (u_s i)\<rparr>))
      else errx (Unexpected_key ''handle_blk'' (jn i) dev))"

definition handle_blk :: "platform \<Rightarrow> jvalue \<Rightarrow> string \<Rightarrow> unit M" where
  "handle_blk p v loc =
     bindM (jexpect jobject v ''handle_blk'') (\<lambda>_.
     bindM (foldM (handle_blk_key (jn v)) (u_v v) \<lparr>b_type = None, b_path = None\<rparr>) (\<lambda>l.
     case (b_type l, b_path l) of
       (Some ty, Some path) \<Rightarrow>
         if ty = ''etfs'' then configetfs p (jn v) path True
         else if ty = ''vnd'' then configvnd p (jn v) path
         else errx (Unsupported_blk_type ty (jn v))
     | _ \<Rightarrow> errx (Missing_path_type (jn v))))"

definition handle_blks :: "platform \<Rightarrow> jvalue \<Rightarrow> string \<Rightarrow> unit M" where
  "handle_blks p v loc =
     bindM (jexpect jobject v ''handle_blks'') (\<lambda>_.
     foreach (\<lambda>i. handle_blk p i ''handle_blks'') (u_v v))"

subsection \<open>Mounts\<close>

definition mount_blk :: "platform \<Rightarrow> string option \<Rightarrow> string \<Rightarrow> jvalue option \<Rightarrow> bool M" where
  "mount_blk p dev mp options =
     (case dev of
        None \<Rightarrow> returnM False
      | Some dv \<Rightarrow>
          bindM (ext p (Mount MOUNT_FFS mp False (Ufs_args dv))) (\<lambda>a.
          if fst a = 0 then returnM True
          else
            bindM (ext p (Mount MOUNT_EXT2FS mp False (Ufs_args dv))) (\<lambda>b.
            if fst b = 0 then returnM True
            else
              bindM (ext p (Mount MOUNT_CD9660 mp True (Iso_args dv))) (\<lambda>c.
              returnM (fst c = 0)))))"

definition mount_kernfs :: "platform \<Rightarrow> string option \<Rightarrow> string \<Rightarrow> jvalue option \<Rightarrow> bool M" where
  "mount_kernfs p dev mp options =
     bindM (ext p (Mount MOUNT_KERNFS mp False No_args)) (\<lambda>a. returnM (fst a = 0))"

definition mount_tmpfs_key :: "jvalue \<Rightarrow> string option \<Rightarrow> string option M" where
  "mount_tmpfs_key i opt_size =
     (if jn i = ''size''
      then bindM (jexpect jstring i ''mount_tmpfs'') (\<lambda>_. returnM (Some (u_s i)))
      else errx (Unexpected_key ''mount_tmpfs'' (jn i) ''options''))"

definition mount_tmpfs :: "platform \<Rightarrow> string option \<Rightarrow> string \<Rightarrow> jvalue option \<Rightarrow> bool M" where
  "mount_tmpfs p dev mp options =
     bindM (case options of
              Some opts \<Rightarrow> bindM (jexpect jobject opts ''mount_tmpfs'') (\<lambda>_.
                           foldM mount_tmpfs_key (u_v opts) None)
            | None \<Rightarrow> returnM None) (\<lambda>opt_size.
     case dehumanize_number p (case opt_size of Some txt \<Rightarrow> txt | None \<Rightarrow> ''1M'') of
       None \<Rightarrow> errx (Bad_size mp)
     | Some sz \<Rightarrow>
         bindM (ext p (Mount MOUNT_TMPFS mp False (Tmpfs_args sz 1023))) (\<lambda>a.
         returnM (fst a = 0)))"

definition mounters ::
  "(string \<times> (platform \<Rightarrow> string option \<Rightarrow> string \<Rightarrow> jvalue option \<Rightarrow> bool M)) list" where
  "mounters = [(''blk'', mount_blk), (''kernfs'', mount_kernfs), (''tmpfs'', mount_tmpfs)]"

text \<open>
  \<open>mkdirhier\<close> calls \<open>mkdir\<close> on the path cut after each of its segments: a round skips
  the slashes in front of the next segment, then the segment, and the path up to there is
  the argument. The rounds end with the one that reaches the end of the string.
  \<open>next_chunk\<close> is what is left of the string after a round.
\<close>

definition next_chunk :: "string \<Rightarrow> string" where
  "next_chunk rest = dropWhile (\<lambda>c. c \<noteq> CHR ''/'') (dropWhile (\<lambda>c. c = CHR ''/'') rest)"

function mkdirhier_chunks :: "string \<Rightarrow> string \<Rightarrow> string list" where
  "mkdirhier_chunks pre rest =
     (if next_chunk rest = [] then [pre @ rest]
      else (pre @ take (length rest - length (next_chunk rest)) rest)
           # mkdirhier_chunks (pre @ take (length rest - length (next_chunk rest)) rest)
               (next_chunk rest))"
  by pat_completeness auto

definition mkdirhier :: "platform \<Rightarrow> string \<Rightarrow> unit M" where
  "mkdirhier p path =
     foreach (\<lambda>pathbuf. bindM (ext p (Mkdir pathbuf 493)) (\<lambda>a.
                if fst a = -1 \<and> snd a \<noteq> EEXIST then errx (Call_failed (Mkdir pathbuf 493) a)
                else returnM ()))
       (mkdirhier_chunks [] path)"

record mount_locals =
  m_source :: "string option"
  m_path :: "string option"
  m_options :: "jvalue option"

definition handle_mount_key :: "string \<Rightarrow> jvalue \<Rightarrow> mount_locals \<Rightarrow> mount_locals M" where
  "handle_mount_key mp i l =
     (if jn i = ''source''
      then bindM (jexpect jstring i ''handle_mount'') (\<lambda>_. returnM (l\<lparr>m_source := Some (u_s i)\<rparr>))
      else if jn i = ''path''
      then bindM (jexpect jstring i ''handle_mount'') (\<lambda>_. returnM (l\<lparr>m_path := Some (u_s i)\<rparr>))
      else if jn i = ''options''
      then bindM (jexpect jobject i ''handle_mount'') (\<lambda>_. returnM (l\<lparr>m_options := Some i\<rparr>))
      else errx (Unexpected_key ''handle_mount'' (jn i) mp))"

definition handle_mount :: "platform \<Rightarrow> jvalue \<Rightarrow> string \<Rightarrow> unit M" where
  "handle_mount p v loc =
     bindM (jexpect jobject v ''handle_mount'') (\<lambda>_.
     bindM (foldM (handle_mount_key (jn v)) (u_v v)
              \<lparr>m_source = None, m_path = None, m_options = None\<rparr>) (\<lambda>l.
     case m_source l of
       None \<Rightarrow> errx (Missing_source (jn v))
     | Some source \<Rightarrow>
         bindM (mkdirhier p (jn v)) (\<lambda>_.
         case find (\<lambda>m. source = fst m) mounters of
           Some m \<Rightarrow> bindM (snd m p (m_path l) (jn v) (m_options l)) (\<lambda>ok.
                     if \<not> ok then errx (Mount_failed (m_path l) (jn v) source)
                     else returnM ())
         | None \<Rightarrow> errx (Unknown_source source (jn v)))))"

definition handle_mounts :: "platform \<Rightarrow> jvalue \<Rightarrow> string \<Rightarrow> unit M" where
  "handle_mounts p v loc =
     bindM (jexpect jobject v ''handle_mounts'') (\<lambda>_.
     foreach (\<lambda>i. handle_mount p i ''handle_mounts'') (u_v v))"

subsection \<open>The root table and rumprun\_config\<close>

definition handlers_root :: "platform \<Rightarrow> jhandler list" where
  "handlers_root p =
     [\<lparr>name = ''netbsd'', handler = handle_netbsd p\<rparr>,
      \<lparr>name = ''rc'', handler = handle_rc p\<rparr>,
      \<lparr>name = ''env'', handler = handle_env p\<rparr>,
      \<lparr>name = ''blk'', handler = handle_blks p\<rparr>,
      \<lparr>name = ''mount'', handler = handle_mounts p\<rparr>,
      \<lparr>name = ''net'', handler = handle_net p\<rparr>]"

definition CFGMAXSIZE :: int where
  "CFGMAXSIZE = 64 * 1024"

primrec tryroot_loop :: "platform \<Rightarrow> string list \<Rightarrow> bool M" where
  "tryroot_loop p [] = returnM False"
| "tryroot_loop p (r # rs) =
     bindM (mount_blk p (Some r) ''/rootfs'' None) (\<lambda>ok.
     if ok then returnM True else tryroot_loop p rs)"

definition getcmdlinefromroot :: "platform \<Rightarrow> string \<Rightarrow> string M" where
  "getcmdlinefromroot p cfgname =
     bindM (checked p (Mkdir ''/rootfs'' 511)) (\<lambda>_.
     bindM (tryroot_loop p [''/dev/ld0a'', ''/dev/sd0a'']) (\<lambda>found.
     bindM (if found then returnM ()
            else bindM (configetfs p ''rootfs'' ''blkfront:sda1'' False) (\<lambda>_.
                 bindM (mount_blk p (Some ''/dev/rootfs'') ''/rootfs'' None) (\<lambda>ok.
                 if \<not> ok then errx Rootfs_mount_failed else returnM ()))) (\<lambda>_.
     let cfg = dropWhile (\<lambda>c. c = CHR ''/'') cfgname in
     bindM (checked p (Chdir ''/rootfs'')) (\<lambda>_.
     bindM (checked p (Open_file cfg [O_RDONLY] 0)) (\<lambda>opened.
     bindM (checked p (Stat_file cfg)) (\<lambda>_.
     bindM (getsM (\<lambda>s. stat_buf p (trace s))) (\<lambda>sb.
     if st_size sb > CFGMAXSIZE then errx Cfg_too_big
     else
       bindM (ext p (Read_file (fst opened) (st_size sb))) (\<lambda>r.
       if fst r \<noteq> st_size sb then errx (Call_failed (Read_file (fst opened) (st_size sb)) r)
       else
         bindM (getsM (\<lambda>s. file_data p (trace s))) (\<lambda>data.
         bindM (ext p (Close_file (fst opened))) (\<lambda>_.
         returnM (takeWhile (\<lambda>c. c \<noteq> CHR 0x00) (take (nat (st_size sb)) data))))))))))))"

definition rumprun_config_path :: "string \<Rightarrow> string option" where
  "rumprun_config_path cmdline = after_strstr cmdline ''_RUMPRUN_ROOTFSCFG=''"

text \<open>
  The end of \<open>rumprun_config\<close>: the fallback when the queue is empty, and the check of
  the last entry.
\<close>

definition check_execs :: "platform \<Rightarrow> unit M" where
  "check_execs p =
     bindM (getsM (\<lambda>s. TAILQ_LAST (rumprun_execs s))) (\<lambda>rre.
     bindM (case rre of
              Some r \<Rightarrow> returnM (Some r)
            | None \<Rightarrow> bindM (handle_rc_dummy p) (\<lambda>nbins.
                      if nbins = 0 then errx No_execs
                      else getsM (\<lambda>s. TAILQ_LAST (rumprun_execs s)))) (\<lambda>rre.
     case rre of
       None \<Rightarrow> errx Null_deref
     | Some r \<Rightarrow>
         if rre_flags r AND RUMPRUN_EXEC_PIPE p \<noteq> 0 then errx Last_rc_pipe
         else returnM ()))"

text \<open>
  The beginning of \<open>rumprun_config\<close>: the text to search for the configuration is the
  command line itself, or the file named behind \<open>_RUMPRUN_ROOTFSCFG=\<close>.
\<close>

definition config_text :: "platform \<Rightarrow> string \<Rightarrow> string M" where
  "config_text p cmdline =
     (case rumprun_config_path cmdline of
        Some cfg \<Rightarrow> getcmdlinefromroot p cfg
      | None \<Rightarrow> returnM cmdline)"

definition rumprun_config :: "platform \<Rightarrow> string \<Rightarrow> unit M" where
  "rumprun_config p cmdline =
     bindM (config_text p cmdline) (\<lambda>cmdline.
     bindM (case dropWhile (\<lambda>c. c \<noteq> CHR ''{'') cmdline of
              [] \<Rightarrow> warnx No_json_start
            | c # cs \<Rightarrow>
                (case jparse p (c # cs) of
                   None \<Rightarrow> errx Jparse_failed
                 | Some root \<Rightarrow> handle_object root (handlers_root p) ''rumprun_config''))
       (\<lambda>_. check_execs p))"

subsection \<open>Comparing two runs\<close>

text \<open>
  Two states agree up to the order of the warnings printed; two outcomes are the same when
  both are the same fatal error or both the same result, in states that agree so.
\<close>

definition eqw :: "sys \<Rightarrow> sys \<Rightarrow> bool" where
  "eqw s t = (rumprun_execs s = rumprun_execs t \<and> trace s = trace t
              \<and> mset (warnings s) = mset (warnings t))"

definition same_outcome :: "(error \<times> sys) + ('a \<times> sys) \<Rightarrow> (error \<times> sys) + ('a \<times> sys) \<Rightarrow> bool" where
  "same_outcome r r' =
     (case r of
        Inl (e, s) \<Rightarrow> (case r' of Inl (e', s') \<Rightarrow> e = e' \<and> eqw s s' | Inr _ \<Rightarrow> False)
      | Inr (x, s) \<Rightarrow> (case r' of Inl _ \<Rightarrow> False | Inr (x', s') \<Rightarrow> x = x' \<and> eqw s s'))"

definition resp :: "'a M \<Rightarrow> bool" where
  "resp m = (\<forall>s t. eqw s t \<longrightarrow> same_outcome (m s) (m t))"

text \<open>The state in which a run ends, fatal or not.\<close>

definition out_state :: "(error \<times> sys) + ('a \<times> sys) \<Rightarrow> sys" where
  "out_state r = (case r of Inl (e, s) \<Rightarrow> s | Inr (x, s) \<Rightarrow> s)"

definition keeps :: "'a M \<Rightarrow> bool" where
  "keeps m = (\<forall>s. rumprun_execs (out_state (m s)) = rumprun_execs s)"

text \<open>The calls made between two states, in order.\<close>

definition calls_since :: "sys \<Rightarrow> sys \<Rightarrow> call list" where
  "calls_since s s' = map fst (drop (length (trace s)) (trace s'))"

text \<open>
  The history after the calls \<open>cs\<close> have been made one after the other, each with the
  answer the platform gives at that point.
\<close>

definition answered :: "platform \<Rightarrow> history \<Rightarrow> call list \<Rightarrow> history" where
  "answered p h cs = foldl (\<lambda>h c. h @ [(c, respond p h c)]) h cs"

subsection \<open>Sample inputs\<close>

definition jstr :: "string \<Rightarrow> string \<Rightarrow> jvalue" where
  "jstr k x = Jvalue jstring k x []"

definition jbool :: "string \<Rightarrow> bool \<Rightarrow> jvalue" where
  "jbool k b = Jvalue (if b then jtrue else jfalse) k [] []"

definition jnum :: "string \<Rightarrow> string \<Rightarrow> jvalue" where
  "jnum k x = Jvalue jnumber k x []"

definition jarr :: "string \<Rightarrow> jvalue list \<Rightarrow> jvalue" where
  "jarr k xs = Jvalue jarray k [] xs"

definition jobj :: "string \<Rightarrow> jvalue list \<Rightarrow> jvalue" where
  "jobj k xs = Jvalue jobject k [] xs"

definition sys0 :: sys where
  "sys0 = \<lparr>rumprun_execs = [], trace = [], warnings = []\<rparr>"

text \<open>
  A platform on which every call succeeds with value 0, with two programs baked in and
  the flag values 1 and 2.
\<close>

definition plat0 :: platform where
  "plat0 =
     \<lparr>rumprun_bins = [\<lparr>binname = ''foo'', main = 1\<rparr>, \<lparr>binname = ''bar'', main = 2\<rparr>],
      RUMPRUN_EXEC_BACKGROUND = 1,
      RUMPRUN_EXEC_PIPE = 2,
      jparse = (\<lambda>txt. None),
      dehumanize_number = (\<lambda>txt. Some 1048576),
      RAW_PART = 3,
      major = (\<lambda>dev. dev div 256),
      MAKEDISKDEV = (\<lambda>maj unit part. maj * 256 + unit * 8 + part),
      respond = (\<lambda>h c. (0, 0)),
      stat_buf = (\<lambda>h. \<lparr>st_rdev = 0, st_size = 0\<rparr>),
      file_data = (\<lambda>h. []),
      malloc_junk = \<lparr>rre_flags = 0, rre_main = 0, rre_argc = 0, rre_argv = [],
                     rre_workdir = None, rre_sc = [], rre_nsc = 0\<rparr>\<rparr>"

subsection \<open>Termination of the path walk\<close>

lemma length_next_chunk:
  assumes "next_chunk rest \<noteq> []"
  shows "length (next_chunk rest) < length rest"
proof (cases rest)
  case Nil
  then show ?thesis using assms by (simp add: next_chunk_def)
next
  case (Cons c cs)
  have le: "\<And>P (xs :: string). length (dropWhile P xs) \<le> length xs"
    by (simp add: length_dropWhile_le)
  show ?thesis
  proof (cases "c = CHR ''/''")
    case True
    have "length (next_chunk rest) \<le> length (dropWhile (\<lambda>c. c = CHR ''/'') cs)"
      using Cons True by (simp add: next_chunk_def le)
    also have "\<dots> \<le> length cs" by (rule le)
    finally show ?thesis using Cons by simp
  next
    case False
    have "length (next_chunk rest) \<le> length cs"
      using Cons False by (simp add: next_chunk_def le)
    then show ?thesis using Cons by simp
  qed
qed

termination mkdirhier_chunks
  by (relation "measure (\<lambda>(pre, rest). length rest)") (auto simp: length_next_chunk)

declare mkdirhier_chunks.simps [simp del]

declare dec_nat.simps [simp del]


section \<open>Laws of the state and error passing\<close>


lemma returnM_apply: "returnM x s = Inr (x, s)" by (simp add: returnM_def)
lemma errx_apply: "errx e s = Inl (e, s)" by (simp add: errx_def)
lemma bindM_apply: "bindM m f s = (case m s of Inl x \<Rightarrow> Inl x | Inr (a, s') \<Rightarrow> f a s')"
  by (simp add: bindM_def)
lemma bindM_returnM [simp]: "bindM (returnM x) f = f x"
  by (rule ext) (simp add: bindM_def returnM_def)
lemma bindM_errx [simp]: "bindM (errx e) f = errx e"
  by (rule ext) (simp add: bindM_def errx_def)
lemma bindM_assoc: "bindM (bindM m f) g = bindM m (\<lambda>x. bindM (f x) g)"
  by (rule ext) (simp add: bindM_def split: sum.splits prod.splits)

lemma foreach_filter:
  "foreach (\<lambda>i. if P i then f i else returnM ()) ps = foreach f (filter P ps)"
  by (induction ps) simp_all

lemma pass2_filter:
  "pass2 ps h loc = foreach (\<lambda>hj. foreach (\<lambda>i. handler hj i loc) (filter (\<lambda>i. jn i = name hj) ps)) h"
  by (simp add: pass2_def foreach_filter)

lemma find_None_iff2: "(find P xs = None) = (\<forall>x\<in>set xs. \<not> P x)"
  by (induction xs) auto

lemma pass1_result:
  "pass1 ps h loc s =
     Inr ((), s\<lparr>warnings := warnings s @ map (\<lambda>i. No_match loc (jn i))
                   (filter (\<lambda>i. \<forall>hj\<in>set h. jn i \<noteq> name hj) ps)\<rparr>)"
proof (induction ps arbitrary: s)
  case Nil
  show ?case by (simp add: pass1_def returnM_apply)
next
  case (Cons i ps)
  have step: "pass1 (i # ps) h loc = bindM (case find (\<lambda>hj. jn i = name hj) h of
                     None \<Rightarrow> warnx (No_match loc (jn i))
                   | Some _ \<Rightarrow> returnM ()) (\<lambda>_. pass1 ps h loc)"
    by (simp add: pass1_def)
  show ?case
  proof (cases "find (\<lambda>hj. jn i = name hj) h")
    case None
    then have a: "\<forall>hj\<in>set h. jn i \<noteq> name hj" by (simp add: find_None_iff2)
    have "pass1 (i # ps) h loc s = pass1 ps h loc (s\<lparr>warnings := warnings s @ [No_match loc (jn i)]\<rparr>)"
      unfolding step None by (simp add: bindM_apply warnx_def)
    also have "\<dots> = Inr ((), s\<lparr>warnings := warnings s @ [No_match loc (jn i)] @ map (\<lambda>i. No_match loc (jn i))
                   (filter (\<lambda>i. \<forall>hj\<in>set h. jn i \<noteq> name hj) ps)\<rparr>)"
      unfolding Cons.IH by simp
    finally show ?thesis using a by simp
  next
    case (Some a)
    then have b: "\<not> (\<forall>hj\<in>set h. jn i \<noteq> name hj)"
      using find_None_iff2 [of "\<lambda>hj. jn i = name hj" h] by simp
    have "pass1 (i # ps) h loc s = pass1 ps h loc s"
      unfolding step Some by simp
    then show ?thesis unfolding Cons.IH using b by simp
  qed
qed

lemma foreach_sysctl_check:
  "foreach sysctl_check ps s =
     (case find (\<lambda>i. jd i \<noteq> jtrue \<and> jd i \<noteq> jfalse \<and> jd i \<noteq> jstring \<and> jd i \<noteq> jnumber) ps of
        None \<Rightarrow> Inr ((), s)
      | Some i \<Rightarrow> Inl (Invalid_type (jn i) ''sysctl_parse'', s))"
  by (induction ps) (simp_all add: returnM_apply sysctl_check_def errx_apply)

lemma sysctl_parse_result:
  "sysctl_parse v prefix loc s =
     (case find (\<lambda>i. jd i \<noteq> jtrue \<and> jd i \<noteq> jfalse \<and> jd i \<noteq> jstring \<and> jd i \<noteq> jnumber) (u_v v) of
        None \<Rightarrow> Inr (map (sysctl_entry prefix) (u_v v), s)
      | Some i \<Rightarrow> Inl (Invalid_type (jn i) ''sysctl_parse'', s))"
  by (simp add: sysctl_parse_def bindM_apply foreach_sysctl_check returnM_apply split: option.splits)


section \<open>What no function but the boot plan builder touches\<close>

text \<open>
  Two families of rules, one per combinator and one per function: \<open>resp\<close> says that a
  run does not depend on the warnings printed before it, \<open>keeps\<close> that it leaves the
  queue \<open>rumprun_execs\<close> alone.
\<close>

named_theorems resp_intros
named_theorems keeps_intros

lemma resp_returnM [resp_intros]: "resp (returnM x)"
  by (simp add: resp_def returnM_def same_outcome_def eqw_def)

lemma resp_errx [resp_intros]: "resp (errx e)"
  by (simp add: resp_def errx_def same_outcome_def eqw_def)

lemma resp_warnx [resp_intros]: "resp (warnx w)"
  by (simp add: resp_def warnx_def same_outcome_def eqw_def)

lemma resp_ext [resp_intros]: "resp (ext p c)"
  by (simp add: resp_def ext_def Let_def same_outcome_def eqw_def)

lemma resp_bindM [resp_intros]:
  assumes "resp m" and "\<And>x. resp (f x)"
  shows "resp (bindM m f)"
  proof -
  have "same_outcome (bindM m f s) (bindM m f t)" if st: "eqw s t" for s t
  proof -
    have m: "same_outcome (m s) (m t)" using assms(1) st by (simp add: resp_def)
    show ?thesis
    proof (cases "m s")
      case (Inl a)
      then show ?thesis using m
        by (auto simp: bindM_def same_outcome_def split: sum.splits prod.splits)
    next
      case (Inr b)
      obtain x s1 where b: "b = (x, s1)" by (cases b)
      from m Inr b obtain t1 where t1: "m t = Inr (x, t1)" "eqw s1 t1"
        by (auto simp: same_outcome_def split: sum.splits prod.splits)
      have "same_outcome (f x s1) (f x t1)" using assms(2) t1(2) by (simp add: resp_def)
      then show ?thesis using Inr b t1 by (simp add: bindM_def)
    qed
  qed
  then show ?thesis by (simp add: resp_def)
qed

lemma resp_foreach [resp_intros]:
  assumes "\<And>x. resp (f x)"
  shows "resp (foreach f xs)"
  by (induction xs) (simp_all add: resp_returnM resp_bindM assms)

lemma resp_foldM [resp_intros]:
  assumes "\<And>x a. resp (f x a)"
  shows "resp (foldM f xs a)"
proof (induction xs arbitrary: a)
  case Nil
  show ?case by (simp add: resp_returnM)
next
  case (Cons x xs)
  show ?case by (simp add: resp_bindM assms Cons)
qed

lemma resp_if [resp_intros]:
  "(b \<Longrightarrow> resp m) \<Longrightarrow> (\<not> b \<Longrightarrow> resp m') \<Longrightarrow> resp (if b then m else m')"
  by simp

lemma resp_case_option [resp_intros]:
  "resp a \<Longrightarrow> (\<And>y. resp (b y)) \<Longrightarrow> resp (case x of None \<Rightarrow> a | Some y \<Rightarrow> b y)"
  by (cases x) simp_all

lemma resp_case_prod [resp_intros]:
  "(\<And>a b. resp (f a b)) \<Longrightarrow> resp (case x of (a, b) \<Rightarrow> f a b)"
  by (cases x) simp

lemma resp_case_list [resp_intros]:
  "resp a \<Longrightarrow> (\<And>y ys. resp (b y ys)) \<Longrightarrow> resp (case x of [] \<Rightarrow> a | y # ys \<Rightarrow> b y ys)"
  by (cases x) simp_all

lemma resp_Let [resp_intros]: "resp (f x) \<Longrightarrow> resp (Let x f)"
  by simp

lemma resp_checked [resp_intros]: "resp (checked p c)"
  unfolding checked_def by (intro resp_intros)

lemma resp_rump_pub [resp_intros]: "resp (rump_pub p c)"
  unfolding rump_pub_def by (intro resp_intros)

lemma resp_jexpect [resp_intros]: "resp (jexpect t v loc)"
  unfolding jexpect_def by (intro resp_intros)

lemma resp_pass1 [resp_intros]: "resp (pass1 ps h loc)"
  unfolding pass1_def by (intro resp_intros)

lemma resp_pass2:
  assumes "\<And>hj i. hj \<in> set h \<Longrightarrow> resp (handler hj i loc)"
  shows "resp (pass2 ps h loc)"
  unfolding pass2_filter using assms
proof (induction h)
  case Nil
  show ?case by (simp add: resp_returnM)
next
  case (Cons hj h)
  show ?case using Cons by (simp add: resp_bindM resp_foreach)
qed

lemma resp_handle_object:
  assumes "\<And>hj i. hj \<in> set h \<Longrightarrow> resp (handler hj i loc)"
  shows "resp (handle_object v h loc)"
  unfolding handle_object_def
  by (intro resp_bindM resp_jexpect resp_pass1 resp_pass2 assms)

lemma resp_sysctl_parse [resp_intros]: "resp (sysctl_parse v prefix loc)"
  unfolding sysctl_parse_def sysctl_check_def by (intro resp_intros)

lemma resp_handle_sysctl [resp_intros]: "resp (handle_sysctl p v loc)"
  unfolding handle_sysctl_def by (intro resp_intros)

lemma resp_handle_netbsd [resp_intros]: "resp (handle_netbsd p v loc)"
  unfolding handle_netbsd_def
  by (rule resp_handle_object) (simp add: handlers_netbsd_def resp_handle_sysctl)

lemma resp_handle_env [resp_intros]: "resp (handle_env p v loc)"
  unfolding handle_env_def by (intro resp_intros)

lemma resp_config_ipv4 [resp_intros]: "resp (config_ipv4 p ifname method cidr)"
  unfolding config_ipv4_def by (intro resp_intros)

lemma resp_config_ipv6 [resp_intros]: "resp (config_ipv6 p ifname method cidr)"
  unfolding config_ipv6_def by (intro resp_intros)

lemma resp_handle_addr [resp_intros]: "resp (handle_addr p ifname a)"
  unfolding handle_addr_def handle_addr_key_def by (intro resp_intros)

lemma resp_handle_interface [resp_intros]: "resp (handle_interface p v loc)"
  unfolding handle_interface_def handle_interface_key_def by (intro resp_intros)

lemma resp_handle_interfaces [resp_intros]: "resp (handle_interfaces p v loc)"
  unfolding handle_interfaces_def by (intro resp_intros)

lemma resp_handle_gateways [resp_intros]: "resp (handle_gateways p v loc)"
  unfolding handle_gateways_def handle_gateway_def handle_gateway_key_def
  by (intro resp_intros)

lemma resp_dns_search [resp_intros]: "resp (dns_search xs acc)"
proof (induction xs acc rule: dns_search.induct)
  case (1 acc)
  show ?case by (simp add: resp_returnM)
next
  case (2 i rest k buf maxlen)
  show ?case
    unfolding dns_search.simps Let_def by (intro resp_intros 2) simp_all
qed

lemma resp_handle_dns [resp_intros]: "resp (handle_dns p v loc)"
  unfolding handle_dns_def write_resolv_conf_def write_nameservers_def write_search_def
    handle_dns_key_def dns_nameserver_def
  by (intro resp_intros)

lemma resp_handle_net [resp_intros]: "resp (handle_net p v loc)"
  unfolding handle_net_def
  by (rule resp_handle_object)
     (auto simp: handlers_net_def resp_handle_interfaces resp_handle_gateways resp_handle_dns)

lemma resp_configetfs [resp_intros]: "resp (configetfs p dev hostpath hard)"
  unfolding configetfs_def by (intro resp_intros)

lemma resp_gets_trace [resp_intros]: "resp (getsM (\<lambda>s. g (trace s)))"
  by (simp add: resp_def getsM_def same_outcome_def eqw_def)

lemma resp_gets_execs [resp_intros]: "resp (getsM (\<lambda>s. g (rumprun_execs s)))"
  by (simp add: resp_def getsM_def same_outcome_def eqw_def)

lemma resp_TAILQ_INSERT_TAIL [resp_intros]: "resp (TAILQ_INSERT_TAIL e)"
  by (simp add: resp_def TAILQ_INSERT_TAIL_def same_outcome_def eqw_def)

lemma resp_getvndmajor [resp_intros]: "resp (getvndmajor p israw)"
  unfolding getvndmajor_def by (intro resp_intros)

lemma resp_configvnd [resp_intros]: "resp (configvnd p dev path)"
  unfolding configvnd_def by (intro resp_intros)

lemma resp_handle_blk [resp_intros]: "resp (handle_blk p v loc)"
  unfolding handle_blk_def handle_blk_key_def by (intro resp_intros)

lemma resp_handle_blks [resp_intros]: "resp (handle_blks p v loc)"
  unfolding handle_blks_def by (intro resp_intros)

lemma resp_mount_blk [resp_intros]: "resp (mount_blk p dev mp options)"
  unfolding mount_blk_def by (intro resp_intros)

lemma resp_mount_kernfs [resp_intros]: "resp (mount_kernfs p dev mp options)"
  unfolding mount_kernfs_def by (intro resp_intros)

lemma resp_mount_tmpfs [resp_intros]: "resp (mount_tmpfs p dev mp options)"
  unfolding mount_tmpfs_def mount_tmpfs_key_def by (intro resp_intros)

lemma resp_mounters:
  "find P mounters = Some m \<Longrightarrow> resp (snd m p dev mp options)"
  by (auto simp: mounters_def resp_mount_blk resp_mount_kernfs resp_mount_tmpfs
      split: if_splits)

lemma resp_mkdirhier [resp_intros]: "resp (mkdirhier p path)"
  unfolding mkdirhier_def by (intro resp_intros)

lemma resp_mount_dispatch:
  "resp (case find P mounters of
           Some m \<Rightarrow> bindM (snd m p dev mp options) (\<lambda>ok. if \<not> ok then errx e else returnM ())
         | None \<Rightarrow> errx e')"
  by (cases "find P mounters") (auto intro!: resp_intros resp_mounters)

lemma resp_handle_mount [resp_intros]: "resp (handle_mount p v loc)"
  unfolding handle_mount_def handle_mount_key_def by (intro resp_intros resp_mount_dispatch)

lemma resp_handle_mounts [resp_intros]: "resp (handle_mounts p v loc)"
  unfolding handle_mounts_def by (intro resp_intros)

lemma resp_tryroot_loop [resp_intros]: "resp (tryroot_loop p rs)"
  by (induction rs) (auto intro!: resp_intros)

lemma resp_getcmdlinefromroot [resp_intros]: "resp (getcmdlinefromroot p cfgname)"
  unfolding getcmdlinefromroot_def by (intro resp_intros)

lemma keeps_returnM [keeps_intros]: "keeps (returnM x)"
  by (simp add: keeps_def returnM_def out_state_def)

lemma keeps_errx [keeps_intros]: "keeps (errx e)"
  by (simp add: keeps_def errx_def out_state_def)

lemma keeps_warnx [keeps_intros]: "keeps (warnx w)"
  by (simp add: keeps_def warnx_def out_state_def)

lemma keeps_ext [keeps_intros]: "keeps (ext p c)"
  by (simp add: keeps_def ext_def Let_def out_state_def)

lemma keeps_bindM [keeps_intros]:
  assumes "keeps m" and "\<And>x. keeps (f x)"
  shows "keeps (bindM m f)"
  proof -
  have "rumprun_execs (out_state (bindM m f s)) = rumprun_execs s" for s
  proof (cases "m s")
    case (Inl a)
    then show ?thesis using assms(1) [unfolded keeps_def, rule_format, of s]
      by (simp add: bindM_def out_state_def)
  next
    case (Inr b)
    obtain x s1 where b: "b = (x, s1)" by (cases b)
    have "rumprun_execs s1 = rumprun_execs s"
      using assms(1) [unfolded keeps_def, rule_format, of s] Inr b by (simp add: out_state_def)
    moreover have "rumprun_execs (out_state (f x s1)) = rumprun_execs s1"
      using assms(2) by (simp add: keeps_def)
    ultimately show ?thesis using Inr b by (simp add: bindM_def)
  qed
  then show ?thesis by (simp add: keeps_def)
qed

lemma keeps_foreach [keeps_intros]:
  assumes "\<And>x. keeps (f x)"
  shows "keeps (foreach f xs)"
  by (induction xs) (simp_all add: keeps_returnM keeps_bindM assms)

lemma keeps_foldM [keeps_intros]:
  assumes "\<And>x a. keeps (f x a)"
  shows "keeps (foldM f xs a)"
proof (induction xs arbitrary: a)
  case Nil
  show ?case by (simp add: keeps_returnM)
next
  case (Cons x xs)
  show ?case by (simp add: keeps_bindM assms Cons)
qed

lemma keeps_if [keeps_intros]:
  "(b \<Longrightarrow> keeps m) \<Longrightarrow> (\<not> b \<Longrightarrow> keeps m') \<Longrightarrow> keeps (if b then m else m')"
  by simp

lemma keeps_case_option [keeps_intros]:
  "keeps a \<Longrightarrow> (\<And>y. keeps (b y)) \<Longrightarrow> keeps (case x of None \<Rightarrow> a | Some y \<Rightarrow> b y)"
  by (cases x) simp_all

lemma keeps_case_prod [keeps_intros]:
  "(\<And>a b. keeps (f a b)) \<Longrightarrow> keeps (case x of (a, b) \<Rightarrow> f a b)"
  by (cases x) simp

lemma keeps_case_list [keeps_intros]:
  "keeps a \<Longrightarrow> (\<And>y ys. keeps (b y ys)) \<Longrightarrow> keeps (case x of [] \<Rightarrow> a | y # ys \<Rightarrow> b y ys)"
  by (cases x) simp_all

lemma keeps_Let [keeps_intros]: "keeps (f x) \<Longrightarrow> keeps (Let x f)"
  by simp

lemma keeps_checked [keeps_intros]: "keeps (checked p c)"
  unfolding checked_def by (intro keeps_intros)

lemma keeps_rump_pub [keeps_intros]: "keeps (rump_pub p c)"
  unfolding rump_pub_def by (intro keeps_intros)

lemma keeps_jexpect [keeps_intros]: "keeps (jexpect t v loc)"
  unfolding jexpect_def by (intro keeps_intros)

lemma keeps_pass1 [keeps_intros]: "keeps (pass1 ps h loc)"
  unfolding pass1_def by (intro keeps_intros)

lemma keeps_pass2:
  assumes "\<And>hj i. hj \<in> set h \<Longrightarrow> keeps (handler hj i loc)"
  shows "keeps (pass2 ps h loc)"
  unfolding pass2_filter using assms
proof (induction h)
  case Nil
  show ?case by (simp add: keeps_returnM)
next
  case (Cons hj h)
  show ?case using Cons by (simp add: keeps_bindM keeps_foreach)
qed

lemma keeps_handle_object:
  assumes "\<And>hj i. hj \<in> set h \<Longrightarrow> keeps (handler hj i loc)"
  shows "keeps (handle_object v h loc)"
  unfolding handle_object_def
  by (intro keeps_bindM keeps_jexpect keeps_pass1 keeps_pass2 assms)

lemma keeps_sysctl_parse [keeps_intros]: "keeps (sysctl_parse v prefix loc)"
  unfolding sysctl_parse_def sysctl_check_def by (intro keeps_intros)

lemma keeps_handle_sysctl [keeps_intros]: "keeps (handle_sysctl p v loc)"
  unfolding handle_sysctl_def by (intro keeps_intros)

lemma keeps_handle_netbsd [keeps_intros]: "keeps (handle_netbsd p v loc)"
  unfolding handle_netbsd_def
  by (rule keeps_handle_object) (simp add: handlers_netbsd_def keeps_handle_sysctl)

lemma keeps_handle_env [keeps_intros]: "keeps (handle_env p v loc)"
  unfolding handle_env_def by (intro keeps_intros)

lemma keeps_config_ipv4 [keeps_intros]: "keeps (config_ipv4 p ifname method cidr)"
  unfolding config_ipv4_def by (intro keeps_intros)

lemma keeps_config_ipv6 [keeps_intros]: "keeps (config_ipv6 p ifname method cidr)"
  unfolding config_ipv6_def by (intro keeps_intros)

lemma keeps_handle_addr [keeps_intros]: "keeps (handle_addr p ifname a)"
  unfolding handle_addr_def handle_addr_key_def by (intro keeps_intros)

lemma keeps_handle_interface [keeps_intros]: "keeps (handle_interface p v loc)"
  unfolding handle_interface_def handle_interface_key_def by (intro keeps_intros)

lemma keeps_handle_interfaces [keeps_intros]: "keeps (handle_interfaces p v loc)"
  unfolding handle_interfaces_def by (intro keeps_intros)

lemma keeps_handle_gateways [keeps_intros]: "keeps (handle_gateways p v loc)"
  unfolding handle_gateways_def handle_gateway_def handle_gateway_key_def
  by (intro keeps_intros)

lemma keeps_dns_search [keeps_intros]: "keeps (dns_search xs acc)"
proof (induction xs acc rule: dns_search.induct)
  case (1 acc)
  show ?case by (simp add: keeps_returnM)
next
  case (2 i rest k buf maxlen)
  show ?case
    unfolding dns_search.simps Let_def by (intro keeps_intros 2) simp_all
qed

lemma keeps_handle_dns [keeps_intros]: "keeps (handle_dns p v loc)"
  unfolding handle_dns_def write_resolv_conf_def write_nameservers_def write_search_def
    handle_dns_key_def dns_nameserver_def
  by (intro keeps_intros)

lemma keeps_handle_net [keeps_intros]: "keeps (handle_net p v loc)"
  unfolding handle_net_def
  by (rule keeps_handle_object)
     (auto simp: handlers_net_def keeps_handle_interfaces keeps_handle_gateways keeps_handle_dns)

lemma keeps_configetfs [keeps_intros]: "keeps (configetfs p dev hostpath hard)"
  unfolding configetfs_def by (intro keeps_intros)

lemma keeps_getsM [keeps_intros]: "keeps (getsM g)"
  by (simp add: keeps_def getsM_def out_state_def)

lemma keeps_getvndmajor [keeps_intros]: "keeps (getvndmajor p israw)"
  unfolding getvndmajor_def by (intro keeps_intros)

lemma keeps_configvnd [keeps_intros]: "keeps (configvnd p dev path)"
  unfolding configvnd_def by (intro keeps_intros)

lemma keeps_handle_blk [keeps_intros]: "keeps (handle_blk p v loc)"
  unfolding handle_blk_def handle_blk_key_def by (intro keeps_intros)

lemma keeps_handle_blks [keeps_intros]: "keeps (handle_blks p v loc)"
  unfolding handle_blks_def by (intro keeps_intros)

lemma keeps_mount_blk [keeps_intros]: "keeps (mount_blk p dev mp options)"
  unfolding mount_blk_def by (intro keeps_intros)

lemma keeps_mount_kernfs [keeps_intros]: "keeps (mount_kernfs p dev mp options)"
  unfolding mount_kernfs_def by (intro keeps_intros)

lemma keeps_mount_tmpfs [keeps_intros]: "keeps (mount_tmpfs p dev mp options)"
  unfolding mount_tmpfs_def mount_tmpfs_key_def by (intro keeps_intros)

lemma keeps_mounters:
  "find P mounters = Some m \<Longrightarrow> keeps (snd m p dev mp options)"
  by (auto simp: mounters_def keeps_mount_blk keeps_mount_kernfs keeps_mount_tmpfs
      split: if_splits)

lemma keeps_mkdirhier [keeps_intros]: "keeps (mkdirhier p path)"
  unfolding mkdirhier_def by (intro keeps_intros)

lemma keeps_mount_dispatch:
  "keeps (case find P mounters of
           Some m \<Rightarrow> bindM (snd m p dev mp options) (\<lambda>ok. if \<not> ok then errx e else returnM ())
         | None \<Rightarrow> errx e')"
  by (cases "find P mounters") (auto intro!: keeps_intros keeps_mounters)

lemma keeps_handle_mount [keeps_intros]: "keeps (handle_mount p v loc)"
  unfolding handle_mount_def handle_mount_key_def by (intro keeps_intros keeps_mount_dispatch)

lemma keeps_handle_mounts [keeps_intros]: "keeps (handle_mounts p v loc)"
  unfolding handle_mounts_def by (intro keeps_intros)

lemma keeps_tryroot_loop [keeps_intros]: "keeps (tryroot_loop p rs)"
  by (induction rs) (auto intro!: keeps_intros)

lemma keeps_getcmdlinefromroot [keeps_intros]: "keeps (getcmdlinefromroot p cfgname)"
  unfolding getcmdlinefromroot_def by (intro keeps_intros)

section \<open>The scan of an rc element\<close>


lemma find_app:
  "find P (xs @ ys) = (case find P xs of None \<Rightarrow> find P ys | Some x \<Rightarrow> Some x)"
  by (induction xs) simp_all

lemma find_rev_Cons:
  "find P (rev (x # xs)) =
     (case find P (rev xs) of None \<Rightarrow> (if P x then Some x else None) | Some y \<Rightarrow> Some y)"
  by (simp add: find_app split: option.splits)

lemma jexpect_apply:
  "jexpect t v loc s =
     (if jd v \<noteq> t then Inl (Expected loc (jtypestr t) (jtypestr (jd v)), s) else Inr ((), s))"
  by (simp add: jexpect_def errx_def returnM_def)

lemma foreach_jexpect:
  "foreach (\<lambda>i. jexpect t i loc) xs s =
     (case find (\<lambda>i. jd i \<noteq> t) xs of
        None \<Rightarrow> Inr ((), s)
      | Some i \<Rightarrow> Inl (Expected loc (jtypestr t) (jtypestr (jd i)), s))"
  by (induction xs) (simp_all add: returnM_apply bindM_apply jexpect_apply)


lemma handle_bin_netbsd_step:
  assumes "handle_bin_netbsd j l s = Inr (l1, s1)"
  shows "s1 = s \<and> v_bin l1 = v_bin l \<and> v_argv l1 = v_argv l \<and> v_runmode l1 = v_runmode l
         \<and> v_workdir l1 = v_workdir l"
  using assms
  by (auto simp: handle_bin_netbsd_def bindM_apply jexpect_apply returnM_apply errx_apply
      split: if_splits)

lemma handle_bin_netbsd_fold:
  assumes "foldM handle_bin_netbsd js l s = Inr (l1, s1)"
  shows "s1 = s \<and> v_bin l1 = v_bin l \<and> v_argv l1 = v_argv l \<and> v_runmode l1 = v_runmode l
         \<and> v_workdir l1 = v_workdir l"
  using assms
proof (induction js arbitrary: l s)
  case Nil
  then show ?case by (simp add: returnM_apply)
next
  case (Cons j js)
  from Cons.prems obtain l2 s2 where
    a: "handle_bin_netbsd j l s = Inr (l2, s2)" and b: "foldM handle_bin_netbsd js l2 s2 = Inr (l1, s1)"
    by (auto simp: bindM_apply split: sum.splits)
  show ?case using handle_bin_netbsd_step [OF a] Cons.IH [OF b] by simp
qed

lemma handle_bin_key_step:
  assumes "handle_bin_key i l s = Inr (l1, s1)"
  shows "s1 = s
    \<and> v_bin l1 = (if jn i = ''bin'' then Some i else v_bin l)
    \<and> v_argv l1 = (if jn i = ''argv'' then Some i else v_argv l)
    \<and> v_runmode l1 = (if jn i = ''runmode'' then Some i else v_runmode l)
    \<and> v_workdir l1 = (if jn i = ''workdir'' then Some i else v_workdir l)"
proof (cases "jn i = ''netbsd''")
  case True
  then have "foldM handle_bin_netbsd (u_v i) l s = Inr (l1, s1)"
    using assms
    by (auto simp: handle_bin_key_def bindM_apply jexpect_apply split: if_splits)
  from handle_bin_netbsd_fold [OF this] show ?thesis using True by simp
next
  case False
  then show ?thesis using assms
    by (auto simp: handle_bin_key_def bindM_apply jexpect_apply returnM_apply errx_apply
        split: if_splits)
qed

lemma handle_bin_key_fold:
  assumes "foldM handle_bin_key ps l s = Inr (l1, s1)"
  shows "s1 = s
    \<and> v_bin l1 = (case find (\<lambda>i. jn i = ''bin'') (rev ps) of None \<Rightarrow> v_bin l | Some i \<Rightarrow> Some i)
    \<and> v_argv l1 = (case find (\<lambda>i. jn i = ''argv'') (rev ps) of None \<Rightarrow> v_argv l | Some i \<Rightarrow> Some i)
    \<and> v_runmode l1 = (case find (\<lambda>i. jn i = ''runmode'') (rev ps) of None \<Rightarrow> v_runmode l | Some i \<Rightarrow> Some i)
    \<and> v_workdir l1 = (case find (\<lambda>i. jn i = ''workdir'') (rev ps) of None \<Rightarrow> v_workdir l | Some i \<Rightarrow> Some i)"
  using assms
proof (induction ps arbitrary: l s)
  case Nil
  then show ?case by (simp add: returnM_apply)
next
  case (Cons i ps)
  from Cons.prems obtain l2 s2 where
    a: "handle_bin_key i l s = Inr (l2, s2)" and b: "foldM handle_bin_key ps l2 s2 = Inr (l1, s1)"
    by (auto simp: bindM_apply split: sum.splits)
  note st = handle_bin_key_step [OF a]
  note ih = Cons.IH [OF b]
  show ?case
    unfolding find_rev_Cons using st ih by (simp split: option.splits)
qed



lemma getmain_apply:
  "getmain p bn s =
     (if bn = ''*''
      then (case rumprun_bins p of [] \<Rightarrow> Inl (Null_deref, s) | b # _ \<Rightarrow> Inr (main b, s))
      else Inr ((case find (\<lambda>b. binname b = bn) (rumprun_bins p) of
                   Some b \<Rightarrow> main b | None \<Rightarrow> NULL), s))"
  by (simp add: getmain_def errx_apply returnM_apply split: list.splits)

lemma bin_argv_apply:
  "bin_argv l s =
     (case v_argv l of
        None \<Rightarrow> Inr ([], s)
      | Some a \<Rightarrow>
          (case find (\<lambda>i. jd i \<noteq> jstring) (u_v a) of
             None \<Rightarrow> Inr (map u_s (u_v a), s)
           | Some i \<Rightarrow> Inl (Expected ''handle_bin'' ''STRING'' (jtypestr (jd i)), s)))"
  by (simp add: bin_argv_def returnM_apply bindM_apply foreach_jexpect
      split: option.splits)

lemma bin_runmode_apply:
  "bin_runmode p l bn s =
     (case v_runmode l of
        None \<Rightarrow> Inr (0, s)
      | Some r \<Rightarrow>
          if u_s r = [] then Inr (0, s)
          else if u_s r = ''&'' then Inr (RUMPRUN_EXEC_BACKGROUND p, s)
          else if u_s r = ''|'' then Inr (RUMPRUN_EXEC_PIPE p, s)
          else Inl (Invalid_runmode (u_s r) bn, s))"
  by (simp add: bin_runmode_def returnM_apply errx_apply split: option.splits)

lemma bin_sysctl_pure: "bin_sysctl l s = Inr (sc, s1) \<Longrightarrow> s1 = s"
  by (auto simp: bin_sysctl_def returnM_apply sysctl_parse_result split: option.splits)

lemma handle_bin_success:
  assumes "handle_bin p v loc s = Inr (u, s')"
  shows "\<exists>b e. find (\<lambda>i. jn i = ''bin'') (rev (u_v v)) = Some b
     \<and> s' = s\<lparr>rumprun_execs := rumprun_execs s @ [e]\<rparr>
     \<and> getmain p (u_s b) s = Inr (rre_main e, s) \<and> rre_main e \<noteq> NULL
     \<and> rre_argv e =
         (case find (\<lambda>i. jn i = ''argv'') (rev (u_v v)) of
            None \<Rightarrow> [u_s b]
          | Some a \<Rightarrow> if u_v a = [] then [u_s b] else map u_s (u_v a))
     \<and> rre_argc e = length (rre_argv e)
     \<and> (case find (\<lambda>i. jn i = ''runmode'') (rev (u_v v)) of
          None \<Rightarrow> rre_flags e = 0
        | Some r \<Rightarrow> (u_s r = [] \<and> rre_flags e = 0)
                    \<or> (u_s r = ''&'' \<and> rre_flags e = RUMPRUN_EXEC_BACKGROUND p)
                    \<or> (u_s r = ''|'' \<and> rre_flags e = RUMPRUN_EXEC_PIPE p))
     \<and> rre_workdir e = map_option u_s (find (\<lambda>i. jn i = ''workdir'') (rev (u_v v)))"
proof -
  define l0 where "l0 = \<lparr>v_bin = None, v_argv = None, v_runmode = None, v_workdir = None,
               v_sysctl = None\<rparr>"
  define k where "k = (\<lambda>l. case v_bin l of
       None \<Rightarrow> errx Missing_bin
     | Some b \<Rightarrow>
         bindM (getmain p (u_s b)) (\<lambda>binmain.
         if binmain = NULL then errx (Unknown_bin (u_s b))
         else
           bindM (bin_argv l) (\<lambda>args.
           bindM (bin_runmode p l (u_s b)) (\<lambda>rreflags.
           bindM (bin_sysctl l) (\<lambda>sc.
           let argv = (if args \<noteq> [] then args else [u_s b])
           in TAILQ_INSERT_TAIL
                \<lparr>rre_flags = rreflags, rre_main = binmain, rre_argc = length argv,
                 rre_argv = argv, rre_workdir = map_option u_s (v_workdir l),
                 rre_sc = sc, rre_nsc = length sc\<rparr>)))))"
  have hb: "handle_bin p v loc = bindM (jexpect jobject v ''handle_bin'') (\<lambda>_.
     bindM (foldM handle_bin_key (u_v v) l0) k)"
    by (simp add: handle_bin_def l0_def k_def)
  from assms obtain l s1 where scan: "foldM handle_bin_key (u_v v) l0 s = Inr (l, s1)"
    and rest: "k l s1 = Inr (u, s')"
    unfolding hb by (auto simp: bindM_apply jexpect_apply split: if_splits sum.splits)
  note f = handle_bin_key_fold [OF scan]
  have s1: "s1 = s" using f by simp
  obtain b where b: "v_bin l = Some b"
    using rest by (cases "v_bin l") (auto simp: k_def errx_apply)
  obtain binmain where gm: "getmain p (u_s b) s = Inr (binmain, s)"
    using rest b s1
    by (auto simp: k_def bindM_apply getmain_apply split: if_splits list.splits sum.splits)
  have nn: "binmain \<noteq> NULL"
    using rest b s1 gm by (auto simp: k_def bindM_apply errx_apply split: if_splits)
  obtain args where ar: "bin_argv l s = Inr (args, s)"
    using rest b s1 gm nn
    by (auto simp: k_def bindM_apply bin_argv_apply split: option.splits sum.splits)
  obtain fl where rm: "bin_runmode p l (u_s b) s = Inr (fl, s)"
    using rest b s1 gm nn ar
    by (auto simp: k_def bindM_apply bin_runmode_apply split: option.splits sum.splits if_splits)
  obtain sc where sy: "bin_sysctl l s = Inr (sc, s)"
    using rest b s1 gm nn ar rm
    by (auto simp: k_def bindM_apply split: sum.splits dest: bin_sysctl_pure)
  define e where "e = \<lparr>rre_flags = fl, rre_main = binmain,
      rre_argc = length (if args \<noteq> [] then args else [u_s b]),
      rre_argv = (if args \<noteq> [] then args else [u_s b]),
      rre_workdir = map_option u_s (v_workdir l), rre_sc = sc, rre_nsc = length sc\<rparr>"
  have fin: "s' = s\<lparr>rumprun_execs := rumprun_execs s @ [e]\<rparr>"
    using rest b s1 gm nn ar rm sy
    by (simp add: k_def bindM_apply TAILQ_INSERT_TAIL_def e_def Let_def)
  have fb: "find (\<lambda>i. jn i = ''bin'') (rev (u_v v)) = Some b"
    using f b by (simp add: l0_def split: option.splits)
  have fa: "v_argv l = find (\<lambda>i. jn i = ''argv'') (rev (u_v v))"
    using f by (simp add: l0_def split: option.splits)
  have fr: "v_runmode l = find (\<lambda>i. jn i = ''runmode'') (rev (u_v v))"
    using f by (simp add: l0_def split: option.splits)
  have fw: "v_workdir l = find (\<lambda>i. jn i = ''workdir'') (rev (u_v v))"
    using f by (simp add: l0_def split: option.splits)
  have argv: "rre_argv e =
         (case find (\<lambda>i. jn i = ''argv'') (rev (u_v v)) of
            None \<Rightarrow> [u_s b]
          | Some a \<Rightarrow> if u_v a = [] then [u_s b] else map u_s (u_v a))"
    using ar fa by (auto simp: e_def bin_argv_apply split: option.splits)
  have flags: "(case find (\<lambda>i. jn i = ''runmode'') (rev (u_v v)) of
          None \<Rightarrow> rre_flags e = 0
        | Some r \<Rightarrow> (u_s r = [] \<and> rre_flags e = 0)
                    \<or> (u_s r = ''&'' \<and> rre_flags e = RUMPRUN_EXEC_BACKGROUND p)
                    \<or> (u_s r = ''|'' \<and> rre_flags e = RUMPRUN_EXEC_PIPE p))"
    using rm fr by (auto simp: e_def bin_runmode_apply split: option.splits if_splits)
  show ?thesis
    apply (rule exI [of _ b], rule exI [of _ e])
    using fb fin gm nn argv flags fw by (simp add: e_def)
qed



text \<open>A well-formed rc element is scanned to the end.\<close>

lemma handle_bin_netbsd_fold_ok:
  assumes "\<forall>j\<in>set js. jn j = ''sysctl'' \<and> jd j = jobject"
  shows "foldM handle_bin_netbsd js l s
           = Inr (l\<lparr>v_sysctl := (if js = [] then v_sysctl l else Some (last js))\<rparr>, s)"
  using assms
proof (induction js arbitrary: l)
  case Nil
  show ?case by (simp add: returnM_apply)
next
  case (Cons j js)
  have st: "handle_bin_netbsd j l s = Inr (l\<lparr>v_sysctl := Some j\<rparr>, s)"
    using Cons.prems by (simp add: handle_bin_netbsd_def bindM_apply jexpect_apply returnM_apply)
  have ih: "foldM handle_bin_netbsd js (l\<lparr>v_sysctl := Some j\<rparr>) s
           = Inr (l\<lparr>v_sysctl := Some j\<rparr>\<lparr>v_sysctl :=
                (if js = [] then v_sysctl (l\<lparr>v_sysctl := Some j\<rparr>) else Some (last js))\<rparr>, s)"
    by (rule Cons.IH) (use Cons.prems in simp)
  show ?case by (simp add: bindM_apply st ih)
qed

lemma handle_bin_key_fold_ok:
  assumes "\<forall>i\<in>set ps. (jn i = ''bin'' \<and> jd i = jstring) \<or> (jn i = ''argv'' \<and> jd i = jarray)
            \<or> (jn i = ''runmode'' \<and> jd i = jstring) \<or> (jn i = ''workdir'' \<and> jd i = jstring)
            \<or> (jn i = ''netbsd'' \<and> jd i = jobject
                \<and> (\<forall>j\<in>set (u_v i). jn j = ''sysctl'' \<and> jd j = jobject))"
  shows "\<exists>l1. foldM handle_bin_key ps l s = Inr (l1, s)
           \<and> v_sysctl l1 =
               (if concat (map u_v (filter (\<lambda>i. jn i = ''netbsd'') ps)) = [] then v_sysctl l
                else Some (last (concat (map u_v (filter (\<lambda>i. jn i = ''netbsd'') ps)))))"
  using assms
proof (induction ps arbitrary: l)
  case Nil
  show ?case by (simp add: returnM_apply)
next
  case (Cons i ps)
  define js where "js = concat (map u_v (filter (\<lambda>i. jn i = ''netbsd'') ps))"
  have wi: "(jn i = ''bin'' \<and> jd i = jstring) \<or> (jn i = ''argv'' \<and> jd i = jarray)
            \<or> (jn i = ''runmode'' \<and> jd i = jstring) \<or> (jn i = ''workdir'' \<and> jd i = jstring)
            \<or> (jn i = ''netbsd'' \<and> jd i = jobject
                \<and> (\<forall>j\<in>set (u_v i). jn j = ''sysctl'' \<and> jd j = jobject))"
    using Cons.prems by simp
  have "\<exists>l2. handle_bin_key i l s = Inr (l2, s)
          \<and> v_sysctl l2 = (if jn i = ''netbsd'' \<and> u_v i \<noteq> [] then Some (last (u_v i))
                            else v_sysctl l)"
  proof (cases "jn i = ''netbsd''")
    case True
    with wi have o: "jd i = jobject" and c: "\<forall>j\<in>set (u_v i). jn j = ''sysctl'' \<and> jd j = jobject"
      by auto
    show ?thesis
      using True o handle_bin_netbsd_fold_ok [OF c, of l s]
      by (simp add: handle_bin_key_def bindM_apply jexpect_apply)
  next
    case False
    with wi show ?thesis
      by (auto simp: handle_bin_key_def bindM_apply jexpect_apply returnM_apply)
  qed
  then obtain l2 where st: "handle_bin_key i l s = Inr (l2, s)"
    and sc2: "v_sysctl l2 = (if jn i = ''netbsd'' \<and> u_v i \<noteq> [] then Some (last (u_v i))
                            else v_sysctl l)"
    by blast
  from Cons.IH [of l2] Cons.prems obtain l1 where
    f: "foldM handle_bin_key ps l2 s = Inr (l1, s)"
    and sc1: "v_sysctl l1 = (if js = [] then v_sysctl l2 else Some (last js))"
    unfolding js_def by auto
  have cc: "concat (map u_v (filter (\<lambda>i. jn i = ''netbsd'') (i # ps)))
              = (if jn i = ''netbsd'' then u_v i else []) @ js"
    by (simp add: js_def)
  have "v_sysctl l1 =
      (if (if jn i = ''netbsd'' then u_v i else []) @ js = [] then v_sysctl l
       else Some (last ((if jn i = ''netbsd'' then u_v i else []) @ js)))"
    using sc1 sc2 by simp
  then show ?case unfolding cc using st f by (simp add: bindM_apply)
qed

text \<open>
  A well-formed rc element whose program is known is accepted, and the entry appended is
  made of the last occurrence of each key.
\<close>

lemma handle_bin_accepts:
  assumes obj: "jd v = jobject"
    and wf: "\<forall>i\<in>set (u_v v). (jn i = ''bin'' \<and> jd i = jstring) \<or> (jn i = ''argv'' \<and> jd i = jarray)
            \<or> (jn i = ''runmode'' \<and> jd i = jstring) \<or> (jn i = ''workdir'' \<and> jd i = jstring)
            \<or> (jn i = ''netbsd'' \<and> jd i = jobject
                \<and> (\<forall>j\<in>set (u_v i). jn j = ''sysctl'' \<and> jd j = jobject))"
    and bin: "find (\<lambda>i. jn i = ''bin'') (rev (u_v v)) = Some b"
    and gm: "getmain p (u_s b) s = Inr (m, s)" and nn: "m \<noteq> NULL"
    and av: "\<forall>a. find (\<lambda>i. jn i = ''argv'') (rev (u_v v)) = Some a \<longrightarrow>
               (\<forall>i\<in>set (u_v a). jd i = jstring)"
    and rm: "\<forall>r. find (\<lambda>i. jn i = ''runmode'') (rev (u_v v)) = Some r \<longrightarrow>
               u_s r = [] \<or> u_s r = ''&'' \<or> u_s r = ''|''"
    and sy: "concat (map u_v (filter (\<lambda>i. jn i = ''netbsd'') (u_v v))) \<noteq> [] \<longrightarrow>
               (\<forall>k\<in>set (u_v (last (concat (map u_v (filter (\<lambda>i. jn i = ''netbsd'') (u_v v)))))).
                  jd k = jtrue \<or> jd k = jfalse \<or> jd k = jstring \<or> jd k = jnumber)"
  shows "handle_bin p v loc s =
     Inr ((), s\<lparr>rumprun_execs := rumprun_execs s @
       [\<lparr>rre_flags =
           (case find (\<lambda>i. jn i = ''runmode'') (rev (u_v v)) of
              None \<Rightarrow> 0
            | Some r \<Rightarrow> if u_s r = [] then 0
                        else if u_s r = ''&'' then RUMPRUN_EXEC_BACKGROUND p
                        else RUMPRUN_EXEC_PIPE p),
         rre_main = m,
         rre_argc = length
           (case find (\<lambda>i. jn i = ''argv'') (rev (u_v v)) of
              None \<Rightarrow> [u_s b]
            | Some a \<Rightarrow> if u_v a = [] then [u_s b] else map u_s (u_v a)),
         rre_argv =
           (case find (\<lambda>i. jn i = ''argv'') (rev (u_v v)) of
              None \<Rightarrow> [u_s b]
            | Some a \<Rightarrow> if u_v a = [] then [u_s b] else map u_s (u_v a)),
         rre_workdir = map_option u_s (find (\<lambda>i. jn i = ''workdir'') (rev (u_v v))),
         rre_sc =
           (if concat (map u_v (filter (\<lambda>i. jn i = ''netbsd'') (u_v v))) = [] then []
            else map (sysctl_entry (Some ''proc.curproc''))
                   (u_v (last (concat (map u_v (filter (\<lambda>i. jn i = ''netbsd'') (u_v v))))))),
         rre_nsc = length
           (if concat (map u_v (filter (\<lambda>i. jn i = ''netbsd'') (u_v v))) = [] then []
            else map (sysctl_entry (Some ''proc.curproc''))
                   (u_v (last (concat (map u_v (filter (\<lambda>i. jn i = ''netbsd'') (u_v v)))))))\<rparr>]\<rparr>)"
proof -
  define l0 where "l0 = \<lparr>v_bin = None, v_argv = None, v_runmode = None, v_workdir = None,
               v_sysctl = None\<rparr>"
  define js where "js = concat (map u_v (filter (\<lambda>i. jn i = ''netbsd'') (u_v v)))"
  from handle_bin_key_fold_ok [OF wf, of l0 s] obtain l where
    scan: "foldM handle_bin_key (u_v v) l0 s = Inr (l, s)"
    and vs: "v_sysctl l = (if js = [] then None else Some (last js))"
    unfolding js_def l0_def by auto
  note f = handle_bin_key_fold [OF scan]
  have vb: "v_bin l = Some b" using f bin by (simp add: l0_def)
  have va: "v_argv l = find (\<lambda>i. jn i = ''argv'') (rev (u_v v))"
    using f by (simp add: l0_def split: option.splits)
  have vr: "v_runmode l = find (\<lambda>i. jn i = ''runmode'') (rev (u_v v))"
    using f by (simp add: l0_def split: option.splits)
  have vw: "v_workdir l = find (\<lambda>i. jn i = ''workdir'') (rev (u_v v))"
    using f by (simp add: l0_def split: option.splits)
  have ar: "bin_argv l s =
      Inr ((case find (\<lambda>i. jn i = ''argv'') (rev (u_v v)) of
              None \<Rightarrow> [] | Some a \<Rightarrow> map u_s (u_v a)), s)"
  proof (cases "find (\<lambda>i. jn i = ''argv'') (rev (u_v v))")
    case None
    then show ?thesis by (simp add: bin_argv_apply va)
  next
    case (Some a)
    with av have "\<forall>i\<in>set (u_v a). jd i = jstring" by simp
    then have "find (\<lambda>i. jd i \<noteq> jstring) (u_v a) = None" by (simp add: find_None_iff2)
    then show ?thesis using Some by (simp add: bin_argv_apply va)
  qed
  have fl: "bin_runmode p l (u_s b) s =
      Inr ((case find (\<lambda>i. jn i = ''runmode'') (rev (u_v v)) of
              None \<Rightarrow> 0
            | Some r \<Rightarrow> if u_s r = [] then 0
                        else if u_s r = ''&'' then RUMPRUN_EXEC_BACKGROUND p
                        else RUMPRUN_EXEC_PIPE p), s)"
  proof (cases "find (\<lambda>i. jn i = ''runmode'') (rev (u_v v))")
    case None
    then show ?thesis by (simp add: bin_runmode_apply vr)
  next
    case (Some r)
    with rm have "u_s r = [] \<or> u_s r = ''&'' \<or> u_s r = ''|''" by simp
    then show ?thesis using Some by (auto simp: bin_runmode_apply vr)
  qed
  have sc: "bin_sysctl l s =
      Inr ((if js = [] then []
            else map (sysctl_entry (Some ''proc.curproc'')) (u_v (last js))), s)"
  proof (cases "js = []")
    case True
    then show ?thesis by (simp add: bin_sysctl_def vs returnM_apply)
  next
    case False
    with sy have "\<forall>k\<in>set (u_v (last js)).
                  jd k = jtrue \<or> jd k = jfalse \<or> jd k = jstring \<or> jd k = jnumber"
      by (simp add: js_def)
    then have "find (\<lambda>i. jd i \<noteq> jtrue \<and> jd i \<noteq> jfalse \<and> jd i \<noteq> jstring \<and> jd i \<noteq> jnumber)
                 (u_v (last js)) = None"
      by (auto simp: find_None_iff2)
    then show ?thesis using False by (simp add: bin_sysctl_def vs sysctl_parse_result)
  qed
  have e: "(case find (\<lambda>i. jn i = ''argv'') (rev (u_v v)) of
              None \<Rightarrow> [u_s b]
            | Some a \<Rightarrow> if u_v a = [] then [u_s b] else map u_s (u_v a))
         = (if (case find (\<lambda>i. jn i = ''argv'') (rev (u_v v)) of
              None \<Rightarrow> [] | Some a \<Rightarrow> map u_s (u_v a)) \<noteq> []
            then (case find (\<lambda>i. jn i = ''argv'') (rev (u_v v)) of
              None \<Rightarrow> [] | Some a \<Rightarrow> map u_s (u_v a)) else [u_s b])"
    by (simp split: option.splits)
  show ?thesis
    unfolding js_def [symmetric] e
    using obj scan vb gm nn ar fl sc vw
    by (simp add: handle_bin_def l0_def [symmetric] bindM_apply jexpect_apply
        TAILQ_INSERT_TAIL_def Let_def)
qed


section \<open>Evaluating the samples\<close>


lemma plat0_simps:
  "rumprun_bins plat0 = [\<lparr>binname = ''foo'', main = 1\<rparr>, \<lparr>binname = ''bar'', main = 2\<rparr>]"
  "RUMPRUN_EXEC_BACKGROUND plat0 = 1"
  "RUMPRUN_EXEC_PIPE plat0 = 2"
  "respond plat0 h c = (0, 0)"
  "dehumanize_number plat0 txt = Some 1048576"
  "jparse plat0 txt = None"
  "malloc_junk plat0 = \<lparr>rre_flags = 0, rre_main = 0, rre_argc = 0, rre_argv = [],
                     rre_workdir = None, rre_sc = [], rre_nsc = 0\<rparr>"
  by (simp_all add: plat0_def)

lemmas run_simps = bindM_apply returnM_apply errx_apply jexpect_apply warnx_def ext_def
  checked_def rump_pub_def getsM_def TAILQ_INSERT_TAIL_def Let_def


section \<open>The schema dispatcher and the tunables\<close>

text \<open>
  C9. An object given to \<open>handle_object\<close> is handled as follows: pass 1 prints one
  warning for every pair whose name is in no entry of the table, in the order of the
  pairs, changes nothing else in the state and never ends the run; pass 2 then calls, for
  each entry of the table in turn, its handler on every pair with the entry's name.
\<close>

theorem handle_object_unknown_keys:
  assumes "jd v = jobject"
  shows "pass1 (u_v v) h loc s =
           Inr ((), s\<lparr>warnings := warnings s @ map (\<lambda>i. No_match loc (jn i))
                   (filter (\<lambda>i. \<forall>hj\<in>set h. jn i \<noteq> name hj) (u_v v))\<rparr>)
       \<and> handle_object v h loc s =
           foreach (\<lambda>hj. foreach (\<lambda>i. handler hj i loc)
                            (filter (\<lambda>i. jn i = name hj) (u_v v))) h
             (s\<lparr>warnings := warnings s @ map (\<lambda>i. No_match loc (jn i))
                   (filter (\<lambda>i. \<forall>hj\<in>set h. jn i \<noteq> name hj) (u_v v))\<rparr>)"
  using assms
  by (simp add: handle_object_def jexpect_def bindM_apply pass1_result pass2_filter)

theorem handle_object_unknown_keys_witness:
  "jd (jobj [] [jstr ''bogus'' ''x'', jobj ''env'' [jstr ''A'' ''1'']]) = jobject
   \<and> pass1 (u_v (jobj [] [jstr ''bogus'' ''x'', jobj ''env'' [jstr ''A'' ''1'']]))
        (handlers_root plat0) ''rumprun_config'' sys0
      = Inr ((), \<lparr>rumprun_execs = [], trace = [],
                  warnings = [No_match ''rumprun_config'' ''bogus'']\<rparr>)
   \<and> handle_object (jobj [] [jstr ''bogus'' ''x'', jobj ''env'' [jstr ''A'' ''1'']])
        (handlers_root plat0) ''rumprun_config'' sys0
      = Inr ((), \<lparr>rumprun_execs = [], trace = [(Setenv ''A'' ''1'', (0, 0))],
                  warnings = [No_match ''rumprun_config'' ''bogus'']\<rparr>)"
proof -
  let ?doc = "jobj [] [jstr ''bogus'' ''x'', jobj ''env'' [jstr ''A'' ''1'']]"
  have h: "jd ?doc = jobject" by (simp add: jobj_def)
  note t = handle_object_unknown_keys [OF h, of "handlers_root plat0" "''rumprun_config''" sys0]
  have a: "pass1 (u_v ?doc) (handlers_root plat0) ''rumprun_config'' sys0
      = Inr ((), \<lparr>rumprun_execs = [], trace = [],
                  warnings = [No_match ''rumprun_config'' ''bogus'']\<rparr>)"
    unfolding conjunct1 [OF t]
    by (simp add: jobj_def jstr_def handlers_root_def sys0_def)
  have b: "handle_object ?doc (handlers_root plat0) ''rumprun_config'' sys0
      = Inr ((), \<lparr>rumprun_execs = [], trace = [(Setenv ''A'' ''1'', (0, 0))],
                  warnings = [No_match ''rumprun_config'' ''bogus'']\<rparr>)"
    unfolding conjunct2 [OF t]
    by (simp add: jobj_def jstr_def handlers_root_def handle_env_def sys0_def plat0_simps
        run_simps)
  show ?thesis by (intro conjI h a b)
qed

text \<open>
  C3. \<open>sysctl_parse\<close> accepts the values tagged boolean, string or number and is fatal
  on any other: when every value is one of these it yields one assignment per pair, in the
  order of the pairs, with value \<open>1\<close> for true, \<open>0\<close> for false and the text of the node
  otherwise, and with the key behind the prefix and a dot when a prefix is given.
\<close>

theorem sysctl_parse_kinds:
  "((\<forall>i\<in>set (u_v v). jd i = jtrue \<or> jd i = jfalse \<or> jd i = jstring \<or> jd i = jnumber) \<longrightarrow>
      sysctl_parse v prefix loc s =
        Inr (map (\<lambda>i. \<lparr>sc_key = (case prefix of Some pre \<Rightarrow> pre @ ''.'' @ jn i
                                   | None \<Rightarrow> jn i),
                       sc_value = (if jd i = jtrue then ''1''
                                   else if jd i = jfalse then ''0'' else u_s i)\<rparr>)
               (u_v v), s))
   \<and> ((\<exists>i\<in>set (u_v v). jd i \<noteq> jtrue \<and> jd i \<noteq> jfalse \<and> jd i \<noteq> jstring \<and> jd i \<noteq> jnumber) \<longrightarrow>
      (\<exists>k. sysctl_parse v prefix loc s = Inl (Invalid_type k ''sysctl_parse'', s)))"
proof (cases "find (\<lambda>i. jd i \<noteq> jtrue \<and> jd i \<noteq> jfalse \<and> jd i \<noteq> jstring \<and> jd i \<noteq> jnumber) (u_v v)")
  case None
  then have ok: "\<forall>i\<in>set (u_v v). jd i = jtrue \<or> jd i = jfalse \<or> jd i = jstring \<or> jd i = jnumber"
    unfolding find_None_iff2 by blast
  have "map (sysctl_entry prefix) (u_v v) =
        map (\<lambda>i. \<lparr>sc_key = (case prefix of Some pre \<Rightarrow> pre @ ''.'' @ jn i | None \<Rightarrow> jn i),
                  sc_value = (if jd i = jtrue then ''1''
                              else if jd i = jfalse then ''0'' else u_s i)\<rparr>) (u_v v)"
    by (simp add: sysctl_entry_def)
  then show ?thesis using None ok by (auto simp: sysctl_parse_result)
next
  case (Some i)
  then have "\<not> (\<forall>i\<in>set (u_v v). jd i = jtrue \<or> jd i = jfalse \<or> jd i = jstring \<or> jd i = jnumber)"
    using find_None_iff2 [of "\<lambda>i. jd i \<noteq> jtrue \<and> jd i \<noteq> jfalse \<and> jd i \<noteq> jstring \<and> jd i \<noteq> jnumber" "u_v v"]
    by auto
  then show ?thesis using Some by (auto simp: sysctl_parse_result)
qed

theorem sysctl_parse_kinds_witness:
  "sysctl_parse (jobj ''sysctl'' [jstr ''a'' ''1'', jbool ''b'' True]) None ''handle_sysctl'' sys0
     = Inr ([\<lparr>sc_key = ''a'', sc_value = ''1''\<rparr>, \<lparr>sc_key = ''b'', sc_value = ''1''\<rparr>], sys0)
   \<and> sysctl_parse (jobj ''sysctl'' [jbool ''f'' False, jnum ''n'' ''7'']) (Some ''proc.curproc'')
        ''handle_bin'' sys0
     = Inr ([\<lparr>sc_key = ''proc.curproc.f'', sc_value = ''0''\<rparr>,
             \<lparr>sc_key = ''proc.curproc.n'', sc_value = ''7''\<rparr>], sys0)
   \<and> (\<exists>k. sysctl_parse (jobj ''sysctl'' [jstr ''a'' ''1'', jarr ''b'' []]) None ''handle_sysctl'' sys0
          = Inl (Invalid_type k ''sysctl_parse'', sys0))"
  using sysctl_parse_kinds [of "jobj ''sysctl'' [jstr ''a'' ''1'', jbool ''b'' True]" None
          "''handle_sysctl''" sys0]
        sysctl_parse_kinds [of "jobj ''sysctl'' [jbool ''f'' False, jnum ''n'' ''7'']"
          "Some ''proc.curproc''" "''handle_bin''" sys0]
        sysctl_parse_kinds [of "jobj ''sysctl'' [jstr ''a'' ''1'', jarr ''b'' []]" None
          "''handle_sysctl''" sys0]
  by (simp add: jobj_def jstr_def jbool_def jnum_def jarr_def)

theorem sysctl_parse_number_counterexample:
  "jd (jnum ''a'' ''5'') \<noteq> jtrue \<and> jd (jnum ''a'' ''5'') \<noteq> jfalse
   \<and> jd (jnum ''a'' ''5'') \<noteq> jstring
   \<and> sysctl_parse (jobj ''sysctl'' [jnum ''a'' ''5'']) None ''handle_sysctl'' sys0
       = Inr ([\<lparr>sc_key = ''a'', sc_value = ''5''\<rparr>], sys0)"
  by (simp add: jnum_def jobj_def sysctl_parse_result sysctl_entry_def)



section \<open>The boot plan builder\<close>


text \<open>
  C5. An rc element that is well formed (an object whose pairs are \<open>bin\<close>, \<open>runmode\<close>
  and \<open>workdir\<close> strings, \<open>argv\<close> arrays of strings and \<open>netbsd\<close> objects of
  \<open>sysctl\<close> objects with values of the kinds of tunables), whose program is known and
  whose \<open>runmode\<close> is absent, empty, \<open>&\<close> or \<open>|\<close>, is accepted: \<open>handle_bin\<close> appends
  one entry to the boot plan. The entry's argument vector is the single value of \<open>bin\<close>
  when the element has no \<open>argv\<close> or an empty one, and otherwise the strings of \<open>argv\<close>
  in order; its flags are 0 (foreground) when \<open>runmode\<close> is absent or empty, the
  background flag for \<open>&\<close> and the pipe flag for \<open>|\<close>. Every accepted element has such
  an entry, and an element whose \<open>runmode\<close> is any other string is fatal. Where a name
  occurs twice in the element, the last occurrence counts.
\<close>

theorem handle_bin_argv_runmode:
  "(\<forall>b m. jd v = jobject
        \<and> (\<forall>i\<in>set (u_v v). (jn i = ''bin'' \<and> jd i = jstring) \<or> (jn i = ''argv'' \<and> jd i = jarray)
              \<or> (jn i = ''runmode'' \<and> jd i = jstring) \<or> (jn i = ''workdir'' \<and> jd i = jstring)
              \<or> (jn i = ''netbsd'' \<and> jd i = jobject
                  \<and> (\<forall>j\<in>set (u_v i). jn j = ''sysctl'' \<and> jd j = jobject)))
        \<and> find (\<lambda>i. jn i = ''bin'') (rev (u_v v)) = Some b
        \<and> getmain p (u_s b) s = Inr (m, s) \<and> m \<noteq> NULL
        \<and> (\<forall>a. find (\<lambda>i. jn i = ''argv'') (rev (u_v v)) = Some a \<longrightarrow>
               (\<forall>i\<in>set (u_v a). jd i = jstring))
        \<and> (\<forall>r. find (\<lambda>i. jn i = ''runmode'') (rev (u_v v)) = Some r \<longrightarrow>
               u_s r = [] \<or> u_s r = ''&'' \<or> u_s r = ''|'')
        \<and> (concat (map u_v (filter (\<lambda>i. jn i = ''netbsd'') (u_v v))) \<noteq> [] \<longrightarrow>
               (\<forall>k\<in>set (u_v (last (concat (map u_v (filter (\<lambda>i. jn i = ''netbsd'') (u_v v)))))).
                  jd k = jtrue \<or> jd k = jfalse \<or> jd k = jstring \<or> jd k = jnumber)) \<longrightarrow>
        handle_bin p v loc s =
          Inr ((), s\<lparr>rumprun_execs := rumprun_execs s @
            [\<lparr>rre_flags =
                (case find (\<lambda>i. jn i = ''runmode'') (rev (u_v v)) of
                   None \<Rightarrow> 0
                 | Some r \<Rightarrow> if u_s r = [] then 0
                             else if u_s r = ''&'' then RUMPRUN_EXEC_BACKGROUND p
                             else RUMPRUN_EXEC_PIPE p),
              rre_main = m,
              rre_argc = length
                (case find (\<lambda>i. jn i = ''argv'') (rev (u_v v)) of
                   None \<Rightarrow> [u_s b]
                 | Some a \<Rightarrow> if u_v a = [] then [u_s b] else map u_s (u_v a)),
              rre_argv =
                (case find (\<lambda>i. jn i = ''argv'') (rev (u_v v)) of
                   None \<Rightarrow> [u_s b]
                 | Some a \<Rightarrow> if u_v a = [] then [u_s b] else map u_s (u_v a)),
              rre_workdir = map_option u_s (find (\<lambda>i. jn i = ''workdir'') (rev (u_v v))),
              rre_sc =
                (if concat (map u_v (filter (\<lambda>i. jn i = ''netbsd'') (u_v v))) = [] then []
                 else map (sysctl_entry (Some ''proc.curproc''))
                        (u_v (last (concat (map u_v (filter (\<lambda>i. jn i = ''netbsd'') (u_v v))))))),
              rre_nsc = length
                (if concat (map u_v (filter (\<lambda>i. jn i = ''netbsd'') (u_v v))) = [] then []
                 else map (sysctl_entry (Some ''proc.curproc''))
                        (u_v (last (concat (map u_v (filter (\<lambda>i. jn i = ''netbsd'') (u_v v)))))))\<rparr>]\<rparr>))
   \<and> (\<forall>u s'. handle_bin p v loc s = Inr (u, s') \<longrightarrow>
      (\<exists>b e. find (\<lambda>i. jn i = ''bin'') (rev (u_v v)) = Some b
         \<and> s' = s\<lparr>rumprun_execs := rumprun_execs s @ [e]\<rparr>
         \<and> rre_argv e =
             (case find (\<lambda>i. jn i = ''argv'') (rev (u_v v)) of
                None \<Rightarrow> [u_s b]
              | Some a \<Rightarrow> if u_v a = [] then [u_s b] else map u_s (u_v a))
         \<and> rre_argc e = length (rre_argv e)
         \<and> rre_flags e =
             (case find (\<lambda>i. jn i = ''runmode'') (rev (u_v v)) of
                None \<Rightarrow> 0
              | Some r \<Rightarrow> if u_s r = [] then 0
                          else if u_s r = ''&'' then RUMPRUN_EXEC_BACKGROUND p
                          else RUMPRUN_EXEC_PIPE p)))
   \<and> (\<forall>r. find (\<lambda>i. jn i = ''runmode'') (rev (u_v v)) = Some r
          \<and> u_s r \<noteq> [] \<and> u_s r \<noteq> ''&'' \<and> u_s r \<noteq> ''|'' \<longrightarrow>
        (\<exists>e s1. handle_bin p v loc s = Inl (e, s1)))"
proof (intro conjI allI impI)
  fix b m
  assume h: "jd v = jobject
        \<and> (\<forall>i\<in>set (u_v v). (jn i = ''bin'' \<and> jd i = jstring) \<or> (jn i = ''argv'' \<and> jd i = jarray)
              \<or> (jn i = ''runmode'' \<and> jd i = jstring) \<or> (jn i = ''workdir'' \<and> jd i = jstring)
              \<or> (jn i = ''netbsd'' \<and> jd i = jobject
                  \<and> (\<forall>j\<in>set (u_v i). jn j = ''sysctl'' \<and> jd j = jobject)))
        \<and> find (\<lambda>i. jn i = ''bin'') (rev (u_v v)) = Some b
        \<and> getmain p (u_s b) s = Inr (m, s) \<and> m \<noteq> NULL
        \<and> (\<forall>a. find (\<lambda>i. jn i = ''argv'') (rev (u_v v)) = Some a \<longrightarrow>
               (\<forall>i\<in>set (u_v a). jd i = jstring))
        \<and> (\<forall>r. find (\<lambda>i. jn i = ''runmode'') (rev (u_v v)) = Some r \<longrightarrow>
               u_s r = [] \<or> u_s r = ''&'' \<or> u_s r = ''|'')
        \<and> (concat (map u_v (filter (\<lambda>i. jn i = ''netbsd'') (u_v v))) \<noteq> [] \<longrightarrow>
               (\<forall>k\<in>set (u_v (last (concat (map u_v (filter (\<lambda>i. jn i = ''netbsd'') (u_v v)))))).
                  jd k = jtrue \<or> jd k = jfalse \<or> jd k = jstring \<or> jd k = jnumber))"
  then have obj: "jd v = jobject"
    and wf: "\<forall>i\<in>set (u_v v). (jn i = ''bin'' \<and> jd i = jstring) \<or> (jn i = ''argv'' \<and> jd i = jarray)
              \<or> (jn i = ''runmode'' \<and> jd i = jstring) \<or> (jn i = ''workdir'' \<and> jd i = jstring)
              \<or> (jn i = ''netbsd'' \<and> jd i = jobject
                  \<and> (\<forall>j\<in>set (u_v i). jn j = ''sysctl'' \<and> jd j = jobject))"
    and bin: "find (\<lambda>i. jn i = ''bin'') (rev (u_v v)) = Some b"
    and gm: "getmain p (u_s b) s = Inr (m, s)" and nn: "m \<noteq> NULL"
    and av: "\<forall>a. find (\<lambda>i. jn i = ''argv'') (rev (u_v v)) = Some a \<longrightarrow>
               (\<forall>i\<in>set (u_v a). jd i = jstring)"
    and rm: "\<forall>r. find (\<lambda>i. jn i = ''runmode'') (rev (u_v v)) = Some r \<longrightarrow>
               u_s r = [] \<or> u_s r = ''&'' \<or> u_s r = ''|''"
    and sy: "concat (map u_v (filter (\<lambda>i. jn i = ''netbsd'') (u_v v))) \<noteq> [] \<longrightarrow>
               (\<forall>k\<in>set (u_v (last (concat (map u_v (filter (\<lambda>i. jn i = ''netbsd'') (u_v v)))))).
                  jd k = jtrue \<or> jd k = jfalse \<or> jd k = jstring \<or> jd k = jnumber)"
    by blast+
  show "handle_bin p v loc s =
          Inr ((), s\<lparr>rumprun_execs := rumprun_execs s @
            [\<lparr>rre_flags =
                (case find (\<lambda>i. jn i = ''runmode'') (rev (u_v v)) of
                   None \<Rightarrow> 0
                 | Some r \<Rightarrow> if u_s r = [] then 0
                             else if u_s r = ''&'' then RUMPRUN_EXEC_BACKGROUND p
                             else RUMPRUN_EXEC_PIPE p),
              rre_main = m,
              rre_argc = length
                (case find (\<lambda>i. jn i = ''argv'') (rev (u_v v)) of
                   None \<Rightarrow> [u_s b]
                 | Some a \<Rightarrow> if u_v a = [] then [u_s b] else map u_s (u_v a)),
              rre_argv =
                (case find (\<lambda>i. jn i = ''argv'') (rev (u_v v)) of
                   None \<Rightarrow> [u_s b]
                 | Some a \<Rightarrow> if u_v a = [] then [u_s b] else map u_s (u_v a)),
              rre_workdir = map_option u_s (find (\<lambda>i. jn i = ''workdir'') (rev (u_v v))),
              rre_sc =
                (if concat (map u_v (filter (\<lambda>i. jn i = ''netbsd'') (u_v v))) = [] then []
                 else map (sysctl_entry (Some ''proc.curproc''))
                        (u_v (last (concat (map u_v (filter (\<lambda>i. jn i = ''netbsd'') (u_v v))))))),
              rre_nsc = length
                (if concat (map u_v (filter (\<lambda>i. jn i = ''netbsd'') (u_v v))) = [] then []
                 else map (sysctl_entry (Some ''proc.curproc''))
                        (u_v (last (concat (map u_v (filter (\<lambda>i. jn i = ''netbsd'') (u_v v)))))))\<rparr>]\<rparr>)"
    by (rule handle_bin_accepts [OF obj wf bin gm nn av rm sy])
next
  fix u s'
  assume ok: "handle_bin p v loc s = Inr (u, s')"
  from handle_bin_success [OF ok] obtain b e where
    be: "find (\<lambda>i. jn i = ''bin'') (rev (u_v v)) = Some b"
        "s' = s\<lparr>rumprun_execs := rumprun_execs s @ [e]\<rparr>"
        "rre_argv e =
         (case find (\<lambda>i. jn i = ''argv'') (rev (u_v v)) of
            None \<Rightarrow> [u_s b]
          | Some a \<Rightarrow> if u_v a = [] then [u_s b] else map u_s (u_v a))"
        "rre_argc e = length (rre_argv e)"
        "(case find (\<lambda>i. jn i = ''runmode'') (rev (u_v v)) of
          None \<Rightarrow> rre_flags e = 0
        | Some r \<Rightarrow> (u_s r = [] \<and> rre_flags e = 0)
                    \<or> (u_s r = ''&'' \<and> rre_flags e = RUMPRUN_EXEC_BACKGROUND p)
                    \<or> (u_s r = ''|'' \<and> rre_flags e = RUMPRUN_EXEC_PIPE p))"
    by blast
  have fl: "rre_flags e =
             (case find (\<lambda>i. jn i = ''runmode'') (rev (u_v v)) of
                None \<Rightarrow> 0
              | Some r \<Rightarrow> if u_s r = [] then 0
                          else if u_s r = ''&'' then RUMPRUN_EXEC_BACKGROUND p
                          else RUMPRUN_EXEC_PIPE p)"
    using be(5) by (auto split: option.splits)
  show "\<exists>b e. find (\<lambda>i. jn i = ''bin'') (rev (u_v v)) = Some b
         \<and> s' = s\<lparr>rumprun_execs := rumprun_execs s @ [e]\<rparr>
         \<and> rre_argv e =
             (case find (\<lambda>i. jn i = ''argv'') (rev (u_v v)) of
                None \<Rightarrow> [u_s b]
              | Some a \<Rightarrow> if u_v a = [] then [u_s b] else map u_s (u_v a))
         \<and> rre_argc e = length (rre_argv e)
         \<and> rre_flags e =
             (case find (\<lambda>i. jn i = ''runmode'') (rev (u_v v)) of
                None \<Rightarrow> 0
              | Some r \<Rightarrow> if u_s r = [] then 0
                          else if u_s r = ''&'' then RUMPRUN_EXEC_BACKGROUND p
                          else RUMPRUN_EXEC_PIPE p)"
    using be(1-4) fl by blast
next
  fix r
  assume r: "find (\<lambda>i. jn i = ''runmode'') (rev (u_v v)) = Some r
          \<and> u_s r \<noteq> [] \<and> u_s r \<noteq> ''&'' \<and> u_s r \<noteq> ''|''"
  show "\<exists>e s1. handle_bin p v loc s = Inl (e, s1)"
  proof (cases "handle_bin p v loc s")
    case (Inl a)
    then show ?thesis by (cases a) simp
  next
    case (Inr c)
    obtain u s' where "c = (u, s')" by (cases c)
    with Inr have "handle_bin p v loc s = Inr (u, s')" by simp
    from handle_bin_success [OF this] r show ?thesis by auto
  qed
qed

lemmas bin_simps = handle_bin_def handle_bin_key_def handle_bin_netbsd_def getmain_def
  bin_argv_def bin_runmode_def bin_sysctl_def sysctl_parse_def sysctl_check_def
  sysctl_entry_def NULL_def

theorem handle_bin_argv_runmode_witness:
  "handle_bin plat0
      (jobj [] [jstr ''bin'' ''bar'', jarr ''argv'' [jstr [] ''bar'', jstr [] ''-v''],
                jstr ''runmode'' ''|'', jstr ''workdir'' ''/tmp'',
                jobj ''netbsd'' [jobj ''sysctl'' [jstr ''x'' ''1'', jbool ''y'' True]],
                jstr ''runmode'' ''&''])
      ''handle_rc'' sys0
     = Inr ((), sys0\<lparr>rumprun_execs :=
         [\<lparr>rre_flags = 1, rre_main = 2, rre_argc = 2, rre_argv = [''bar'', ''-v''],
           rre_workdir = Some ''/tmp'',
           rre_sc = [\<lparr>sc_key = ''proc.curproc.x'', sc_value = ''1''\<rparr>,
                     \<lparr>sc_key = ''proc.curproc.y'', sc_value = ''1''\<rparr>],
           rre_nsc = 2\<rparr>]\<rparr>)
   \<and> handle_bin plat0 (jobj [] [jstr ''bin'' ''foo'', jstr ''runmode'' []]) ''handle_rc'' sys0
     = Inr ((), sys0\<lparr>rumprun_execs :=
         [\<lparr>rre_flags = 0, rre_main = 1, rre_argc = 1, rre_argv = [''foo''],
           rre_workdir = None, rre_sc = [], rre_nsc = 0\<rparr>]\<rparr>)
   \<and> (\<exists>e. handle_bin plat0 (jobj [] [jstr ''bin'' ''foo'', jarr ''argv'' [], jstr ''runmode'' ''|''])
             ''handle_rc'' sys0 = Inr ((), sys0\<lparr>rumprun_execs := rumprun_execs sys0 @ [e]\<rparr>)
          \<and> rre_argv e = [''foo''] \<and> rre_argc e = 1 \<and> rre_flags e = RUMPRUN_EXEC_PIPE plat0)
   \<and> (\<exists>e s1. handle_bin plat0 (jobj [] [jstr ''bin'' ''foo'', jstr ''runmode'' ''fg''])
               ''handle_rc'' sys0 = Inl (e, s1))"
proof -
  let ?d = "jobj [] [jstr ''bin'' ''bar'', jarr ''argv'' [jstr [] ''bar'', jstr [] ''-v''],
                jstr ''runmode'' ''|'', jstr ''workdir'' ''/tmp'',
                jobj ''netbsd'' [jobj ''sysctl'' [jstr ''x'' ''1'', jbool ''y'' True]],
                jstr ''runmode'' ''&'']"
  let ?f = "jobj [] [jstr ''bin'' ''foo'', jstr ''runmode'' []]"
  let ?b = "jobj [] [jstr ''bin'' ''foo'', jarr ''argv'' [], jstr ''runmode'' ''|'']"
  let ?c = "jobj [] [jstr ''bin'' ''foo'', jstr ''runmode'' ''fg'']"
  have hd: "jd ?d = jobject
        \<and> (\<forall>i\<in>set (u_v ?d). (jn i = ''bin'' \<and> jd i = jstring) \<or> (jn i = ''argv'' \<and> jd i = jarray)
              \<or> (jn i = ''runmode'' \<and> jd i = jstring) \<or> (jn i = ''workdir'' \<and> jd i = jstring)
              \<or> (jn i = ''netbsd'' \<and> jd i = jobject
                  \<and> (\<forall>j\<in>set (u_v i). jn j = ''sysctl'' \<and> jd j = jobject)))
        \<and> find (\<lambda>i. jn i = ''bin'') (rev (u_v ?d)) = Some (jstr ''bin'' ''bar'')
        \<and> getmain plat0 (u_s (jstr ''bin'' ''bar'')) sys0 = Inr (2, sys0) \<and> (2 :: rre_mainfn) \<noteq> NULL
        \<and> (\<forall>a. find (\<lambda>i. jn i = ''argv'') (rev (u_v ?d)) = Some a \<longrightarrow>
               (\<forall>i\<in>set (u_v a). jd i = jstring))
        \<and> (\<forall>r. find (\<lambda>i. jn i = ''runmode'') (rev (u_v ?d)) = Some r \<longrightarrow>
               u_s r = [] \<or> u_s r = ''&'' \<or> u_s r = ''|'')
        \<and> (concat (map u_v (filter (\<lambda>i. jn i = ''netbsd'') (u_v ?d))) \<noteq> [] \<longrightarrow>
               (\<forall>k\<in>set (u_v (last (concat (map u_v (filter (\<lambda>i. jn i = ''netbsd'') (u_v ?d)))))).
                  jd k = jtrue \<or> jd k = jfalse \<or> jd k = jstring \<or> jd k = jnumber))"
    by (auto simp: jobj_def jstr_def jarr_def jbool_def getmain_apply plat0_simps NULL_def)
  note t1 = handle_bin_argv_runmode [where v = ?d and p = plat0 and s = sys0
      and loc = "''handle_rc''", THEN conjunct1, rule_format, OF hd]
  have d: "handle_bin plat0 ?d ''handle_rc'' sys0
     = Inr ((), sys0\<lparr>rumprun_execs :=
         [\<lparr>rre_flags = 1, rre_main = 2, rre_argc = 2, rre_argv = [''bar'', ''-v''],
           rre_workdir = Some ''/tmp'',
           rre_sc = [\<lparr>sc_key = ''proc.curproc.x'', sc_value = ''1''\<rparr>,
                     \<lparr>sc_key = ''proc.curproc.y'', sc_value = ''1''\<rparr>],
           rre_nsc = 2\<rparr>]\<rparr>)"
    unfolding t1
    by (simp add: jobj_def jstr_def jarr_def jbool_def plat0_simps sys0_def sysctl_entry_def)
  have hf: "jd ?f = jobject
        \<and> (\<forall>i\<in>set (u_v ?f). (jn i = ''bin'' \<and> jd i = jstring) \<or> (jn i = ''argv'' \<and> jd i = jarray)
              \<or> (jn i = ''runmode'' \<and> jd i = jstring) \<or> (jn i = ''workdir'' \<and> jd i = jstring)
              \<or> (jn i = ''netbsd'' \<and> jd i = jobject
                  \<and> (\<forall>j\<in>set (u_v i). jn j = ''sysctl'' \<and> jd j = jobject)))
        \<and> find (\<lambda>i. jn i = ''bin'') (rev (u_v ?f)) = Some (jstr ''bin'' ''foo'')
        \<and> getmain plat0 (u_s (jstr ''bin'' ''foo'')) sys0 = Inr (1, sys0) \<and> (1 :: rre_mainfn) \<noteq> NULL
        \<and> (\<forall>a. find (\<lambda>i. jn i = ''argv'') (rev (u_v ?f)) = Some a \<longrightarrow>
               (\<forall>i\<in>set (u_v a). jd i = jstring))
        \<and> (\<forall>r. find (\<lambda>i. jn i = ''runmode'') (rev (u_v ?f)) = Some r \<longrightarrow>
               u_s r = [] \<or> u_s r = ''&'' \<or> u_s r = ''|'')
        \<and> (concat (map u_v (filter (\<lambda>i. jn i = ''netbsd'') (u_v ?f))) \<noteq> [] \<longrightarrow>
               (\<forall>k\<in>set (u_v (last (concat (map u_v (filter (\<lambda>i. jn i = ''netbsd'') (u_v ?f)))))).
                  jd k = jtrue \<or> jd k = jfalse \<or> jd k = jstring \<or> jd k = jnumber))"
    by (auto simp: jobj_def jstr_def jarr_def getmain_apply plat0_simps NULL_def)
  note t2 = handle_bin_argv_runmode [where v = ?f and p = plat0 and s = sys0
      and loc = "''handle_rc''", THEN conjunct1, rule_format, OF hf]
  have f: "handle_bin plat0 ?f ''handle_rc'' sys0
     = Inr ((), sys0\<lparr>rumprun_execs :=
         [\<lparr>rre_flags = 0, rre_main = 1, rre_argc = 1, rre_argv = [''foo''],
           rre_workdir = None, rre_sc = [], rre_nsc = 0\<rparr>]\<rparr>)"
    unfolding t2
    by (simp add: jobj_def jstr_def jarr_def plat0_simps sys0_def)
  have bok: "\<exists>s'. handle_bin plat0 ?b ''handle_rc'' sys0 = Inr ((), s')"
    by (simp add: jobj_def jstr_def jarr_def bin_simps run_simps plat0_simps sys0_def)
  then obtain s' where s': "handle_bin plat0 ?b ''handle_rc'' sys0 = Inr ((), s')" ..
  from handle_bin_argv_runmode [where v = ?b and p = plat0 and s = sys0
      and loc = "''handle_rc''", THEN conjunct2, THEN conjunct1, rule_format, OF s']
  have b: "\<exists>e. handle_bin plat0 ?b ''handle_rc'' sys0
                 = Inr ((), sys0\<lparr>rumprun_execs := rumprun_execs sys0 @ [e]\<rparr>)
          \<and> rre_argv e = [''foo''] \<and> rre_argc e = 1 \<and> rre_flags e = RUMPRUN_EXEC_PIPE plat0"
    using s' by (auto simp: jobj_def jstr_def jarr_def)
  have "find (\<lambda>i. jn i = ''runmode'') (rev (u_v ?c)) = Some (jstr ''runmode'' ''fg'')
          \<and> u_s (jstr ''runmode'' ''fg'') \<noteq> [] \<and> u_s (jstr ''runmode'' ''fg'') \<noteq> ''&''
          \<and> u_s (jstr ''runmode'' ''fg'') \<noteq> ''|''"
    by (simp add: jobj_def jstr_def)
  from handle_bin_argv_runmode [where v = ?c and p = plat0 and s = sys0
      and loc = "''handle_rc''", THEN conjunct2, THEN conjunct2, rule_format, OF this]
  have c: "\<exists>e s1. handle_bin plat0 ?c ''handle_rc'' sys0 = Inl (e, s1)" .
  show ?thesis by (intro conjI d f b c)
qed

text \<open>
  C8. An rc element without \<open>bin\<close> is fatal, and so is one whose \<open>bin\<close> is neither
  \<open>*\<close> nor the name of a program in the registry. \<open>getmain\<close> answers with the entry
  point of the first program of the given name in the registry, with \<open>NULL\<close> when there
  is none, and for \<open>*\<close> with the entry point of the first program of the registry
  whatever its name. A well-formed element whose \<open>bin\<close> is so resolved is accepted, and
  every accepted element has the entry point \<open>getmain\<close> gives for its \<open>bin\<close>.
\<close>

theorem handle_bin_resolves_bin:
  "(find (\<lambda>i. jn i = ''bin'') (rev (u_v v)) = None \<longrightarrow>
      (\<exists>e s1. handle_bin p v loc s = Inl (e, s1)))
   \<and> (\<forall>b. find (\<lambda>i. jn i = ''bin'') (rev (u_v v)) = Some b \<and> u_s b \<noteq> ''*''
            \<and> (\<forall>x\<in>set (rumprun_bins p). binname x \<noteq> u_s b) \<longrightarrow>
        (\<exists>e s1. handle_bin p v loc s = Inl (e, s1)))
   \<and> (\<forall>u s'. handle_bin p v loc s = Inr (u, s') \<longrightarrow>
        (\<exists>b e x. find (\<lambda>i. jn i = ''bin'') (rev (u_v v)) = Some b
           \<and> s' = s\<lparr>rumprun_execs := rumprun_execs s @ [e]\<rparr>
           \<and> rre_main e = main x \<and> main x \<noteq> NULL
           \<and> (if u_s b = ''*'' then x = hd (rumprun_bins p) \<and> rumprun_bins p \<noteq> []
               else find (\<lambda>x. binname x = u_s b) (rumprun_bins p) = Some x)))
   \<and> (rumprun_bins p \<noteq> [] \<longrightarrow> getmain p ''*'' s = Inr (main (hd (rumprun_bins p)), s))
   \<and> getmain p bn s =
       (if bn = ''*''
        then (case rumprun_bins p of [] \<Rightarrow> Inl (Null_deref, s) | b # _ \<Rightarrow> Inr (main b, s))
        else Inr ((case find (\<lambda>b. binname b = bn) (rumprun_bins p) of
                     Some b \<Rightarrow> main b | None \<Rightarrow> NULL), s))
   \<and> (\<forall>b x. jd v = jobject
        \<and> (\<forall>i\<in>set (u_v v). (jn i = ''bin'' \<and> jd i = jstring) \<or> (jn i = ''argv'' \<and> jd i = jarray)
              \<or> (jn i = ''runmode'' \<and> jd i = jstring) \<or> (jn i = ''workdir'' \<and> jd i = jstring)
              \<or> (jn i = ''netbsd'' \<and> jd i = jobject
                  \<and> (\<forall>j\<in>set (u_v i). jn j = ''sysctl'' \<and> jd j = jobject)))
        \<and> find (\<lambda>i. jn i = ''bin'') (rev (u_v v)) = Some b
        \<and> (if u_s b = ''*'' then rumprun_bins p \<noteq> [] \<and> x = hd (rumprun_bins p)
            else find (\<lambda>x. binname x = u_s b) (rumprun_bins p) = Some x)
        \<and> main x \<noteq> NULL
        \<and> (\<forall>a. find (\<lambda>i. jn i = ''argv'') (rev (u_v v)) = Some a \<longrightarrow>
               (\<forall>i\<in>set (u_v a). jd i = jstring))
        \<and> (\<forall>r. find (\<lambda>i. jn i = ''runmode'') (rev (u_v v)) = Some r \<longrightarrow>
               u_s r = [] \<or> u_s r = ''&'' \<or> u_s r = ''|'')
        \<and> (concat (map u_v (filter (\<lambda>i. jn i = ''netbsd'') (u_v v))) \<noteq> [] \<longrightarrow>
               (\<forall>k\<in>set (u_v (last (concat (map u_v (filter (\<lambda>i. jn i = ''netbsd'') (u_v v)))))).
                  jd k = jtrue \<or> jd k = jfalse \<or> jd k = jstring \<or> jd k = jnumber)) \<longrightarrow>
        (\<exists>e. handle_bin p v loc s = Inr ((), s\<lparr>rumprun_execs := rumprun_execs s @ [e]\<rparr>)
            \<and> rre_main e = main x))"
proof -
  have res: "\<exists>b e x. find (\<lambda>i. jn i = ''bin'') (rev (u_v v)) = Some b
           \<and> s' = s\<lparr>rumprun_execs := rumprun_execs s @ [e]\<rparr>
           \<and> rre_main e = main x \<and> main x \<noteq> NULL
           \<and> (if u_s b = ''*'' then x = hd (rumprun_bins p) \<and> rumprun_bins p \<noteq> []
               else find (\<lambda>x. binname x = u_s b) (rumprun_bins p) = Some x)"
    if ok: "handle_bin p v loc s = Inr (u, s')" for u s'
  proof -
    from handle_bin_success [OF ok] obtain b e where
      be: "find (\<lambda>i. jn i = ''bin'') (rev (u_v v)) = Some b"
          "s' = s\<lparr>rumprun_execs := rumprun_execs s @ [e]\<rparr>"
          "getmain p (u_s b) s = Inr (rre_main e, s)" "rre_main e \<noteq> NULL"
      by blast
    show ?thesis
    proof (cases "u_s b = ''*''")
      case True
      with be(3) obtain x xs where "rumprun_bins p = x # xs" "rre_main e = main x"
        by (auto simp: getmain_apply split: list.splits)
      then show ?thesis using be True by auto
    next
      case False
      with be(3,4) obtain x where "find (\<lambda>x. binname x = u_s b) (rumprun_bins p) = Some x"
        "rre_main e = main x"
        by (auto simp: getmain_apply split: option.splits)
      then show ?thesis using be False by auto
    qed
  qed
  have fatal: "\<exists>e s1. handle_bin p v loc s = Inl (e, s1)"
    if "\<And>u s'. handle_bin p v loc s \<noteq> Inr (u, s')"
  proof (cases "handle_bin p v loc s")
    case (Inl a)
    then show ?thesis by (cases a) simp
  next
    case (Inr c)
    obtain u s' where "c = (u, s')" by (cases c)
    with Inr show ?thesis using that [of u s'] by simp
  qed
  have a: "find (\<lambda>i. jn i = ''bin'') (rev (u_v v)) = None \<longrightarrow>
      (\<exists>e s1. handle_bin p v loc s = Inl (e, s1))"
  proof
    assume n: "find (\<lambda>i. jn i = ''bin'') (rev (u_v v)) = None"
    show "\<exists>e s1. handle_bin p v loc s = Inl (e, s1)"
      by (rule fatal) (use n res in fastforce)
  qed
  have b: "\<forall>b. find (\<lambda>i. jn i = ''bin'') (rev (u_v v)) = Some b \<and> u_s b \<noteq> ''*''
            \<and> (\<forall>x\<in>set (rumprun_bins p). binname x \<noteq> u_s b) \<longrightarrow>
        (\<exists>e s1. handle_bin p v loc s = Inl (e, s1))"
  proof (intro allI impI)
    fix b
    assume h: "find (\<lambda>i. jn i = ''bin'') (rev (u_v v)) = Some b \<and> u_s b \<noteq> ''*''
            \<and> (\<forall>x\<in>set (rumprun_bins p). binname x \<noteq> u_s b)"
    then have none: "find (\<lambda>x. binname x = u_s b) (rumprun_bins p) = None"
      by (simp add: find_None_iff2)
    show "\<exists>e s1. handle_bin p v loc s = Inl (e, s1)"
    proof (rule fatal)
      fix u s'
      show "handle_bin p v loc s \<noteq> Inr (u, s')"
      proof
        assume "handle_bin p v loc s = Inr (u, s')"
        from res [OF this] h none show False by auto
      qed
    qed
  qed
  have c: "rumprun_bins p \<noteq> [] \<longrightarrow> getmain p ''*'' s = Inr (main (hd (rumprun_bins p)), s)"
    by (auto simp: getmain_apply split: list.splits)
  have r: "\<forall>u s'. handle_bin p v loc s = Inr (u, s') \<longrightarrow>
        (\<exists>b e x. find (\<lambda>i. jn i = ''bin'') (rev (u_v v)) = Some b
           \<and> s' = s\<lparr>rumprun_execs := rumprun_execs s @ [e]\<rparr>
           \<and> rre_main e = main x \<and> main x \<noteq> NULL
           \<and> (if u_s b = ''*'' then x = hd (rumprun_bins p) \<and> rumprun_bins p \<noteq> []
               else find (\<lambda>x. binname x = u_s b) (rumprun_bins p) = Some x))"
    using res by blast
  have d: "getmain p bn s =
       (if bn = ''*''
        then (case rumprun_bins p of [] \<Rightarrow> Inl (Null_deref, s) | b # _ \<Rightarrow> Inr (main b, s))
        else Inr ((case find (\<lambda>b. binname b = bn) (rumprun_bins p) of
                     Some b \<Rightarrow> main b | None \<Rightarrow> NULL), s))"
    by (rule getmain_apply)
  have e: "\<forall>b x. jd v = jobject
        \<and> (\<forall>i\<in>set (u_v v). (jn i = ''bin'' \<and> jd i = jstring) \<or> (jn i = ''argv'' \<and> jd i = jarray)
              \<or> (jn i = ''runmode'' \<and> jd i = jstring) \<or> (jn i = ''workdir'' \<and> jd i = jstring)
              \<or> (jn i = ''netbsd'' \<and> jd i = jobject
                  \<and> (\<forall>j\<in>set (u_v i). jn j = ''sysctl'' \<and> jd j = jobject)))
        \<and> find (\<lambda>i. jn i = ''bin'') (rev (u_v v)) = Some b
        \<and> (if u_s b = ''*'' then rumprun_bins p \<noteq> [] \<and> x = hd (rumprun_bins p)
            else find (\<lambda>x. binname x = u_s b) (rumprun_bins p) = Some x)
        \<and> main x \<noteq> NULL
        \<and> (\<forall>a. find (\<lambda>i. jn i = ''argv'') (rev (u_v v)) = Some a \<longrightarrow>
               (\<forall>i\<in>set (u_v a). jd i = jstring))
        \<and> (\<forall>r. find (\<lambda>i. jn i = ''runmode'') (rev (u_v v)) = Some r \<longrightarrow>
               u_s r = [] \<or> u_s r = ''&'' \<or> u_s r = ''|'')
        \<and> (concat (map u_v (filter (\<lambda>i. jn i = ''netbsd'') (u_v v))) \<noteq> [] \<longrightarrow>
               (\<forall>k\<in>set (u_v (last (concat (map u_v (filter (\<lambda>i. jn i = ''netbsd'') (u_v v)))))).
                  jd k = jtrue \<or> jd k = jfalse \<or> jd k = jstring \<or> jd k = jnumber)) \<longrightarrow>
        (\<exists>e. handle_bin p v loc s = Inr ((), s\<lparr>rumprun_execs := rumprun_execs s @ [e]\<rparr>)
            \<and> rre_main e = main x)"
  proof (intro allI impI)
    fix b x
    assume h: "jd v = jobject
        \<and> (\<forall>i\<in>set (u_v v). (jn i = ''bin'' \<and> jd i = jstring) \<or> (jn i = ''argv'' \<and> jd i = jarray)
              \<or> (jn i = ''runmode'' \<and> jd i = jstring) \<or> (jn i = ''workdir'' \<and> jd i = jstring)
              \<or> (jn i = ''netbsd'' \<and> jd i = jobject
                  \<and> (\<forall>j\<in>set (u_v i). jn j = ''sysctl'' \<and> jd j = jobject)))
        \<and> find (\<lambda>i. jn i = ''bin'') (rev (u_v v)) = Some b
        \<and> (if u_s b = ''*'' then rumprun_bins p \<noteq> [] \<and> x = hd (rumprun_bins p)
            else find (\<lambda>x. binname x = u_s b) (rumprun_bins p) = Some x)
        \<and> main x \<noteq> NULL
        \<and> (\<forall>a. find (\<lambda>i. jn i = ''argv'') (rev (u_v v)) = Some a \<longrightarrow>
               (\<forall>i\<in>set (u_v a). jd i = jstring))
        \<and> (\<forall>r. find (\<lambda>i. jn i = ''runmode'') (rev (u_v v)) = Some r \<longrightarrow>
               u_s r = [] \<or> u_s r = ''&'' \<or> u_s r = ''|'')
        \<and> (concat (map u_v (filter (\<lambda>i. jn i = ''netbsd'') (u_v v))) \<noteq> [] \<longrightarrow>
               (\<forall>k\<in>set (u_v (last (concat (map u_v (filter (\<lambda>i. jn i = ''netbsd'') (u_v v)))))).
                  jd k = jtrue \<or> jd k = jfalse \<or> jd k = jstring \<or> jd k = jnumber))"
    then have obj: "jd v = jobject"
      and wf: "\<forall>i\<in>set (u_v v). (jn i = ''bin'' \<and> jd i = jstring) \<or> (jn i = ''argv'' \<and> jd i = jarray)
              \<or> (jn i = ''runmode'' \<and> jd i = jstring) \<or> (jn i = ''workdir'' \<and> jd i = jstring)
              \<or> (jn i = ''netbsd'' \<and> jd i = jobject
                  \<and> (\<forall>j\<in>set (u_v i). jn j = ''sysctl'' \<and> jd j = jobject))"
      and bin: "find (\<lambda>i. jn i = ''bin'') (rev (u_v v)) = Some b"
      and rs: "if u_s b = ''*'' then rumprun_bins p \<noteq> [] \<and> x = hd (rumprun_bins p)
            else find (\<lambda>x. binname x = u_s b) (rumprun_bins p) = Some x"
      and nn: "main x \<noteq> NULL"
      and av: "\<forall>a. find (\<lambda>i. jn i = ''argv'') (rev (u_v v)) = Some a \<longrightarrow>
               (\<forall>i\<in>set (u_v a). jd i = jstring)"
      and rm: "\<forall>r. find (\<lambda>i. jn i = ''runmode'') (rev (u_v v)) = Some r \<longrightarrow>
               u_s r = [] \<or> u_s r = ''&'' \<or> u_s r = ''|''"
      and sy: "concat (map u_v (filter (\<lambda>i. jn i = ''netbsd'') (u_v v))) \<noteq> [] \<longrightarrow>
               (\<forall>k\<in>set (u_v (last (concat (map u_v (filter (\<lambda>i. jn i = ''netbsd'') (u_v v)))))).
                  jd k = jtrue \<or> jd k = jfalse \<or> jd k = jstring \<or> jd k = jnumber)"
      by blast+
    have gm: "getmain p (u_s b) s = Inr (main x, s)"
      using rs by (cases "rumprun_bins p") (auto simp: getmain_apply split: if_splits)
    show "\<exists>e. handle_bin p v loc s = Inr ((), s\<lparr>rumprun_execs := rumprun_execs s @ [e]\<rparr>)
            \<and> rre_main e = main x"
      unfolding handle_bin_accepts [OF obj wf bin gm nn av rm sy]
      by (rule exI, rule conjI, rule refl, simp)
  qed
  show ?thesis by (intro conjI a b r c d e)
qed


theorem handle_bin_resolves_bin_witness:
  "handle_bin plat0 (jobj [] [jarr ''argv'' [jstr [] ''foo'']]) ''handle_rc'' sys0
     = Inl (Missing_bin, sys0)
   \<and> handle_bin plat0 (jobj [] [jstr ''bin'' ''nope'']) ''handle_rc'' sys0
     = Inl (Unknown_bin ''nope'', sys0)
   \<and> (\<exists>e. handle_bin plat0 (jobj [] [jstr ''bin'' ''*'']) ''handle_rc'' sys0
            = Inr ((), sys0\<lparr>rumprun_execs := rumprun_execs sys0 @ [e]\<rparr>)
          \<and> rre_main e = main (hd (rumprun_bins plat0)) \<and> rre_main e = 1)
   \<and> getmain plat0 ''*'' sys0 = Inr (1, sys0)
   \<and> getmain plat0 ''bar'' sys0 = Inr (2, sys0)
   \<and> getmain plat0 ''nope'' sys0 = Inr (NULL, sys0)
   \<and> (\<exists>e. handle_bin plat0 (jobj [] [jstr ''bin'' ''foo'', jstr ''bin'' ''bar'']) ''handle_rc'' sys0
            = Inr ((), sys0\<lparr>rumprun_execs := rumprun_execs sys0 @ [e]\<rparr>)
          \<and> rre_main e = 2)
   \<and> (\<exists>e. handle_bin plat0 (jobj [] [jstr ''bin'' ''*'', jstr ''runmode'' ''&'']) ''handle_rc'' sys0
            = Inr ((), sys0\<lparr>rumprun_execs := rumprun_execs sys0 @ [e]\<rparr>)
          \<and> rre_main e = 1)"
proof -
  let ?a = "jobj [] [jarr ''argv'' [jstr [] ''foo'']]"
  let ?b = "jobj [] [jstr ''bin'' ''nope'']"
  let ?c = "jobj [] [jstr ''bin'' ''*'']"
  let ?d = "jobj [] [jstr ''bin'' ''foo'', jstr ''bin'' ''bar'']"
  let ?e = "jobj [] [jstr ''bin'' ''*'', jstr ''runmode'' ''&'']"
  note t = handle_bin_resolves_bin
  have "find (\<lambda>i. jn i = ''bin'') (rev (u_v ?a)) = None"
    by (simp add: jobj_def jarr_def)
  from t [of ?a plat0 "''handle_rc''" sys0, THEN conjunct1, rule_format, OF this]
  have "\<exists>e s1. handle_bin plat0 ?a ''handle_rc'' sys0 = Inl (e, s1)" .
  then have a: "handle_bin plat0 ?a ''handle_rc'' sys0 = Inl (Missing_bin, sys0)"
    by (simp add: jobj_def jstr_def jarr_def bin_simps run_simps plat0_simps sys0_def)
  have "find (\<lambda>i. jn i = ''bin'') (rev (u_v ?b)) = Some (jstr ''bin'' ''nope'')
        \<and> u_s (jstr ''bin'' ''nope'') \<noteq> ''*''
        \<and> (\<forall>x\<in>set (rumprun_bins plat0). binname x \<noteq> u_s (jstr ''bin'' ''nope''))"
    by (simp add: jobj_def jstr_def plat0_simps)
  from t [of ?b plat0 "''handle_rc''" sys0, THEN conjunct2, THEN conjunct1, rule_format, OF this]
  have "\<exists>e s1. handle_bin plat0 ?b ''handle_rc'' sys0 = Inl (e, s1)" .
  then have b: "handle_bin plat0 ?b ''handle_rc'' sys0 = Inl (Unknown_bin ''nope'', sys0)"
    by (simp add: jobj_def jstr_def jarr_def bin_simps run_simps plat0_simps sys0_def)
  have "\<exists>s'. handle_bin plat0 ?c ''handle_rc'' sys0 = Inr ((), s')"
    by (simp add: jobj_def jstr_def jarr_def bin_simps run_simps plat0_simps sys0_def)
  then obtain s' where s': "handle_bin plat0 ?c ''handle_rc'' sys0 = Inr ((), s')" ..
  from t [of ?c plat0 "''handle_rc''" sys0, THEN conjunct2, THEN conjunct2, THEN conjunct1,
      rule_format, OF s']
  have c: "\<exists>e. handle_bin plat0 ?c ''handle_rc'' sys0
            = Inr ((), sys0\<lparr>rumprun_execs := rumprun_execs sys0 @ [e]\<rparr>)
          \<and> rre_main e = main (hd (rumprun_bins plat0)) \<and> rre_main e = 1"
    using s' by (auto simp: jobj_def jstr_def plat0_simps)
  have "rumprun_bins plat0 \<noteq> []" by (simp add: plat0_simps)
  from t [of ?c plat0 "''handle_rc''" sys0, THEN conjunct2, THEN conjunct2, THEN conjunct2,
      THEN conjunct1, rule_format, OF this]
  have d: "getmain plat0 ''*'' sys0 = Inr (1, sys0)" by (simp add: plat0_simps)
  have g1: "getmain plat0 ''bar'' sys0 = Inr (2, sys0)"
    unfolding t [where p = plat0 and s = sys0 and bn = "''bar''", THEN conjunct2, THEN conjunct2,
        THEN conjunct2, THEN conjunct2, THEN conjunct1]
    by (simp add: plat0_simps)
  have g2: "getmain plat0 ''nope'' sys0 = Inr (NULL, sys0)"
    unfolding t [where p = plat0 and s = sys0 and bn = "''nope''", THEN conjunct2, THEN conjunct2,
        THEN conjunct2, THEN conjunct2, THEN conjunct1]
    by (simp add: plat0_simps)
  have hd: "jd ?d = jobject
        \<and> (\<forall>i\<in>set (u_v ?d). (jn i = ''bin'' \<and> jd i = jstring) \<or> (jn i = ''argv'' \<and> jd i = jarray)
              \<or> (jn i = ''runmode'' \<and> jd i = jstring) \<or> (jn i = ''workdir'' \<and> jd i = jstring)
              \<or> (jn i = ''netbsd'' \<and> jd i = jobject
                  \<and> (\<forall>j\<in>set (u_v i). jn j = ''sysctl'' \<and> jd j = jobject)))
        \<and> find (\<lambda>i. jn i = ''bin'') (rev (u_v ?d)) = Some (jstr ''bin'' ''bar'')
        \<and> (if u_s (jstr ''bin'' ''bar'') = ''*''
            then rumprun_bins plat0 \<noteq> [] \<and> \<lparr>binname = ''bar'', main = 2\<rparr> = hd (rumprun_bins plat0)
            else find (\<lambda>x. binname x = u_s (jstr ''bin'' ''bar'')) (rumprun_bins plat0)
                   = Some \<lparr>binname = ''bar'', main = 2\<rparr>)
        \<and> main \<lparr>binname = ''bar'', main = 2\<rparr> \<noteq> NULL
        \<and> (\<forall>a. find (\<lambda>i. jn i = ''argv'') (rev (u_v ?d)) = Some a \<longrightarrow>
               (\<forall>i\<in>set (u_v a). jd i = jstring))
        \<and> (\<forall>r. find (\<lambda>i. jn i = ''runmode'') (rev (u_v ?d)) = Some r \<longrightarrow>
               u_s r = [] \<or> u_s r = ''&'' \<or> u_s r = ''|'')
        \<and> (concat (map u_v (filter (\<lambda>i. jn i = ''netbsd'') (u_v ?d))) \<noteq> [] \<longrightarrow>
               (\<forall>k\<in>set (u_v (last (concat (map u_v (filter (\<lambda>i. jn i = ''netbsd'') (u_v ?d)))))).
                  jd k = jtrue \<or> jd k = jfalse \<or> jd k = jstring \<or> jd k = jnumber))"
    by (auto simp: jobj_def jstr_def plat0_simps NULL_def)
  from t [of ?d plat0 "''handle_rc''" sys0, THEN conjunct2, THEN conjunct2, THEN conjunct2,
      THEN conjunct2, THEN conjunct2, rule_format, OF hd]
  have e: "\<exists>e. handle_bin plat0 ?d ''handle_rc'' sys0
            = Inr ((), sys0\<lparr>rumprun_execs := rumprun_execs sys0 @ [e]\<rparr>)
          \<and> rre_main e = 2"
    by simp
  have he: "jd ?e = jobject
        \<and> (\<forall>i\<in>set (u_v ?e). (jn i = ''bin'' \<and> jd i = jstring) \<or> (jn i = ''argv'' \<and> jd i = jarray)
              \<or> (jn i = ''runmode'' \<and> jd i = jstring) \<or> (jn i = ''workdir'' \<and> jd i = jstring)
              \<or> (jn i = ''netbsd'' \<and> jd i = jobject
                  \<and> (\<forall>j\<in>set (u_v i). jn j = ''sysctl'' \<and> jd j = jobject)))
        \<and> find (\<lambda>i. jn i = ''bin'') (rev (u_v ?e)) = Some (jstr ''bin'' ''*'')
        \<and> (if u_s (jstr ''bin'' ''*'') = ''*''
            then rumprun_bins plat0 \<noteq> [] \<and> \<lparr>binname = ''foo'', main = 1\<rparr> = hd (rumprun_bins plat0)
            else find (\<lambda>x. binname x = u_s (jstr ''bin'' ''*'')) (rumprun_bins plat0)
                   = Some \<lparr>binname = ''foo'', main = 1\<rparr>)
        \<and> main \<lparr>binname = ''foo'', main = 1\<rparr> \<noteq> NULL
        \<and> (\<forall>a. find (\<lambda>i. jn i = ''argv'') (rev (u_v ?e)) = Some a \<longrightarrow>
               (\<forall>i\<in>set (u_v a). jd i = jstring))
        \<and> (\<forall>r. find (\<lambda>i. jn i = ''runmode'') (rev (u_v ?e)) = Some r \<longrightarrow>
               u_s r = [] \<or> u_s r = ''&'' \<or> u_s r = ''|'')
        \<and> (concat (map u_v (filter (\<lambda>i. jn i = ''netbsd'') (u_v ?e))) \<noteq> [] \<longrightarrow>
               (\<forall>k\<in>set (u_v (last (concat (map u_v (filter (\<lambda>i. jn i = ''netbsd'') (u_v ?e)))))).
                  jd k = jtrue \<or> jd k = jfalse \<or> jd k = jstring \<or> jd k = jnumber))"
    by (auto simp: jobj_def jstr_def plat0_simps NULL_def)
  from t [of ?e plat0 "''handle_rc''" sys0, THEN conjunct2, THEN conjunct2, THEN conjunct2,
      THEN conjunct2, THEN conjunct2, rule_format, OF he]
  have f: "\<exists>e. handle_bin plat0 ?e ''handle_rc'' sys0
            = Inr ((), sys0\<lparr>rumprun_execs := rumprun_execs sys0 @ [e]\<rparr>)
          \<and> rre_main e = 1"
    by simp
  show ?thesis by (intro conjI a b c d g1 g2 e f)
qed


section \<open>Static IPv4 addresses\<close>


lemma isdigit_of_char: "isdigit c \<Longrightarrow> (48::int) \<le> of_char c"
proof -
  assume "isdigit c"
  then have "(48::nat) \<le> of_char c" by (simp add: isdigit_def Let_def)
  then have "int 48 \<le> int (of_char c)" by (simp only: of_nat_le_iff)
  moreover have "int (of_char c) = of_char c" by (rule of_nat_of_char)
  ultimately show ?thesis by simp
qed

lemma digits_foldl_nonneg:
  "\<forall>c\<in>set ds. isdigit c \<Longrightarrow> 0 \<le> a \<Longrightarrow>
   0 \<le> foldl (\<lambda>a c. 10 * a + (of_char c - 48)) (a::int) ds"
proof (induction ds arbitrary: a)
  case Nil
  then show ?case by simp
next
  case (Cons c ds)
  have "(48::int) \<le> of_char c" using Cons.prems(1) by (simp add: isdigit_of_char)
  then have "0 \<le> 10 * a + (of_char c - 48)" using Cons.prems(2) by simp
  then show ?case using Cons by simp
qed

lemma digits_value_nonneg: "\<forall>c\<in>set ds. isdigit c \<Longrightarrow> 0 \<le> digits_value ds"
  by (simp add: digits_value_def digits_foldl_nonneg)

lemma takeWhile_digits:
  assumes "\<forall>c\<in>set ds. isdigit c" and "g = [] \<or> \<not> isdigit (hd g)"
  shows "takeWhile isdigit (ds @ g) = ds"
proof (cases g)
  case Nil
  then show ?thesis using assms(1) by simp
next
  case (Cons c cs)
  then have "\<not> isdigit c" using assms(2) by simp
  then show ?thesis using assms(1) Cons by (simp add: takeWhile_append2)
qed

lemma isdigit_not_space: "isdigit c \<Longrightarrow> \<not> isspace c"
  by (auto simp: isdigit_def isspace_def Let_def)

lemma isdigit_not_sign: "isdigit c \<Longrightarrow> c \<noteq> CHR ''-'' \<and> c \<noteq> CHR ''+''"
  by (auto simp: isdigit_def Let_def)

lemma int_of_long_small: "0 \<le> x \<Longrightarrow> x < 2 ^ 31 \<Longrightarrow> int_of_long x = x"
  by (simp add: int_of_long_def Let_def)

lemma atoi_digits:
  assumes "ds \<noteq> []" and "\<forall>c\<in>set ds. isdigit c" and "g = [] \<or> \<not> isdigit (hd g)"
    and "digits_value ds < 2 ^ 31"
  shows "atoi (ds @ g) = digits_value ds"
proof -
  obtain c cs where ds: "ds = c # cs" using assms(1) by (cases ds) auto
  have c: "isdigit c" using assms(2) ds by simp
  have s1: "dropWhile isspace (ds @ g) = ds @ g"
    using ds isdigit_not_space [OF c] by simp
  have hd: "hd (ds @ g) = c" using ds by simp
  have tw: "takeWhile isdigit (ds @ g) = ds" by (rule takeWhile_digits [OF assms(2,3)])
  have nn: "0 \<le> digits_value ds" by (rule digits_value_nonneg [OF assms(2)])
  have "strtol (ds @ g) = digits_value ds"
    unfolding strtol_def s1 Let_def hd
    using isdigit_not_sign [OF c] tw nn assms(4) ds by simp
  then show ?thesis using nn assms(4) by (simp add: atoi_def int_of_long_small)
qed

lemma atoi_no_digits:
  assumes "g = [] \<or> (\<not> isdigit (hd g) \<and> \<not> isspace (hd g) \<and> hd g \<noteq> CHR ''-'' \<and> hd g \<noteq> CHR ''+'')"
  shows "atoi g = 0"
proof (cases g)
  case Nil
  then show ?thesis
    by (simp add: atoi_def strtol_def digits_value_def int_of_long_def Let_def)
next
  case (Cons c cs)
  then have c: "\<not> isdigit c" "\<not> isspace c" "c \<noteq> CHR ''-''" "c \<noteq> CHR ''+''"
    using assms by simp_all
  then show ?thesis using Cons
    by (simp add: atoi_def strtol_def digits_value_def int_of_long_def Let_def)
qed

lemma split_slash:
  assumes "CHR ''/'' \<notin> set a"
  shows "takeWhile (\<lambda>x. x \<noteq> CHR ''/'') (a @ CHR ''/'' # m) = a"
    and "tl (dropWhile (\<lambda>x. x \<noteq> CHR ''/'') (a @ CHR ''/'' # m)) = m"
proof -
  have all: "\<forall>x\<in>set a. x \<noteq> CHR ''/''" using assms by auto
  show "takeWhile (\<lambda>x. x \<noteq> CHR ''/'') (a @ CHR ''/'' # m) = a"
    using all by (simp add: takeWhile_append2)
  show "tl (dropWhile (\<lambda>x. x \<noteq> CHR ''/'') (a @ CHR ''/'' # m)) = m"
    using all by (simp add: dropWhile_append2)
qed

text \<open>
  C6. For the method \<open>static\<close>, \<open>config_ipv4\<close> cuts \<open>addr\<close> at its first slash and
  calls the static assignment with the text before the slash and \<open>atoi\<close> of the text
  behind it; a missing \<open>addr\<close> and an \<open>addr\<close> without a slash are fatal. \<open>atoi\<close>
  reads the leading decimal digits and ignores whatever follows them, so that a prefix
  length followed by other characters keeps its value, and a text that begins with no
  digit (nor white space or a sign) is read as 0.
\<close>

theorem config_ipv4_static:
  "(CHR ''/'' \<notin> set a \<longrightarrow>
      config_ipv4 p ifname ''static'' (Some (a @ CHR ''/'' # m))
        = rump_pub p (Netconfig_ipv4_ifaddr_cidr ifname a (atoi m)))
   \<and> (ds \<noteq> [] \<and> (\<forall>c\<in>set ds. isdigit c) \<and> (g = [] \<or> \<not> isdigit (hd g))
        \<and> digits_value ds < 2 ^ 31 \<longrightarrow> atoi (ds @ g) = digits_value ds)
   \<and> (g = [] \<or> (\<not> isdigit (hd g) \<and> \<not> isspace (hd g) \<and> hd g \<noteq> CHR ''-'' \<and> hd g \<noteq> CHR ''+'')
        \<longrightarrow> atoi g = 0)
   \<and> config_ipv4 p ifname ''static'' None s = Inl (Missing_addr ''config_ipv4'' ifname, s)
   \<and> (CHR ''/'' \<notin> set c \<longrightarrow>
        config_ipv4 p ifname ''static'' (Some c) s = Inl (Invalid_addr ''config_ipv4'' ifname, s))"
proof (intro conjI impI)
  assume a: "CHR ''/'' \<notin> set a"
  show "config_ipv4 p ifname ''static'' (Some (a @ CHR ''/'' # m))
        = rump_pub p (Netconfig_ipv4_ifaddr_cidr ifname a (atoi m))"
    using a by (simp add: config_ipv4_def Let_def split_slash [OF a])
next
  assume "ds \<noteq> [] \<and> (\<forall>c\<in>set ds. isdigit c) \<and> (g = [] \<or> \<not> isdigit (hd g))
        \<and> digits_value ds < 2 ^ 31"
  then show "atoi (ds @ g) = digits_value ds" by (simp add: atoi_digits)
next
  assume "g = [] \<or> (\<not> isdigit (hd g) \<and> \<not> isspace (hd g) \<and> hd g \<noteq> CHR ''-'' \<and> hd g \<noteq> CHR ''+'')"
  then show "atoi g = 0" by (rule atoi_no_digits)
next
  show "config_ipv4 p ifname ''static'' None s = Inl (Missing_addr ''config_ipv4'' ifname, s)"
    by (simp add: config_ipv4_def errx_apply)
next
  assume "CHR ''/'' \<notin> set c"
  then show "config_ipv4 p ifname ''static'' (Some c) s
               = Inl (Invalid_addr ''config_ipv4'' ifname, s)"
    by (simp add: config_ipv4_def errx_apply)
qed

lemma isdigit_simps:
  "isdigit CHR ''0''" "isdigit CHR ''1''" "isdigit CHR ''2''" "isdigit CHR ''3''"
  "isdigit CHR ''4''" "isdigit CHR ''5''" "isdigit CHR ''6''" "isdigit CHR ''7''"
  "isdigit CHR ''8''" "isdigit CHR ''9''" "\<not> isdigit CHR ''x''" "\<not> isdigit CHR ''a''"
  "\<not> isspace CHR ''a''"
  by (simp_all add: isdigit_def isspace_def)

theorem config_ipv4_static_witness:
  "config_ipv4 plat0 ''eth0'' ''static'' (Some ''10.0.0.5/24'') sys0
     = Inr ((), sys0\<lparr>trace := [(Netconfig_ipv4_ifaddr_cidr ''eth0'' ''10.0.0.5'' 24, (0, 0))]\<rparr>)
   \<and> atoi ''24'' = 24 \<and> atoi ''24x'' = 24 \<and> atoi ''abc'' = 0
   \<and> config_ipv4 plat0 ''eth0'' ''static'' (Some ''10.0.0.5'') sys0
       = Inl (Invalid_addr ''config_ipv4'' ''eth0'', sys0)"
proof -
  note t = config_ipv4_static
  have d24: "''24'' \<noteq> [] \<and> (\<forall>c\<in>set ''24''. isdigit c) \<and> (([]::string) = [] \<or> \<not> isdigit (hd []))
        \<and> digits_value ''24'' < 2 ^ 31"
    by (simp add: isdigit_simps digits_value_def)
  have a24: "atoi ''24'' = 24"
    using t [of "[]" plat0 "[]" "[]" "''24''" "[]" sys0 "[]", THEN conjunct2, THEN conjunct1,
        rule_format, OF d24]
    by (simp add: digits_value_def)
  have d24x: "''24'' \<noteq> [] \<and> (\<forall>c\<in>set ''24''. isdigit c) \<and> (''x'' = [] \<or> \<not> isdigit (hd ''x''))
        \<and> digits_value ''24'' < 2 ^ 31"
    by (simp add: isdigit_simps digits_value_def)
  have a24x: "atoi ''24x'' = 24"
    using t [of "[]" plat0 "[]" "[]" "''24''" "''x''" sys0 "[]", THEN conjunct2, THEN conjunct1,
        rule_format, OF d24x]
    by (simp add: digits_value_def)
  have dabc: "''abc'' = [] \<or> (\<not> isdigit (hd ''abc'') \<and> \<not> isspace (hd ''abc'')
        \<and> hd ''abc'' \<noteq> CHR ''-'' \<and> hd ''abc'' \<noteq> CHR ''+'')"
    by (simp add: isdigit_simps)
  have aabc: "atoi ''abc'' = 0"
    using t [of "[]" plat0 "[]" "[]" "[]" "''abc''" sys0 "[]", THEN conjunct2, THEN conjunct2,
        THEN conjunct1, rule_format, OF dabc] .
  have sl: "CHR ''/'' \<notin> set ''10.0.0.5''" by simp
  have "config_ipv4 plat0 ''eth0'' ''static'' (Some (''10.0.0.5'' @ CHR ''/'' # ''24''))
        = rump_pub plat0 (Netconfig_ipv4_ifaddr_cidr ''eth0'' ''10.0.0.5'' (atoi ''24''))"
    using t [of "''10.0.0.5''" plat0 "''eth0''" "''24''" "[]" "[]" sys0 "[]", THEN conjunct1,
        rule_format, OF sl] .
  then have c: "config_ipv4 plat0 ''eth0'' ''static'' (Some ''10.0.0.5/24'') sys0
     = Inr ((), sys0\<lparr>trace := [(Netconfig_ipv4_ifaddr_cidr ''eth0'' ''10.0.0.5'' 24, (0, 0))]\<rparr>)"
    by (simp add: a24 run_simps plat0_simps sys0_def)
  have e: "config_ipv4 plat0 ''eth0'' ''static'' (Some ''10.0.0.5'') sys0
       = Inl (Invalid_addr ''config_ipv4'' ''eth0'', sys0)"
    using t [of "[]" plat0 "''eth0''" "[]" "[]" "[]" sys0 "''10.0.0.5''", THEN conjunct2,
        THEN conjunct2, THEN conjunct2, THEN conjunct2, rule_format, OF sl] .
  show ?thesis by (intro conjI c a24 a24x aabc e)
qed

theorem config_ipv4_trailing_garbage_counterexample:
  "config_ipv4 plat0 ''eth0'' ''static'' (Some ''10.0.0.5/24x'') sys0
     = Inr ((), sys0\<lparr>trace := [(Netconfig_ipv4_ifaddr_cidr ''eth0'' ''10.0.0.5'' 24, (0, 0))]\<rparr>)"
proof -
  have a: "atoi ''24x'' = 24"
    by (simp add: atoi_def strtol_def int_of_long_def digits_value_def isdigit_def isspace_def
        Let_def)
  show ?thesis
    by (simp add: config_ipv4_def a run_simps plat0_simps sys0_def)
qed


section \<open>The resolver file\<close>



lemma bindM_Inr:
  assumes "bindM m f s = Inr (y, s')"
  obtains x s1 where "m s = Inr (x, s1)" and "f x s1 = Inr (y, s')"
  using assms by (auto simp: bindM_apply split: sum.splits)


























lemma fatal_or_done:
  fixes r :: "(error \<times> sys) + (unit \<times> sys)"
  obtains (fatal) e s1 where "r = Inl (e, s1)" | (finished) s1 where "r = Inr ((), s1)"
proof (cases r)
  case (Inl a)
  then show ?thesis using fatal by (cases a) simp
next
  case (Inr b)
  then show ?thesis using finished by (cases b) simp
qed





section \<open>Mounts with an unknown source\<close>





















section \<open>The boot plan as a whole\<close>


lemma keeps_Inr: "keeps m \<Longrightarrow> m s = Inr (x, s1) \<Longrightarrow> rumprun_execs s1 = rumprun_execs s"
proof -
  assume k: "keeps m" and r: "m s = Inr (x, s1)"
  from k have "rumprun_execs (out_state (m s)) = rumprun_execs s" by (simp add: keeps_def)
  then show ?thesis using r by (simp add: out_state_def)
qed

lemma keeps_config_text [keeps_intros]: "keeps (config_text p cmdline)"
  unfolding config_text_def by (intro keeps_intros)

lemma resp_config_text [resp_intros]: "resp (config_text p cmdline)"
  unfolding config_text_def by (intro resp_intros)

lemma handle_object_apply:
  "handle_object v h loc s =
     (if jd v \<noteq> jobject then Inl (Expected loc ''OBJECT'' (jtypestr (jd v)), s)
      else pass2 (u_v v) h loc
             (s\<lparr>warnings := warnings s @ map (\<lambda>i. No_match loc (jn i))
                   (filter (\<lambda>i. \<forall>hj\<in>set h. jn i \<noteq> name hj) (u_v v))\<rparr>))"
  by (simp add: handle_object_def bindM_apply jexpect_apply pass1_result)

lemma pass2_root:
  "pass2 ps (handlers_root p) loc =
     bindM (foreach (\<lambda>i. handle_netbsd p i loc) (filter (\<lambda>i. jn i = ''netbsd'') ps)) (\<lambda>_.
     bindM (foreach (\<lambda>i. handle_rc p i loc) (filter (\<lambda>i. jn i = ''rc'') ps)) (\<lambda>_.
     bindM (foreach (\<lambda>i. handle_env p i loc) (filter (\<lambda>i. jn i = ''env'') ps)) (\<lambda>_.
     bindM (foreach (\<lambda>i. handle_blks p i loc) (filter (\<lambda>i. jn i = ''blk'') ps)) (\<lambda>_.
     bindM (foreach (\<lambda>i. handle_mounts p i loc) (filter (\<lambda>i. jn i = ''mount'') ps)) (\<lambda>_.
     bindM (foreach (\<lambda>i. handle_net p i loc) (filter (\<lambda>i. jn i = ''net'') ps)) (\<lambda>_.
     returnM ()))))))"
  by (simp add: pass2_filter handlers_root_def)

text \<open>Only the rc slot of the root table changes the boot plan.\<close>

lemma keeps_after_rc:
  "keeps (bindM (foreach (\<lambda>i. handle_env p i loc) xs) (\<lambda>_.
     bindM (foreach (\<lambda>i. handle_blks p i loc) ys) (\<lambda>_.
     bindM (foreach (\<lambda>i. handle_mounts p i loc) zs) (\<lambda>_.
     bindM (foreach (\<lambda>i. handle_net p i loc) ws) (\<lambda>_.
     returnM ())))))"
  by (intro keeps_intros)

lemma pass2_root_Inr:
  assumes "pass2 ps (handlers_root p) loc s = Inr (u, s1)"
  shows "\<exists>sa sb. rumprun_execs sa = rumprun_execs s
           \<and> foreach (\<lambda>i. handle_rc p i loc) (filter (\<lambda>i. jn i = ''rc'') ps) sa = Inr ((), sb)
           \<and> rumprun_execs s1 = rumprun_execs sb"
proof -
  from assms [unfolded pass2_root] obtain ua sa where
    a: "foreach (\<lambda>i. handle_netbsd p i loc) (filter (\<lambda>i. jn i = ''netbsd'') ps) s = Inr (ua, sa)"
    and r1: "bindM (foreach (\<lambda>i. handle_rc p i loc) (filter (\<lambda>i. jn i = ''rc'') ps)) (\<lambda>_.
     bindM (foreach (\<lambda>i. handle_env p i loc) (filter (\<lambda>i. jn i = ''env'') ps)) (\<lambda>_.
     bindM (foreach (\<lambda>i. handle_blks p i loc) (filter (\<lambda>i. jn i = ''blk'') ps)) (\<lambda>_.
     bindM (foreach (\<lambda>i. handle_mounts p i loc) (filter (\<lambda>i. jn i = ''mount'') ps)) (\<lambda>_.
     bindM (foreach (\<lambda>i. handle_net p i loc) (filter (\<lambda>i. jn i = ''net'') ps)) (\<lambda>_.
     returnM ()))))) sa = Inr (u, s1)"
    by (erule bindM_Inr)
  have ka: "keeps (foreach (\<lambda>i. handle_netbsd p i loc) (filter (\<lambda>i. jn i = ''netbsd'') ps))"
    by (intro keeps_intros)
  have ea: "rumprun_execs sa = rumprun_execs s" by (rule keeps_Inr [OF ka a])
  from r1 obtain ub sb where
    b: "foreach (\<lambda>i. handle_rc p i loc) (filter (\<lambda>i. jn i = ''rc'') ps) sa = Inr (ub, sb)"
    and r2: "bindM (foreach (\<lambda>i. handle_env p i loc) (filter (\<lambda>i. jn i = ''env'') ps)) (\<lambda>_.
     bindM (foreach (\<lambda>i. handle_blks p i loc) (filter (\<lambda>i. jn i = ''blk'') ps)) (\<lambda>_.
     bindM (foreach (\<lambda>i. handle_mounts p i loc) (filter (\<lambda>i. jn i = ''mount'') ps)) (\<lambda>_.
     bindM (foreach (\<lambda>i. handle_net p i loc) (filter (\<lambda>i. jn i = ''net'') ps)) (\<lambda>_.
     returnM ())))) sb = Inr (u, s1)"
    by (erule bindM_Inr)
  have e1: "rumprun_execs s1 = rumprun_execs sb" by (rule keeps_Inr [OF keeps_after_rc r2])
  show ?thesis using ea b e1 by auto
qed

text \<open>The last entry made of a list of rc elements.\<close>

lemma handle_bin_loop_last:
  assumes "foreach (\<lambda>i. handle_bin p i loc) els s = Inr (u, s1)"
  shows "(els = [] \<longrightarrow> rumprun_execs s1 = rumprun_execs s)
    \<and> (els \<noteq> [] \<longrightarrow> rumprun_execs s1 \<noteq> []
         \<and> (\<forall>r. find (\<lambda>i. jn i = ''runmode'') (rev (u_v (last els))) = Some r \<and> u_s r = ''|''
               \<longrightarrow> rre_flags (last (rumprun_execs s1)) = RUMPRUN_EXEC_PIPE p))"
  using assms
proof (induction els arbitrary: s)
  case Nil
  then show ?case by (simp add: returnM_apply)
next
  case (Cons el els)
  from Cons.prems obtain u2 s2 where a: "handle_bin p el loc s = Inr (u2, s2)"
    and b: "foreach (\<lambda>i. handle_bin p i loc) els s2 = Inr (u, s1)"
    by (auto elim: bindM_Inr)
  from handle_bin_success [OF a] obtain e where
    s2: "s2 = s\<lparr>rumprun_execs := rumprun_execs s @ [e]\<rparr>"
    and fl: "(case find (\<lambda>i. jn i = ''runmode'') (rev (u_v el)) of
          None \<Rightarrow> rre_flags e = 0
        | Some r \<Rightarrow> (u_s r = [] \<and> rre_flags e = 0)
                    \<or> (u_s r = ''&'' \<and> rre_flags e = RUMPRUN_EXEC_BACKGROUND p)
                    \<or> (u_s r = ''|'' \<and> rre_flags e = RUMPRUN_EXEC_PIPE p))"
    by blast
  note ih = Cons.IH [OF b]
  show ?case
  proof (cases els)
    case Nil
    then have "rumprun_execs s1 = rumprun_execs s @ [e]" using ih s2 by simp
    then show ?thesis using Nil fl by (auto split: option.splits)
  next
    case (Cons x xs)
    then show ?thesis using ih by simp
  qed
qed

lemma handle_rc_last:
  assumes "handle_rc p v loc s = Inr (u, s1)"
  shows "(u_v v = [] \<longrightarrow> rumprun_execs s1 = rumprun_execs s)
    \<and> (u_v v \<noteq> [] \<longrightarrow> rumprun_execs s1 \<noteq> []
         \<and> (\<forall>r. find (\<lambda>i. jn i = ''runmode'') (rev (u_v (last (u_v v)))) = Some r \<and> u_s r = ''|''
               \<longrightarrow> rre_flags (last (rumprun_execs s1)) = RUMPRUN_EXEC_PIPE p))"
proof -
  from assms have "foreach (\<lambda>i. handle_bin p i ''handle_rc'') (u_v v) s = Inr (u, s1)"
    by (auto simp: handle_rc_def bindM_apply jexpect_apply split: if_splits)
  from handle_bin_loop_last [OF this] show ?thesis .
qed

lemma handle_rc_loop_last:
  assumes "foreach (\<lambda>i. handle_rc p i loc) rcs s = Inr (u, s1)"
  shows "(concat (map u_v rcs) = [] \<longrightarrow> rumprun_execs s1 = rumprun_execs s)
    \<and> (concat (map u_v rcs) \<noteq> [] \<longrightarrow> rumprun_execs s1 \<noteq> []
         \<and> (\<forall>r. find (\<lambda>i. jn i = ''runmode'') (rev (u_v (last (concat (map u_v rcs))))) = Some r
                  \<and> u_s r = ''|''
               \<longrightarrow> rre_flags (last (rumprun_execs s1)) = RUMPRUN_EXEC_PIPE p))"
  using assms
proof (induction rcs arbitrary: s)
  case Nil
  then show ?case by (simp add: returnM_apply)
next
  case (Cons rc rcs)
  from Cons.prems obtain u2 s2 where a: "handle_rc p rc loc s = Inr (u2, s2)"
    and b: "foreach (\<lambda>i. handle_rc p i loc) rcs s2 = Inr (u, s1)"
    by (auto elim: bindM_Inr)
  define X where "X = concat (map u_v rcs)"
  have c: "concat (map u_v (rc # rcs)) = u_v rc @ X" by (simp add: X_def)
  note first = handle_rc_last [OF a]
  note ih = Cons.IH [OF b, folded X_def]
  show ?case
  proof (cases "X = []")
    case True
    then have e: "rumprun_execs s1 = rumprun_execs s2" using ih by simp
    show ?thesis unfolding c True e using first by simp
  next
    case False
    then have l: "last (u_v rc @ X) = last X" by simp
    have n: "u_v rc @ X \<noteq> []" using False by simp
    show ?thesis unfolding c l using ih False n by blast
  qed
qed

lemma handle_object_root_last:
  assumes "handle_object root (handlers_root p) loc s = Inr (u, s1)"
  shows "(concat (map u_v (filter (\<lambda>i. jn i = ''rc'') (u_v root))) = [] \<longrightarrow>
            rumprun_execs s1 = rumprun_execs s)
    \<and> (concat (map u_v (filter (\<lambda>i. jn i = ''rc'') (u_v root))) \<noteq> [] \<longrightarrow>
          rumprun_execs s1 \<noteq> []
          \<and> (\<forall>r. find (\<lambda>i. jn i = ''runmode'')
                     (rev (u_v (last (concat (map u_v (filter (\<lambda>i. jn i = ''rc'') (u_v root)))))))
                   = Some r \<and> u_s r = ''|''
               \<longrightarrow> rre_flags (last (rumprun_execs s1)) = RUMPRUN_EXEC_PIPE p))"
proof -
  define s' where "s' = s\<lparr>warnings := warnings s @ map (\<lambda>i. No_match loc (jn i))
                   (filter (\<lambda>i. \<forall>hj\<in>set (handlers_root p). jn i \<noteq> name hj) (u_v root))\<rparr>"
  from assms have "pass2 (u_v root) (handlers_root p) loc s' = Inr (u, s1)"
    by (auto simp: handle_object_apply s'_def split: if_splits)
  from pass2_root_Inr [OF this] obtain sa sb where
    ea: "rumprun_execs sa = rumprun_execs s'"
    and rc: "foreach (\<lambda>i. handle_rc p i loc) (filter (\<lambda>i. jn i = ''rc'') (u_v root)) sa = Inr ((), sb)"
    and e1: "rumprun_execs s1 = rumprun_execs sb"
    by blast
  have "rumprun_execs sa = rumprun_execs s" using ea by (simp add: s'_def)
  with handle_rc_loop_last [OF rc] e1 show ?thesis by simp
qed

text \<open>The end of \<open>rumprun_config\<close>.\<close>

lemma TAILQ_INSERT_TAIL_apply:
  "TAILQ_INSERT_TAIL e s = Inr ((), s\<lparr>rumprun_execs := rumprun_execs s @ [e]\<rparr>)"
  by (simp add: TAILQ_INSERT_TAIL_def)

lemma tailq_insert_loop:
  "foreach (\<lambda>b. TAILQ_INSERT_TAIL (f b)) bs s
     = Inr ((), s\<lparr>rumprun_execs := rumprun_execs s @ map f bs\<rparr>)"
proof -
  define F where "F = (\<lambda>b. TAILQ_INSERT_TAIL (f b))"
  have step: "F b s = Inr ((), s\<lparr>rumprun_execs := rumprun_execs s @ [f b]\<rparr>)" for b s
    by (simp add: F_def TAILQ_INSERT_TAIL_apply)
  have "foreach F bs s = Inr ((), s\<lparr>rumprun_execs := rumprun_execs s @ map f bs\<rparr>)"
  proof (induction bs arbitrary: s)
    case Nil
    show ?case by (simp add: returnM_apply)
  next
    case (Cons b bs)
    have "foreach F (b # bs) s = foreach F bs (s\<lparr>rumprun_execs := rumprun_execs s @ [f b]\<rparr>)"
      by (simp add: bindM_apply step)
    then show ?case by (simp add: Cons)
  qed
  then show ?thesis by (simp add: F_def)
qed

lemma handle_rc_dummy_apply:
  "handle_rc_dummy p s =
     Inr (int (length (rumprun_bins p)),
          s\<lparr>rumprun_execs := rumprun_execs s @
               map (\<lambda>b. (malloc_junk p)\<lparr>rre_flags := 0, rre_main := main b,
                                        rre_argc := 1, rre_argv := [binname b]\<rparr>)
                 (rumprun_bins p)\<rparr>)"
  by (simp add: handle_rc_dummy_def bindM_apply tailq_insert_loop returnM_apply)

lemma TAILQ_LAST_eq: "TAILQ_LAST xs = (if xs = [] then None else Some (last xs))"
  by (cases xs) simp_all

lemma dummy_last_flags:
  "bs \<noteq> [] \<Longrightarrow>
   rre_flags (last (map (\<lambda>b. junk\<lparr>rre_flags := 0, rre_main := main b,
                                   rre_argc := 1, rre_argv := [binname b]\<rparr>) bs)) = 0"
  by (simp add: last_map)

lemma check_execs_empty:
  assumes "rumprun_execs s = []"
  shows "check_execs p s =
     (if rumprun_bins p = [] then Inl (No_execs, s)
      else Inr ((), s\<lparr>rumprun_execs :=
               map (\<lambda>b. (malloc_junk p)\<lparr>rre_flags := 0, rre_main := main b,
                                        rre_argc := 1, rre_argv := [binname b]\<rparr>)
                 (rumprun_bins p)\<rparr>))"
proof (cases "rumprun_bins p = []")
  case True
  then show ?thesis using assms
    by (simp add: check_execs_def bindM_apply getsM_def handle_rc_dummy_apply errx_apply)
next
  case False
  define D where "D = map (\<lambda>b. (malloc_junk p)\<lparr>rre_flags := 0, rre_main := main b,
                                        rre_argc := 1, rre_argv := [binname b]\<rparr>)
                 (rumprun_bins p)"
  have d: "D \<noteq> []" using False by (simp add: D_def)
  have f: "rre_flags (last D) = 0" unfolding D_def by (rule dummy_last_flags [OF False])
  have h: "handle_rc_dummy p s = Inr (int (length (rumprun_bins p)), s\<lparr>rumprun_execs := D\<rparr>)"
    using assms by (simp add: handle_rc_dummy_apply D_def)
  have "check_execs p s = Inr ((), s\<lparr>rumprun_execs := D\<rparr>)"
    using assms False d f
    by (simp add: check_execs_def bindM_apply getsM_def h errx_apply returnM_apply TAILQ_LAST_eq)
  then show ?thesis using False by (simp add: D_def)
qed

lemma check_execs_nonempty:
  assumes "rumprun_execs s \<noteq> []"
  shows "check_execs p s =
     (if rre_flags (last (rumprun_execs s)) AND RUMPRUN_EXEC_PIPE p \<noteq> 0
      then Inl (Last_rc_pipe, s) else Inr ((), s))"
  using assms
  by (simp add: check_execs_def bindM_apply getsM_def errx_apply returnM_apply TAILQ_LAST_eq)

lemma check_execs_Inr:
  assumes "check_execs p s = Inr (u, s1)"
  shows "rumprun_execs s1 \<noteq> [] \<and> rre_flags (last (rumprun_execs s1)) AND RUMPRUN_EXEC_PIPE p = 0"
proof (cases "rumprun_execs s = []")
  case True
  from assms [unfolded check_execs_empty [OF True]]
  have ne: "rumprun_bins p \<noteq> []" and s1: "s1 = s\<lparr>rumprun_execs :=
               map (\<lambda>b. (malloc_junk p)\<lparr>rre_flags := 0, rre_main := main b,
                                        rre_argc := 1, rre_argv := [binname b]\<rparr>)
                 (rumprun_bins p)\<rparr>"
    by (auto split: if_splits)
  show ?thesis using ne s1 dummy_last_flags [OF ne, of "malloc_junk p"] by simp
next
  case False
  from assms [unfolded check_execs_nonempty [OF False]] False
  show ?thesis by (auto split: if_splits)
qed




lemma rumprun_config_parsed:
  assumes "config_text p cmdline s = Inr (t, s0)"
    and "dropWhile (\<lambda>c. c \<noteq> CHR ''{'') t = c # cs"
    and "jparse p (c # cs) = Some root"
  shows "rumprun_config p cmdline s =
           bindM (handle_object root (handlers_root p) ''rumprun_config'') (\<lambda>_. check_execs p) s0"
  using assms by (simp add: rumprun_config_def bindM_apply)

lemma rumprun_config_Inr:
  assumes "rumprun_config p cmdline s = Inr (u, s1)"
  shows "\<exists>s'. check_execs p s' = Inr (u, s1)"
proof -
  from assms [unfolded rumprun_config_def] obtain t s0 where
    "bindM (case dropWhile (\<lambda>c. c \<noteq> CHR ''{'') t of
              [] \<Rightarrow> warnx No_json_start
            | c # cs \<Rightarrow>
                (case jparse p (c # cs) of
                   None \<Rightarrow> errx Jparse_failed
                 | Some root \<Rightarrow> handle_object root (handlers_root p) ''rumprun_config''))
       (\<lambda>_. check_execs p) s0 = Inr (u, s1)"
    by (auto elim: bindM_Inr)
  then obtain x s' where "check_execs p s' = Inr (u, s1)" by (auto elim: bindM_Inr)
  then show ?thesis ..
qed

text \<open>
  C4. When the configuration found is a document without any \<open>rc\<close> pair and the queue
  \<open>rumprun_execs\<close> is empty at the start, \<open>rumprun_config\<close> is the dispatch of the
  document followed, where that completes, by the fallback: a fatal internal error for an
  empty registry, and otherwise a boot plan of one entry per program of \<open>rumprun_bins\<close>,
  in the order of the registry, each with flags 0 and the one-element argument vector of
  the program's name.
\<close>

theorem rumprun_config_without_rc:
  assumes "config_text p cmdline s = Inr (t, s0)"
    and "dropWhile (\<lambda>c. c \<noteq> CHR ''{'') t = c # cs"
    and "jparse p (c # cs) = Some root"
    and "\<forall>i\<in>set (u_v root). jn i \<noteq> ''rc''"
    and "rumprun_execs s = []"
  shows "rumprun_config p cmdline s =
     (case handle_object root (handlers_root p) ''rumprun_config'' s0 of
        Inl x \<Rightarrow> Inl x
      | Inr (u, s1) \<Rightarrow>
          if rumprun_bins p = [] then Inl (No_execs, s1)
          else Inr ((), s1\<lparr>rumprun_execs :=
                 map (\<lambda>b. (malloc_junk p)\<lparr>rre_flags := 0, rre_main := main b,
                                          rre_argc := 1, rre_argv := [binname b]\<rparr>)
                   (rumprun_bins p)\<rparr>))"
proof (cases "handle_object root (handlers_root p) ''rumprun_config'' s0")
  case (Inl x)
  then show ?thesis
    unfolding rumprun_config_parsed [OF assms(1-3)] by (simp add: bindM_apply)
next
  case (Inr y)
  obtain u s1 where y: "y = (u, s1)" by (cases y)
  have e0: "rumprun_execs s0 = []"
    using keeps_Inr [OF keeps_config_text assms(1)] assms(5) by simp
  have norc: "filter (\<lambda>i. jn i = ''rc'') (u_v root) = []"
    using assms(4) by (simp add: filter_empty_conv)
  from handle_object_root_last [OF Inr [unfolded y]] norc e0
  have "rumprun_execs s1 = []" by simp
  from check_execs_empty [OF this, of p] show ?thesis
    unfolding rumprun_config_parsed [OF assms(1-3)] using Inr y by (simp add: bindM_apply)
qed

lemma no_rootfscfg: "rumprun_config_path ''console=ttyS0 {}'' = None"
  by (simp add: rumprun_config_path_def)

theorem rumprun_config_without_rc_witness:
  "rumprun_config (plat0\<lparr>jparse := (\<lambda>t. if t = ''{}'' then Some (jobj [] []) else None)\<rparr>)
      ''console=ttyS0 {}'' sys0
     = Inr ((), sys0\<lparr>rumprun_execs :=
         [\<lparr>rre_flags = 0, rre_main = 1, rre_argc = 1, rre_argv = [''foo''],
           rre_workdir = None, rre_sc = [], rre_nsc = 0\<rparr>,
          \<lparr>rre_flags = 0, rre_main = 2, rre_argc = 1, rre_argv = [''bar''],
           rre_workdir = None, rre_sc = [], rre_nsc = 0\<rparr>]\<rparr>)
   \<and> rumprun_config (plat0\<lparr>jparse := (\<lambda>t. if t = ''{}'' then Some (jobj [] []) else None),
                            rumprun_bins := []\<rparr>)
        ''console=ttyS0 {}'' sys0
     = Inl (No_execs, sys0)"
proof -
  let ?p = "plat0\<lparr>jparse := (\<lambda>t. if t = ''{}'' then Some (jobj [] []) else None)\<rparr>"
  let ?q = "plat0\<lparr>jparse := (\<lambda>t. if t = ''{}'' then Some (jobj [] []) else None),
                  rumprun_bins := []\<rparr>"
  have ct: "config_text ?p ''console=ttyS0 {}'' sys0 = Inr (''console=ttyS0 {}'', sys0)"
    "config_text ?q ''console=ttyS0 {}'' sys0 = Inr (''console=ttyS0 {}'', sys0)"
    by (simp_all add: config_text_def no_rootfscfg returnM_apply)
  have dw: "dropWhile (\<lambda>c. c \<noteq> CHR ''{'') ''console=ttyS0 {}'' = CHR ''{'' # ''}''"
    by simp
  have jp: "jparse ?p (CHR ''{'' # ''}'') = Some (jobj [] [])"
    "jparse ?q (CHR ''{'' # ''}'') = Some (jobj [] [])"
    by simp_all
  have norc: "\<forall>i\<in>set (u_v (jobj [] [])). jn i \<noteq> ''rc''" by (simp add: jobj_def)
  have e: "rumprun_execs sys0 = []" by (simp add: sys0_def)
  have ho: "handle_object (jobj [] []) (handlers_root ?p) ''rumprun_config'' sys0 = Inr ((), sys0)"
    "handle_object (jobj [] []) (handlers_root ?q) ''rumprun_config'' sys0 = Inr ((), sys0)"
    by (simp_all add: handle_object_apply jobj_def pass2_root returnM_apply sys0_def)
  have a: "rumprun_config ?p ''console=ttyS0 {}'' sys0
     = Inr ((), sys0\<lparr>rumprun_execs :=
         [\<lparr>rre_flags = 0, rre_main = 1, rre_argc = 1, rre_argv = [''foo''],
           rre_workdir = None, rre_sc = [], rre_nsc = 0\<rparr>,
          \<lparr>rre_flags = 0, rre_main = 2, rre_argc = 1, rre_argv = [''bar''],
           rre_workdir = None, rre_sc = [], rre_nsc = 0\<rparr>]\<rparr>)"
    unfolding rumprun_config_without_rc [OF ct(1) dw jp(1) norc e] ho(1)
    by (simp add: plat0_def)
  have b: "rumprun_config ?q ''console=ttyS0 {}'' sys0 = Inl (No_execs, sys0)"
    unfolding rumprun_config_without_rc [OF ct(2) dw jp(2) norc e] ho(2)
    by simp
  show ?thesis by (intro conjI a b)
qed

text \<open>
  C2. Whenever \<open>rumprun_config\<close> returns, the boot plan is not empty and its last entry
  does not have the pipe flag. When the configuration found is a document whose \<open>rc\<close>
  arrays, taken together in the order of the document, end with an element of run mode
  \<open>|\<close>, \<open>rumprun_config\<close> is fatal whatever else the document holds (the pipe flag of
  rumprun.h being a flag, that is, not zero).
\<close>

theorem last_entry_never_pipe:
  "(\<forall>u s1. rumprun_config p cmdline s = Inr (u, s1) \<longrightarrow>
      rumprun_execs s1 \<noteq> []
      \<and> rre_flags (last (rumprun_execs s1)) AND RUMPRUN_EXEC_PIPE p = 0)
   \<and> (\<forall>t s0 c cs root r.
        config_text p cmdline s = Inr (t, s0)
        \<and> dropWhile (\<lambda>c. c \<noteq> CHR ''{'') t = c # cs
        \<and> jparse p (c # cs) = Some root
        \<and> concat (map u_v (filter (\<lambda>i. jn i = ''rc'') (u_v root))) \<noteq> []
        \<and> find (\<lambda>i. jn i = ''runmode'')
            (rev (u_v (last (concat (map u_v (filter (\<lambda>i. jn i = ''rc'') (u_v root)))))))
            = Some r
        \<and> u_s r = ''|'' \<and> RUMPRUN_EXEC_PIPE p \<noteq> 0 \<longrightarrow>
        (\<exists>e s1. rumprun_config p cmdline s = Inl (e, s1)))"
proof (intro conjI allI impI)
  fix u s1
  assume "rumprun_config p cmdline s = Inr (u, s1)"
  from rumprun_config_Inr [OF this] obtain s' where "check_execs p s' = Inr (u, s1)" ..
  from check_execs_Inr [OF this]
  show "rumprun_execs s1 \<noteq> []"
    and "rre_flags (last (rumprun_execs s1)) AND RUMPRUN_EXEC_PIPE p = 0"
    by simp_all
next
  fix t s0 c cs root r
  assume h: "config_text p cmdline s = Inr (t, s0)
        \<and> dropWhile (\<lambda>c. c \<noteq> CHR ''{'') t = c # cs
        \<and> jparse p (c # cs) = Some root
        \<and> concat (map u_v (filter (\<lambda>i. jn i = ''rc'') (u_v root))) \<noteq> []
        \<and> find (\<lambda>i. jn i = ''runmode'')
            (rev (u_v (last (concat (map u_v (filter (\<lambda>i. jn i = ''rc'') (u_v root)))))))
            = Some r
        \<and> u_s r = ''|'' \<and> RUMPRUN_EXEC_PIPE p \<noteq> 0"
  then have h1: "config_text p cmdline s = Inr (t, s0)"
    and h2: "dropWhile (\<lambda>c. c \<noteq> CHR ''{'') t = c # cs"
    and h3: "jparse p (c # cs) = Some root"
    and h4: "concat (map u_v (filter (\<lambda>i. jn i = ''rc'') (u_v root))) \<noteq> []"
    and h5: "find (\<lambda>i. jn i = ''runmode'')
            (rev (u_v (last (concat (map u_v (filter (\<lambda>i. jn i = ''rc'') (u_v root)))))))
            = Some r"
    and h6: "u_s r = ''|''" and h7: "RUMPRUN_EXEC_PIPE p \<noteq> 0"
    by blast+
  have rc: "rumprun_config p cmdline s =
           bindM (handle_object root (handlers_root p) ''rumprun_config'') (\<lambda>_. check_execs p) s0"
    by (rule rumprun_config_parsed [OF h1 h2 h3])
  show "\<exists>e s1. rumprun_config p cmdline s = Inl (e, s1)"
  proof (cases "handle_object root (handlers_root p) ''rumprun_config'' s0" rule: fatal_or_done)
    case (fatal e s1)
    then show ?thesis unfolding rc by (simp add: bindM_apply)
  next
    case (finished s1)
    from handle_object_root_last [OF finished] h4 h5 h6
    have ne: "rumprun_execs s1 \<noteq> []"
      and fl: "rre_flags (last (rumprun_execs s1)) = RUMPRUN_EXEC_PIPE p"
      by blast+
    have "rre_flags (last (rumprun_execs s1)) AND RUMPRUN_EXEC_PIPE p \<noteq> 0"
      using fl h7 by simp
    then have "check_execs p s1 = Inl (Last_rc_pipe, s1)"
      by (simp add: check_execs_nonempty [OF ne])
    then show ?thesis unfolding rc using finished by (simp add: bindM_apply)
  qed
qed


lemma no_rootfscfg_rc: "rumprun_config_path ''{rc}'' = None"
  by (simp add: rumprun_config_path_def)

theorem last_entry_never_pipe_witness:
  "(\<exists>e s1. rumprun_config
       (plat0\<lparr>jparse := (\<lambda>t. Some (jobj []
          [jobj ''env'' [jstr ''A'' ''1''],
           jarr ''rc'' [jobj [] [jstr ''bin'' ''foo'', jstr ''runmode'' ''|'']]]))\<rparr>)
       ''{rc}'' sys0 = Inl (e, s1))
   \<and> rumprun_config
       (plat0\<lparr>jparse := (\<lambda>t. Some (jobj []
          [jarr ''rc'' [jobj [] [jstr ''bin'' ''foo'', jstr ''runmode'' ''|''],
                        jobj [] [jstr ''bin'' ''bar'', jstr ''runmode'' ''&'']]]))\<rparr>)
       ''{rc}'' sys0
     = Inr ((), sys0\<lparr>rumprun_execs :=
         [\<lparr>rre_flags = 2, rre_main = 1, rre_argc = 1, rre_argv = [''foo''],
           rre_workdir = None, rre_sc = [], rre_nsc = 0\<rparr>,
          \<lparr>rre_flags = 1, rre_main = 2, rre_argc = 1, rre_argv = [''bar''],
           rre_workdir = None, rre_sc = [], rre_nsc = 0\<rparr>]\<rparr>)
   \<and> (1 :: 32 word) AND 2 = 0"
proof -
  let ?D = "jobj [] [jobj ''env'' [jstr ''A'' ''1''],
           jarr ''rc'' [jobj [] [jstr ''bin'' ''foo'', jstr ''runmode'' ''|'']]]"
  let ?E = "jobj [] [jarr ''rc'' [jobj [] [jstr ''bin'' ''foo'', jstr ''runmode'' ''|''],
                        jobj [] [jstr ''bin'' ''bar'', jstr ''runmode'' ''&'']]]"
  let ?p = "plat0\<lparr>jparse := (\<lambda>t. Some ?D)\<rparr>"
  let ?q = "plat0\<lparr>jparse := (\<lambda>t. Some ?E)\<rparr>"
  let ?s1 = "sys0\<lparr>rumprun_execs :=
         [\<lparr>rre_flags = 2, rre_main = 1, rre_argc = 1, rre_argv = [''foo''],
           rre_workdir = None, rre_sc = [], rre_nsc = 0\<rparr>,
          \<lparr>rre_flags = 1, rre_main = 2, rre_argc = 1, rre_argv = [''bar''],
           rre_workdir = None, rre_sc = [], rre_nsc = 0\<rparr>]\<rparr>"
  have h: "config_text ?p ''{rc}'' sys0 = Inr (''{rc}'', sys0)
        \<and> dropWhile (\<lambda>c. c \<noteq> CHR ''{'') ''{rc}'' = CHR ''{'' # ''rc}''
        \<and> jparse ?p (CHR ''{'' # ''rc}'') = Some ?D
        \<and> concat (map u_v (filter (\<lambda>i. jn i = ''rc'') (u_v ?D))) \<noteq> []
        \<and> find (\<lambda>i. jn i = ''runmode'')
            (rev (u_v (last (concat (map u_v (filter (\<lambda>i. jn i = ''rc'') (u_v ?D)))))))
            = Some (jstr ''runmode'' ''|'')
        \<and> u_s (jstr ''runmode'' ''|'') = ''|'' \<and> RUMPRUN_EXEC_PIPE ?p \<noteq> 0"
    by (simp add: config_text_def no_rootfscfg_rc returnM_apply jobj_def jarr_def jstr_def
        plat0_def)
  note t = last_entry_never_pipe
  from t [of ?p "''{rc}''" sys0, THEN conjunct2, rule_format, OF h]
  have a: "\<exists>e s1. rumprun_config ?p ''{rc}'' sys0 = Inl (e, s1)" .
  have nw: "filter (\<lambda>i. \<forall>hj\<in>set (handlers_root ?q). jn i \<noteq> name hj) (u_v ?E) = []"
    by (simp add: handlers_root_def jobj_def jarr_def)
  have ho: "handle_object ?E (handlers_root ?q) ''rumprun_config'' sys0 = Inr ((), ?s1)"
    unfolding handle_object_apply nw
    by (simp add: pass2_root handle_rc_def bin_simps run_simps
        jobj_def jarr_def jstr_def plat0_def sys0_def)
  have hq: "config_text ?q ''{rc}'' sys0 = Inr (''{rc}'', sys0)"
      "dropWhile (\<lambda>c. c \<noteq> CHR ''{'') ''{rc}'' = CHR ''{'' # ''rc}''"
      "jparse ?q (CHR ''{'' # ''rc}'') = Some ?E"
    by (simp_all add: config_text_def no_rootfscfg_rc returnM_apply)
  have ok: "rumprun_config ?q ''{rc}'' sys0 = Inr ((), ?s1)"
    unfolding rumprun_config_parsed [OF hq] bindM_apply ho
    by (simp add: check_execs_def TAILQ_LAST_eq run_simps plat0_def)
  from t [of ?q "''{rc}''" sys0, THEN conjunct1, rule_format, OF ok]
  have "rre_flags (last (rumprun_execs ?s1)) AND RUMPRUN_EXEC_PIPE ?q = 0" by simp
  then have c: "(1 :: 32 word) AND 2 = 0" by (simp add: plat0_def)
  show ?thesis by (intro conjI a ok c)
qed


section \<open>The order of the top-level pairs\<close>


lemma resp_getmain [resp_intros]: "resp (getmain p bn)"
  unfolding getmain_def by (intro resp_intros)

lemma resp_handle_bin_netbsd [resp_intros]: "resp (handle_bin_netbsd j l)"
  unfolding handle_bin_netbsd_def by (intro resp_intros)

lemma resp_handle_bin_key [resp_intros]: "resp (handle_bin_key i l)"
  unfolding handle_bin_key_def by (intro resp_intros)

lemma resp_bin_argv [resp_intros]: "resp (bin_argv l)"
  unfolding bin_argv_def by (intro resp_intros)

lemma resp_bin_runmode [resp_intros]: "resp (bin_runmode p l bn)"
  unfolding bin_runmode_def by (intro resp_intros)

lemma resp_bin_sysctl [resp_intros]: "resp (bin_sysctl l)"
  unfolding bin_sysctl_def by (intro resp_intros)

lemma resp_handle_bin [resp_intros]: "resp (handle_bin p v loc)"
  unfolding handle_bin_def by (intro resp_intros)

lemma resp_handle_rc [resp_intros]: "resp (handle_rc p v loc)"
  unfolding handle_rc_def by (intro resp_intros)

lemma resp_handle_rc_dummy [resp_intros]: "resp (handle_rc_dummy p)"
  unfolding handle_rc_dummy_def by (intro resp_intros)

lemma resp_gets_last [resp_intros]: "resp (getsM (\<lambda>s. TAILQ_LAST (rumprun_execs s)))"
  by (rule resp_gets_execs)

lemma resp_check_execs [resp_intros]: "resp (check_execs p)"
  unfolding check_execs_def by (intro resp_intros)

lemma resp_handlers_root:
  assumes "hj \<in> set (handlers_root p)"
  shows "resp (handler hj i loc)"
proof -
  from assms have "handler hj = handle_netbsd p \<or> handler hj = handle_rc p
      \<or> handler hj = handle_env p \<or> handler hj = handle_blks p
      \<or> handler hj = handle_mounts p \<or> handler hj = handle_net p"
    by (auto simp: handlers_root_def)
  then show ?thesis
    using resp_handle_netbsd [of p i loc] resp_handle_rc [of p i loc] resp_handle_env [of p i loc]
      resp_handle_blks [of p i loc] resp_handle_mounts [of p i loc] resp_handle_net [of p i loc]
    by auto
qed

lemma resp_root: "resp (handle_object v (handlers_root p) loc)"
  by (rule resp_handle_object) (rule resp_handlers_root)

lemma resp_root_checked:
  "resp (bindM (handle_object v (handlers_root p) loc) (\<lambda>_. check_execs p))"
  by (intro resp_bindM resp_root resp_check_execs)

text \<open>
  Two lists of pairs with the same pairs under every name, in the same order, hold the
  same pairs.
\<close>

lemma same_slots_mset:
  assumes "\<forall>k. filter (\<lambda>i. jn i = k) ps' = filter (\<lambda>i. jn i = k) ps"
  shows "mset ps' = mset ps"
proof (rule multiset_eqI)
  fix x
  have "count (mset ps') x = count (mset (filter (\<lambda>i. jn i = jn x) ps')) x"
    by simp
  also have "\<dots> = count (mset (filter (\<lambda>i. jn i = jn x) ps)) x"
    using assms by simp
  also have "\<dots> = count (mset ps) x" by simp
  finally show "count (mset ps') x = count (mset ps) x" .
qed

lemma short_mset_eq:
  assumes "mset xs = mset ys" and "length ys \<le> 1"
  shows "xs = ys"
proof (cases ys)
  case Nil
  then show ?thesis using assms by simp
next
  case (Cons y zs)
  then have ys: "ys = [y]" using assms(2) by simp
  then show ?thesis using assms(1) by simp
qed

lemma distinct_slot_short:
  assumes "distinct (map jn ps)"
  shows "length (filter (\<lambda>i. jn i = k) ps) \<le> 1"
  using assms
proof (induction ps)
  case Nil
  show ?case by simp
next
  case (Cons a ps)
  then have ih: "length (filter (\<lambda>i. jn i = k) ps) \<le> 1" by simp
  show ?case
  proof (cases "jn a = k")
    case True
    then have "k \<notin> jn ` set ps" using Cons.prems by simp
    then have "\<forall>i\<in>set ps. jn i \<noteq> k" by blast
    then have "filter (\<lambda>i. jn i = k) ps = []" by (simp add: filter_empty_conv)
    then show ?thesis using True by simp
  next
    case False
    then show ?thesis using ih by simp
  qed
qed

lemma distinct_keys_slots:
  assumes "distinct (map jn ps)" and "mset ps' = mset ps"
  shows "filter (\<lambda>i. jn i = k) ps' = filter (\<lambda>i. jn i = k) ps"
proof (rule short_mset_eq)
  show "mset (filter (\<lambda>i. jn i = k) ps') = mset (filter (\<lambda>i. jn i = k) ps)"
    using assms(2) by simp
  show "length (filter (\<lambda>i. jn i = k) ps) \<le> 1" by (rule distinct_slot_short [OF assms(1)])
qed

lemma pass2_slots:
  assumes "\<forall>k. filter (\<lambda>i. jn i = k) ps' = filter (\<lambda>i. jn i = k) ps"
  shows "pass2 ps' h loc = pass2 ps h loc"
  unfolding pass2_filter using assms by simp

lemma pass1_slots:
  assumes "mset ps' = mset ps"
  shows "\<exists>s1 s2. pass1 ps' h loc s = Inr ((), s1) \<and> pass1 ps h loc s = Inr ((), s2) \<and> eqw s1 s2"
proof -
  let ?U = "\<lambda>i. \<forall>hj\<in>set h. jn i \<noteq> name hj"
  have "mset (filter ?U ps') = mset (filter ?U ps)" using assms by simp
  then have "mset (map (\<lambda>i. No_match loc (jn i)) (filter ?U ps'))
           = mset (map (\<lambda>i. No_match loc (jn i)) (filter ?U ps))"
    by (simp only: mset_map)
  then show ?thesis by (simp add: pass1_result eqw_def)
qed

lemma same_outcome_refl: "same_outcome r r"
  by (auto simp: same_outcome_def eqw_def split: sum.splits prod.splits)

lemma handle_object_slots:
  assumes "\<forall>k. filter (\<lambda>i. jn i = k) ps' = filter (\<lambda>i. jn i = k) ps"
    and "\<And>hj i. hj \<in> set h \<Longrightarrow> resp (handler hj i loc)"
  shows "same_outcome (handle_object (Jvalue d n x ps') h loc s)
                      (handle_object (Jvalue d n x ps) h loc s)"
proof (cases "d = jobject")
  case False
  then show ?thesis by (simp add: handle_object_def bindM_apply jexpect_apply same_outcome_refl)
next
  case True
  from pass1_slots [OF same_slots_mset [OF assms(1)], of h loc s]
  obtain s1 s2 where p1: "pass1 ps' h loc s = Inr ((), s1)" "pass1 ps h loc s = Inr ((), s2)"
    and e: "eqw s1 s2" by blast
  have "resp (pass2 ps h loc)" by (rule resp_pass2) (rule assms(2))
  then have "same_outcome (pass2 ps h loc s1) (pass2 ps h loc s2)"
    using e by (simp add: resp_def)
  then show ?thesis
    using True p1 by (simp add: handle_object_def bindM_apply jexpect_apply pass2_slots [OF assms(1)])
qed

lemma same_outcome_bindM:
  assumes "same_outcome (m s) (m' t)" and "\<And>x. resp (f x)"
  shows "same_outcome (bindM m f s) (bindM m' f t)"
proof (cases "m s")
  case (Inl a)
  then show ?thesis using assms(1)
    by (auto simp: bindM_def same_outcome_def split: sum.splits prod.splits)
next
  case (Inr b)
  obtain y s1 where b: "b = (y, s1)" by (cases b)
  from assms(1) Inr b obtain t1 where t1: "m' t = Inr (y, t1)" "eqw s1 t1"
    by (auto simp: same_outcome_def split: sum.splits prod.splits)
  have "same_outcome (f y s1) (f y t1)" using assms(2) t1(2) by (simp add: resp_def)
  then show ?thesis using Inr b t1 by (simp add: bindM_def)
qed




text \<open>
  C1. Pass 2 over the root table runs the slots \<open>netbsd\<close>, \<open>rc\<close>, \<open>env\<close>, \<open>blk\<close>,
  \<open>mount\<close>, \<open>net\<close> in that order, each slot over the pairs of its name in the order of the
  document. So a document whose pairs are rearranged, the pairs of one name staying in
  their relative order (any rearrangement, when no name is repeated), has the same
  outcome: the same result or the same fatal error, the same boot plan, the same sequence
  of calls with their answers, and the same warnings up to their order; and this stays so
  through the final check of \<open>rumprun_config\<close>.
\<close>

theorem root_dispatch_order:
  assumes "(\<forall>k. filter (\<lambda>i. jn i = k) ps' = filter (\<lambda>i. jn i = k) ps)
           \<or> (distinct (map jn ps) \<and> mset ps' = mset ps)"
  shows "pass2 ps' (handlers_root p) loc =
           bindM (foreach (\<lambda>i. handle_netbsd p i loc) (filter (\<lambda>i. jn i = ''netbsd'') ps)) (\<lambda>_.
           bindM (foreach (\<lambda>i. handle_rc p i loc) (filter (\<lambda>i. jn i = ''rc'') ps)) (\<lambda>_.
           bindM (foreach (\<lambda>i. handle_env p i loc) (filter (\<lambda>i. jn i = ''env'') ps)) (\<lambda>_.
           bindM (foreach (\<lambda>i. handle_blks p i loc) (filter (\<lambda>i. jn i = ''blk'') ps)) (\<lambda>_.
           bindM (foreach (\<lambda>i. handle_mounts p i loc) (filter (\<lambda>i. jn i = ''mount'') ps)) (\<lambda>_.
           bindM (foreach (\<lambda>i. handle_net p i loc) (filter (\<lambda>i. jn i = ''net'') ps)) (\<lambda>_.
           returnM ()))))))
       \<and> same_outcome (handle_object (Jvalue d n x ps') (handlers_root p) loc s)
                      (handle_object (Jvalue d n x ps) (handlers_root p) loc s)
       \<and> same_outcome
           (bindM (handle_object (Jvalue d n x ps') (handlers_root p) loc) (\<lambda>_. check_execs p) s)
           (bindM (handle_object (Jvalue d n x ps) (handlers_root p) loc) (\<lambda>_. check_execs p) s)"
proof -
  have H: "\<forall>k. filter (\<lambda>i. jn i = k) ps' = filter (\<lambda>i. jn i = k) ps"
    using assms distinct_keys_slots [of ps ps'] by blast
  have b: "same_outcome (handle_object (Jvalue d n x ps') (handlers_root p) loc s)
                        (handle_object (Jvalue d n x ps) (handlers_root p) loc s)"
    by (rule handle_object_slots [OF H]) (rule resp_handlers_root)
  have c: "same_outcome
           (bindM (handle_object (Jvalue d n x ps') (handlers_root p) loc) (\<lambda>_. check_execs p) s)
           (bindM (handle_object (Jvalue d n x ps) (handlers_root p) loc) (\<lambda>_. check_execs p) s)"
    by (rule same_outcome_bindM
        [of "handle_object (Jvalue d n x ps') (handlers_root p) loc" s
            "handle_object (Jvalue d n x ps) (handlers_root p) loc" s "\<lambda>_. check_execs p",
         OF b resp_check_execs])
  show ?thesis by (intro conjI b c) (simp add: pass2_root H)
qed

theorem root_dispatch_order_witness:
  "same_outcome
     (handle_object (Jvalue jobject [] []
        [jstr ''y'' ''2'', jarr ''rc'' [jobj [] [jstr ''bin'' ''foo'']],
         jobj ''env'' [jstr ''A'' ''1''], jstr ''x'' ''1'',
         jarr ''rc'' [jobj [] [jstr ''bin'' ''bar'']]])
        (handlers_root plat0) ''rumprun_config'' sys0)
     (handle_object (Jvalue jobject [] []
        [jstr ''x'' ''1'', jobj ''env'' [jstr ''A'' ''1''],
         jarr ''rc'' [jobj [] [jstr ''bin'' ''foo'']], jstr ''y'' ''2'',
         jarr ''rc'' [jobj [] [jstr ''bin'' ''bar'']]])
        (handlers_root plat0) ''rumprun_config'' sys0)
   \<and> handle_object (Jvalue jobject [] []
        [jstr ''x'' ''1'', jobj ''env'' [jstr ''A'' ''1''],
         jarr ''rc'' [jobj [] [jstr ''bin'' ''foo'']], jstr ''y'' ''2'',
         jarr ''rc'' [jobj [] [jstr ''bin'' ''bar'']]])
        (handlers_root plat0) ''rumprun_config'' sys0
     = Inr ((), \<lparr>rumprun_execs =
         [\<lparr>rre_flags = 0, rre_main = 1, rre_argc = 1, rre_argv = [''foo''],
           rre_workdir = None, rre_sc = [], rre_nsc = 0\<rparr>,
          \<lparr>rre_flags = 0, rre_main = 2, rre_argc = 1, rre_argv = [''bar''],
           rre_workdir = None, rre_sc = [], rre_nsc = 0\<rparr>],
         trace = [(Setenv ''A'' ''1'', 0, 0)],
         warnings = [No_match ''rumprun_config'' ''x'', No_match ''rumprun_config'' ''y'']\<rparr>)
   \<and> same_outcome
       (bindM (handle_object (Jvalue jobject [] []
          [jarr ''rc'' [jobj [] [jstr ''bin'' ''foo'']], jobj ''env'' [jstr ''A'' ''1'']])
          (handlers_root plat0) ''rumprun_config'') (\<lambda>_. check_execs plat0) sys0)
       (bindM (handle_object (Jvalue jobject [] []
          [jobj ''env'' [jstr ''A'' ''1''], jarr ''rc'' [jobj [] [jstr ''bin'' ''foo'']]])
          (handlers_root plat0) ''rumprun_config'') (\<lambda>_. check_execs plat0) sys0)"
proof -
  let ?X = "jstr ''x'' ''1''"
  let ?Y = "jstr ''y'' ''2''"
  let ?E = "jobj ''env'' [jstr ''A'' ''1'']"
  let ?A = "jarr ''rc'' [jobj [] [jstr ''bin'' ''foo'']]"
  let ?B = "jarr ''rc'' [jobj [] [jstr ''bin'' ''bar'']]"
  have h1: "(\<forall>k. filter (\<lambda>i. jn i = k) [?Y, ?A, ?E, ?X, ?B]
                 = filter (\<lambda>i. jn i = k) [?X, ?E, ?A, ?Y, ?B])
           \<or> (distinct (map jn [?X, ?E, ?A, ?Y, ?B])
               \<and> mset [?Y, ?A, ?E, ?X, ?B] = mset [?X, ?E, ?A, ?Y, ?B])"
    by (auto simp: jstr_def jobj_def jarr_def)
  have h2: "(\<forall>k. filter (\<lambda>i. jn i = k) [?A, ?E] = filter (\<lambda>i. jn i = k) [?E, ?A])
           \<or> (distinct (map jn [?E, ?A]) \<and> mset [?A, ?E] = mset [?E, ?A])"
    by (simp add: jstr_def jobj_def jarr_def)
  note t1 = root_dispatch_order [OF h1, of plat0 "''rumprun_config''" jobject "[]" "[]" sys0]
  note t2 = root_dispatch_order [OF h2, of plat0 "''rumprun_config''" jobject "[]" "[]" sys0]
  have a: "same_outcome
     (handle_object (Jvalue jobject [] [] [?Y, ?A, ?E, ?X, ?B])
        (handlers_root plat0) ''rumprun_config'' sys0)
     (handle_object (Jvalue jobject [] [] [?X, ?E, ?A, ?Y, ?B])
        (handlers_root plat0) ''rumprun_config'' sys0)"
    by (rule t1 [THEN conjunct2, THEN conjunct1])
  have nw: "filter (\<lambda>i. \<forall>hj\<in>set (handlers_root plat0). jn i \<noteq> name hj)
              (u_v (Jvalue jobject [] [] [?X, ?E, ?A, ?Y, ?B])) = [?X, ?Y]"
    by (simp add: handlers_root_def jstr_def jobj_def jarr_def)
  have b: "handle_object (Jvalue jobject [] [] [?X, ?E, ?A, ?Y, ?B])
        (handlers_root plat0) ''rumprun_config'' sys0
     = Inr ((), \<lparr>rumprun_execs =
         [\<lparr>rre_flags = 0, rre_main = 1, rre_argc = 1, rre_argv = [''foo''],
           rre_workdir = None, rre_sc = [], rre_nsc = 0\<rparr>,
          \<lparr>rre_flags = 0, rre_main = 2, rre_argc = 1, rre_argv = [''bar''],
           rre_workdir = None, rre_sc = [], rre_nsc = 0\<rparr>],
         trace = [(Setenv ''A'' ''1'', 0, 0)],
         warnings = [No_match ''rumprun_config'' ''x'', No_match ''rumprun_config'' ''y'']\<rparr>)"
    unfolding handle_object_apply nw
    by (simp add: pass2_root handle_rc_def handle_env_def bin_simps run_simps
        jobj_def jarr_def jstr_def plat0_def sys0_def)
  have c: "same_outcome
       (bindM (handle_object (Jvalue jobject [] [] [?A, ?E])
          (handlers_root plat0) ''rumprun_config'') (\<lambda>_. check_execs plat0) sys0)
       (bindM (handle_object (Jvalue jobject [] [] [?E, ?A])
          (handlers_root plat0) ''rumprun_config'') (\<lambda>_. check_execs plat0) sys0)"
    by (rule t2 [THEN conjunct2, THEN conjunct2])
  show ?thesis by (intro conjI a b c)
qed

theorem rc_pairs_swapped_counterexample:
  "mset [jarr ''rc'' [jobj [] [jstr ''bin'' ''bar'']], jarr ''rc'' [jobj [] [jstr ''bin'' ''foo'']]]
     = mset [jarr ''rc'' [jobj [] [jstr ''bin'' ''foo'']], jarr ''rc'' [jobj [] [jstr ''bin'' ''bar'']]]
   \<and> handle_object (Jvalue jobject [] []
        [jarr ''rc'' [jobj [] [jstr ''bin'' ''foo'']], jarr ''rc'' [jobj [] [jstr ''bin'' ''bar'']]])
        (handlers_root plat0) ''rumprun_config'' sys0
     = Inr ((), \<lparr>rumprun_execs =
         [\<lparr>rre_flags = 0, rre_main = 1, rre_argc = 1, rre_argv = [''foo''],
           rre_workdir = None, rre_sc = [], rre_nsc = 0\<rparr>,
          \<lparr>rre_flags = 0, rre_main = 2, rre_argc = 1, rre_argv = [''bar''],
           rre_workdir = None, rre_sc = [], rre_nsc = 0\<rparr>],
         trace = [], warnings = []\<rparr>)
   \<and> handle_object (Jvalue jobject [] []
        [jarr ''rc'' [jobj [] [jstr ''bin'' ''bar'']], jarr ''rc'' [jobj [] [jstr ''bin'' ''foo'']]])
        (handlers_root plat0) ''rumprun_config'' sys0
     = Inr ((), \<lparr>rumprun_execs =
         [\<lparr>rre_flags = 0, rre_main = 2, rre_argc = 1, rre_argv = [''bar''],
           rre_workdir = None, rre_sc = [], rre_nsc = 0\<rparr>,
          \<lparr>rre_flags = 0, rre_main = 1, rre_argc = 1, rre_argv = [''foo''],
           rre_workdir = None, rre_sc = [], rre_nsc = 0\<rparr>],
         trace = [], warnings = []\<rparr>)"
proof -
  let ?A = "jarr ''rc'' [jobj [] [jstr ''bin'' ''foo'']]"
  let ?B = "jarr ''rc'' [jobj [] [jstr ''bin'' ''bar'']]"
  have m: "mset [?B, ?A] = mset [?A, ?B]" by simp
  have nw: "filter (\<lambda>i. \<forall>hj\<in>set (handlers_root plat0). jn i \<noteq> name hj)
              (u_v (Jvalue jobject [] [] [?A, ?B])) = []"
    "filter (\<lambda>i. \<forall>hj\<in>set (handlers_root plat0). jn i \<noteq> name hj)
              (u_v (Jvalue jobject [] [] [?B, ?A])) = []"
    by (simp_all add: handlers_root_def jstr_def jobj_def jarr_def)
  have a: "handle_object (Jvalue jobject [] [] [?A, ?B])
        (handlers_root plat0) ''rumprun_config'' sys0
     = Inr ((), \<lparr>rumprun_execs =
         [\<lparr>rre_flags = 0, rre_main = 1, rre_argc = 1, rre_argv = [''foo''],
           rre_workdir = None, rre_sc = [], rre_nsc = 0\<rparr>,
          \<lparr>rre_flags = 0, rre_main = 2, rre_argc = 1, rre_argv = [''bar''],
           rre_workdir = None, rre_sc = [], rre_nsc = 0\<rparr>],
         trace = [], warnings = []\<rparr>)"
    unfolding handle_object_apply nw
    by (simp add: pass2_root handle_rc_def bin_simps run_simps
        jobj_def jarr_def jstr_def plat0_def sys0_def)
  have b: "handle_object (Jvalue jobject [] [] [?B, ?A])
        (handlers_root plat0) ''rumprun_config'' sys0
     = Inr ((), \<lparr>rumprun_execs =
         [\<lparr>rre_flags = 0, rre_main = 2, rre_argc = 1, rre_argv = [''bar''],
           rre_workdir = None, rre_sc = [], rre_nsc = 0\<rparr>,
          \<lparr>rre_flags = 0, rre_main = 1, rre_argc = 1, rre_argv = [''foo''],
           rre_workdir = None, rre_sc = [], rre_nsc = 0\<rparr>],
         trace = [], warnings = []\<rparr>)"
    unfolding handle_object_apply nw
    by (simp add: pass2_root handle_rc_def bin_simps run_simps
        jobj_def jarr_def jstr_def plat0_def sys0_def)
  show ?thesis by (intro conjI m a b)
qed

end
